theory Spec2Isabelle
  imports Main
begin

section \<open>JavaScript values\<close>

text \<open>
  The values that travel through v-thread. An object carries its identity (a number)
  next to its own enumerable properties, because the transfer registry is a
  \<^verbatim>\<open>WeakMap\<close> and so keyed by identity. Numbers are integers here (the only
  arithmetic is the example of the spec). A function is named by a number; what it does
  when called is given by the environment below.
\<close>

datatype jsval =
    VUndefined
  | VNull
  | VBool bool
  | VNum int
  | VStr string
  | VObject nat "(string \<times> jsval) list"
  | VArray nat "jsval list"
  | VArrayBuffer nat
  | VImageBitmap nat
  | VFunction nat

text \<open>The \<^verbatim>\<open>typeof\<close> operator.\<close>

fun typeof :: "jsval \<Rightarrow> string" where
  "typeof VUndefined = ''undefined''"
| "typeof VNull = ''object''"
| "typeof (VBool b) = ''boolean''"
| "typeof (VNum n) = ''number''"
| "typeof (VStr s) = ''string''"
| "typeof (VObject i ps) = ''object''"
| "typeof (VArray i xs) = ''object''"
| "typeof (VArrayBuffer i) = ''object''"
| "typeof (VImageBitmap i) = ''object''"
| "typeof (VFunction f) = ''function''"

text \<open>Truthiness, as \<^verbatim>\<open>if (v)\<close> tests it.\<close>

fun truthy :: "jsval \<Rightarrow> bool" where
  "truthy VUndefined = False"
| "truthy VNull = False"
| "truthy (VBool b) = b"
| "truthy (VNum n) = (n \<noteq> 0)"
| "truthy (VStr s) = (s \<noteq> [])"
| "truthy v = True"

text \<open>
  The identity of a value that is an object (a function is one too); a primitive has
  none. This is what can key a \<^verbatim>\<open>WeakMap\<close>.
\<close>

fun identity :: "jsval \<Rightarrow> nat option" where
  "identity (VObject i ps) = Some i"
| "identity (VArray i xs) = Some i"
| "identity (VArrayBuffer i) = Some i"
| "identity (VImageBitmap i) = Some i"
| "identity (VFunction f) = Some f"
| "identity v = None"

text \<open>\<^verbatim>\<open>t instanceof ArrayBuffer || t instanceof ImageBitmap\<close>\<close>

fun is_buffer :: "jsval \<Rightarrow> bool" where
  "is_buffer (VArrayBuffer i) = True"
| "is_buffer (VImageBitmap i) = True"
| "is_buffer v = False"

section \<open>Errors\<close>

text \<open>
  A stack frame as \<^verbatim>\<open>error-stack-parser\<close> gives it: the function name (which may be
  missing) and the source line of the frame.
\<close>

record frame =
  functionName :: "string option"
  source :: string

text \<open>
  A thrown error: the constructor that made it, its name and message, the frames its
  stack parses to, and its other own enumerable properties.
\<close>

record jserr =
  ector :: string
  ename :: string
  emessage :: string
  eframes :: "frame list"
  eprops :: "(string \<times> jsval) list"

definition mk_error :: "string \<Rightarrow> string \<Rightarrow> jserr" where
  "mk_error ctor msg =
     \<lparr>ector = ctor, ename = ctor, emessage = msg, eframes = [], eprops = []\<rparr>"

abbreviation TypeError :: "string \<Rightarrow> jserr" where
  "TypeError msg \<equiv> mk_error ''TypeError'' msg"

abbreviation Error :: "string \<Rightarrow> jserr" where
  "Error msg \<equiv> mk_error ''Error'' msg"

text \<open>A call's result is a thrown error of the given name.\<close>

definition throws :: "string \<Rightarrow> jserr + 'a \<Rightarrow> bool" where
  "throws n r = (case r of Inl e \<Rightarrow> ename e = n | Inr x \<Rightarrow> False)"

text \<open>
  What a \<^verbatim>\<open>throw\<close> of the user's code, or the rejection of one of its promises,
  carries: an error object (a value whose stack \<^verbatim>\<open>error-stack-parser\<close> can read), or
  any other value (\<^verbatim>\<open>undefined\<close>, \<^verbatim>\<open>null\<close>, a string, an object without a stack).
\<close>

datatype thrown = Err jserr | NonErr jsval

section \<open>The transfer registry (VTransferable.ts)\<close>

text \<open>
  \<^verbatim>\<open>wiredTransferables\<close> is a \<^verbatim>\<open>WeakMap\<close>: a map from object identity to the
  list of buffers recorded for it. \<^verbatim>\<open>has\<close>, \<^verbatim>\<open>get\<close> and \<^verbatim>\<open>delete\<close> on a
  key that is not an object find nothing; \<^verbatim>\<open>set\<close> on such a key throws a TypeError.
\<close>

type_synonym registry = "nat \<rightharpoonup> jsval list"

definition wm_has :: "registry \<Rightarrow> jsval \<Rightarrow> bool" where
  "wm_has reg v = (case identity v of None \<Rightarrow> False | Some k \<Rightarrow> reg k \<noteq> None)"

definition wm_get :: "registry \<Rightarrow> jsval \<Rightarrow> jsval list option" where
  "wm_get reg v = (case identity v of None \<Rightarrow> None | Some k \<Rightarrow> reg k)"

definition wm_delete :: "registry \<Rightarrow> jsval \<Rightarrow> registry" where
  "wm_delete reg v = (case identity v of None \<Rightarrow> reg | Some k \<Rightarrow> reg(k := None))"

definition wm_set :: "registry \<Rightarrow> jsval \<Rightarrow> jsval list \<Rightarrow> jserr + registry" where
  "wm_set reg v ts =
     (case identity v of
        None \<Rightarrow> Inl (TypeError ''Invalid value used as weak map key'')
      | Some k \<Rightarrow> Inr (reg(k \<mapsto> ts)))"

text \<open>
  \<^verbatim>\<open>markAsVTransferable(value, ...transferables)\<close>. The result is what the call
  returns or throws, and the registry after it.
\<close>

definition markAsVTransferable ::
  "jsval \<Rightarrow> jsval list \<Rightarrow> registry \<Rightarrow> (jserr + jsval) \<times> registry" where
  "markAsVTransferable v transferables reg =
     (if typeof v = ''object'' then
        (let ts = (if length transferables = 0 then transferables @ [v] else transferables)
         in if \<not> list_all is_buffer ts
            then (Inl (TypeError ''Only ArrayBuffer(s) and ImageBitmap(s) can be transfered''), reg)
            else (case wm_set reg v ts of
                    Inl e \<Rightarrow> (Inl e, reg)
                  | Inr reg' \<Rightarrow> (Inr v, reg')))
      else (Inr v, reg))"

text \<open>The values the guard \<^verbatim>\<open>typeof value === 'object'\<close> lets through, \<^verbatim>\<open>null\<close> apart.\<close>

definition is_object :: "jsval \<Rightarrow> bool" where
  "is_object v = (typeof v = ''object'' \<and> v \<noteq> VNull)"

section \<open>The platform and the user's code\<close>

text \<open>
  What the library calls but does not define is a parameter of the model:
  \<^item> \<open>inherited v p\<close>: the property \<open>p\<close> that the prototype chain (or the built-in
    nature of \<open>v\<close>) supplies when \<open>v\<close> has no own property of that name;
  \<^item> \<open>to_string v\<close>: the string JavaScript turns a value that is not a string into;
  \<^item> \<open>array_like v\<close>: the argument list \<^verbatim>\<open>Function.prototype.apply\<close> reads from an
    object that is not an array;
  \<^item> \<open>call_fn n f this args\<close>: what the user's function \<open>f\<close> does when it is the
    \<open>n\<close>-th call the library makes: it throws, returns a value that is not a promise,
    or returns a promise (named by a number) that settles later, if ever;
  \<^item> \<open>self_has n\<close>: \<^verbatim>\<open>self[n]\<close> is truthy (a constructor of that name is in scope);
  \<^item> \<open>startWorker_stack\<close>: the frames of the \<^verbatim>\<open>Error\<close> made inside
    \<^verbatim>\<open>startWorker\<close>;
  \<^item> \<open>parse_error v\<close>: the error that the statement
    \<^verbatim>\<open>error['stackFrames'] = extractStackFrames(error)\<close> throws when the value caught,
    \<open>v\<close>, is not an error object;
  \<^item> whether \<^verbatim>\<open>window\<close>, \<^verbatim>\<open>document\<close> and \<^verbatim>\<open>importScripts\<close> are defined.
  The user's code is taken not to touch the library's state while it runs; what it asks
  of the library (registering a listener, calling a proxy) is an event of its own.
\<close>

datatype call_result = Threw thrown | Returned jsval | Async nat

record platform =
  inherited :: "jsval \<Rightarrow> string \<Rightarrow> jsval"
  to_string :: "jsval \<Rightarrow> string"
  array_like :: "jsval \<Rightarrow> jsval list"
  call_fn :: "nat \<Rightarrow> nat \<Rightarrow> jsval \<Rightarrow> jsval list \<Rightarrow> call_result"
  self_has :: "string \<Rightarrow> bool"
  startWorker_stack :: "frame list"
  parse_error :: "jsval \<Rightarrow> jserr"
  window_defined :: bool
  document_defined :: bool
  importScripts_defined :: bool

text \<open>Reading \<^verbatim>\<open>v[p]\<close>: a TypeError on \<^verbatim>\<open>undefined\<close> and \<^verbatim>\<open>null\<close>.\<close>

definition get_prop :: "platform \<Rightarrow> jsval \<Rightarrow> string \<Rightarrow> jserr + jsval" where
  "get_prop E v p =
     (case v of
        VUndefined \<Rightarrow> Inl (TypeError (''Cannot read property '' @ p @ '' of undefined''))
      | VNull \<Rightarrow> Inl (TypeError (''Cannot read property '' @ p @ '' of null''))
      | VObject i ps \<Rightarrow>
          (case map_of ps p of Some x \<Rightarrow> Inr x | None \<Rightarrow> Inr (inherited E v p))
      | _ \<Rightarrow> Inr (inherited E v p))"

text \<open>The property key a value stands for in \<^verbatim>\<open>accu[prop]\<close>.\<close>

definition prop_key :: "platform \<Rightarrow> jsval \<Rightarrow> string" where
  "prop_key E v = (case v of VStr s \<Rightarrow> s | _ \<Rightarrow> to_string E v)"

text \<open>The argument list \<^verbatim>\<open>fn.apply(receiver, args)\<close> reads from \<^verbatim>\<open>args\<close>.\<close>

definition arg_list :: "platform \<Rightarrow> jsval \<Rightarrow> jserr + jsval list" where
  "arg_list E v =
     (case v of
        VArray i xs \<Rightarrow> Inr xs
      | VUndefined \<Rightarrow> Inr []
      | VNull \<Rightarrow> Inr []
      | VBool b \<Rightarrow> Inl (TypeError ''CreateListFromArrayLike called on non-object'')
      | VNum n \<Rightarrow> Inl (TypeError ''CreateListFromArrayLike called on non-object'')
      | VStr s \<Rightarrow> Inl (TypeError ''CreateListFromArrayLike called on non-object'')
      | _ \<Rightarrow> Inr (array_like E v))"

section \<open>The wire\<close>

text \<open>The protocol tags.\<close>

abbreviation tag_ping :: string where "tag_ping \<equiv> ''__vthread_ping''"
abbreviation tag_init :: string where "tag_init \<equiv> ''__vthread_worker_init''"
abbreviation tag_exec_child :: string where "tag_exec_child \<equiv> ''__vthread_parent_exec_child''"
abbreviation tag_exec_parent :: string where "tag_exec_parent \<equiv> ''__vthread_child_exec_parent''"
abbreviation tag_terminate :: string where "tag_terminate \<equiv> ''__vthread_worker_terminate_begin''"

text \<open>
  Modelled from the spec: \<^verbatim>\<open>serialize-error\<close> and \<^verbatim>\<open>error-stack-parser\<close> are
  packages outside the repository. The envelope holds the error's name, message and
  transportable own properties, and the frames captured where it was thrown (the two
  lines \<^verbatim>\<open>error['stackFrames'] = extractStackFrames(error); err = serializeError(error)\<close>).
\<close>

record envelope =
  vname :: string
  vmessage :: string
  vprops :: "(string \<times> jsval) list"
  stackFrames :: "frame list option"

definition serializeError :: "jserr \<Rightarrow> envelope" where
  "serializeError e =
     \<lparr>vname = ename e, vmessage = emessage e, vprops = eprops e,
      stackFrames = Some (eframes e)\<rparr>"

text \<open>
  The \<^verbatim>\<open>catch\<close> block of the handlers,
  \<^verbatim>\<open>catch (error) { error['stackFrames'] = extractStackFrames(error); err = serializeError(error); }\<close>:
  the envelope, or the error that the block throws itself when what it caught is not an
  error object (nothing catches that one).
\<close>

definition envelope_of :: "platform \<Rightarrow> thrown \<Rightarrow> jserr + envelope" where
  "envelope_of E t =
     (case t of Err e \<Rightarrow> Inr (serializeError e) | NonErr v \<Rightarrow> Inl (parse_error E v))"

text \<open>A reply, posted on the port that came with the request: \<^verbatim>\<open>{err, ret}\<close>.\<close>

record reply =
  err :: "envelope option"
  ret :: jsval

text \<open>
  An item of the transfer list handed to \<^verbatim>\<open>postMessage\<close>: a port, a value, or a
  whole array of values put there as one item. The platform's \<^verbatim>\<open>postMessage\<close>
  throws a DataCloneError when an item is not transferable; an array is not.
  (That a buffer already transferred once cannot be transferred again is not modelled.)
\<close>

datatype titem = Port nat | Item jsval | Items "jsval list"

fun transferable :: "titem \<Rightarrow> bool" where
  "transferable (Port c) = True"
| "transferable (Item v) = is_buffer v"
| "transferable (Items vs) = False"

definition DataCloneError :: jserr where
  "DataCloneError = mk_error ''DataCloneError'' ''Value does not have a transferable type''"

text \<open>
  The objects the library builds for the wire. They are fresh objects and never keys of
  the registry; identity 0 stands for them.
\<close>

definition exec_msg :: "string \<Rightarrow> string list \<Rightarrow> jsval list \<Rightarrow> jsval" where
  "exec_msg tag chain args =
     VObject 0 [(''args'', VArray 0 args),
                (''fnChain'', VArray 0 (map VStr chain)),
                (''type'', VStr tag)]"

definition ping_msg :: jsval where
  "ping_msg = VObject 0 [(''type'', VStr tag_ping)]"

definition init_msg :: "bool \<Rightarrow> jsval \<Rightarrow> jsval" where
  "init_msg isParentAvailable options =
     VObject 0 [(''isParentAvailable'', VBool isParentAvailable),
                (''options'', options),
                (''type'', VStr tag_init)]"

definition terminate_msg :: "jsval \<Rightarrow> jsval \<Rightarrow> jsval" where
  "terminate_msg graceful lastWords =
     VObject 0 [(''options'', VObject 0 [(''graceful'', graceful), (''lastWords'', lastWords)]),
                (''type'', VStr tag_terminate)]"

section \<open>Rebuilding an error on the calling side (utils.ts)\<close>

text \<open>\<^verbatim>\<open>s.indexOf(t) > -1\<close>\<close>

fun contains :: "string \<Rightarrow> string \<Rightarrow> bool" where
  "contains t [] = (t = [])"
| "contains t (c # cs) = (take (length t) (c # cs) = t \<or> contains t cs)"

definition join_lines :: "string list \<Rightarrow> string" where
  "join_lines ls = (case ls of [] \<Rightarrow> [] | l # rest \<Rightarrow> foldl (\<lambda>acc x. acc @ ''\<newline>'' @ x) l rest)"

text \<open>\<^verbatim>\<open>hydratedErr.stack\<close>: the frames' sources, one per line.\<close>

definition stack :: "jserr \<Rightarrow> string" where
  "stack e = join_lines (map source (eframes e))"

text \<open>
  \<^verbatim>\<open>processMessage(event, localErrForStack)\<close>: the reply and the frames that
  \<^verbatim>\<open>extractStackFrames(localErrForStack)\<close> gives. It returns \<^verbatim>\<open>ret\<close> or throws.
\<close>

definition processMessage :: "platform \<Rightarrow> reply \<Rightarrow> frame list \<Rightarrow> jserr + jsval" where
  "processMessage E r localStack =
     (case err r of
        None \<Rightarrow> Inr (ret r)
      | Some e \<Rightarrow>
          (case (case localStack of
                   [] \<Rightarrow> Inr localStack
                 | f # fs \<Rightarrow>
                     (case functionName f of
                        None \<Rightarrow> Inl (TypeError ''Cannot read property indexOf of undefined'')
                      | Some n \<Rightarrow> Inr (if contains ''Object.apply'' n then fs else localStack))) of
             Inl t \<Rightarrow> Inl t
           | Inr localStack' \<Rightarrow>
               (case stackFrames e of
                  Some remote \<Rightarrow>
                    Inl \<lparr>ector = (if self_has E (vname e) then vname e else ''Error''),
                         ename = vname e, emessage = vmessage e,
                         eframes = remote @ localStack', eprops = vprops e\<rparr>
                | None \<Rightarrow> Inl (Error ''Unknown error occured in v-thread''))))"

section \<open>What both peers share\<close>

text \<open>
  What a suspended \<^verbatim>\<open>await\<close> of a user's promise does when the promise settles:
  \<open>KBoot\<close> is the rest of \<^verbatim>\<open>tryBootup\<close>, \<open>KExec port\<close> the rest of an execution
  request whose reply goes to \<open>port\<close>.
\<close>

datatype cont = KBoot | KExec "nat option"

datatype 'a settle = Pending | Fulfilled 'a | Rejected jserr

text \<open>
  Each context (the main thread, the worker) has its own copy of the module state:
  \<^item> \<open>wiredTransferables\<close>: the registry of that context;
  \<^item> \<open>replies\<close>: the calls of \<^verbatim>\<open>postMessage\<close> on a response port (port, data,
    transfer list);
  \<^item> \<open>awaits\<close>: the suspended awaits of user promises;
  \<^item> \<open>calls\<close>: the calls made into the user's code (function, receiver, arguments);
  \<^item> \<open>uncaught\<close>: the errors that escaped a handler (unhandled rejections and
    exceptions thrown out of an event handler): nothing in the library sees them;
  \<^item> \<open>promises\<close>: the promises the library handed out or keeps, \<open>fresh\<close>: the
    next unused promise or channel number.
\<close>

record peer =
  wiredTransferables :: registry
  replies :: "(nat \<times> reply \<times> titem list) list"
  awaits :: "(nat \<times> cont) list"
  calls :: "(jsval \<times> jsval \<times> jsval list) list"
  uncaught :: "jserr list"
  promises :: "nat \<rightharpoonup> jsval settle"
  fresh :: nat

text \<open>An error leaves a handler: nothing catches it.\<close>

definition escape :: "jserr \<Rightarrow> 'a peer_scheme \<Rightarrow> 'a peer_scheme" where
  "escape e s = s\<lparr>uncaught := uncaught s @ [e]\<rparr>"

text \<open>\<^verbatim>\<open>resolve(v)\<close> and \<^verbatim>\<open>reject(e)\<close>: only a pending promise changes.\<close>

definition resolve :: "nat \<Rightarrow> jsval \<Rightarrow> 'a peer_scheme \<Rightarrow> 'a peer_scheme" where
  "resolve p v s =
     (if promises s p = Some Pending then s\<lparr>promises := (promises s)(p \<mapsto> Fulfilled v)\<rparr> else s)"

definition reject :: "nat \<Rightarrow> jserr \<Rightarrow> 'a peer_scheme \<Rightarrow> 'a peer_scheme" where
  "reject p e s =
     (if promises s p = Some Pending then s\<lparr>promises := (promises s)(p \<mapsto> Rejected e)\<rparr> else s)"

text \<open>
  \<^verbatim>\<open>responsePort.postMessage(data, transfer)\<close>, where the port is
  \<^verbatim>\<open>event.ports[0]\<close> and so may be \<^verbatim>\<open>undefined\<close>. The result is the error thrown,
  if any.
\<close>

definition reply_on ::
  "nat option \<Rightarrow> reply \<Rightarrow> jsval list option \<Rightarrow> 'a peer_scheme
     \<Rightarrow> jserr option \<times> 'a peer_scheme" where
  "reply_on port r transfer s =
     (case port of
        None \<Rightarrow> (Some (TypeError ''Cannot read property postMessage of undefined''), s)
      | Some c \<Rightarrow>
          (let ts = (case transfer of None \<Rightarrow> [] | Some bs \<Rightarrow> map Item bs)
           in if list_all transferable ts
              then (None, s\<lparr>replies := replies s @ [(c, r, ts)]\<rparr>)
              else (Some DataCloneError, s)))"

text \<open>A statement that may throw out of the (async) handler: the error escapes.\<close>

definition or_escape :: "jserr option \<times> 'a peer_scheme \<Rightarrow> 'a peer_scheme" where
  "or_escape x = (case x of (None, s) \<Rightarrow> s | (Some e, s) \<Rightarrow> escape e s)"

text \<open>Calling a value as a function, with a receiver; the call is logged.\<close>

definition invoke ::
  "platform \<Rightarrow> jsval \<Rightarrow> jsval \<Rightarrow> jsval list \<Rightarrow> 'a peer_scheme
     \<Rightarrow> call_result \<times> 'a peer_scheme" where
  "invoke E f this args s =
     (case f of
        VFunction k \<Rightarrow>
          (call_fn E (length (calls s)) k this args, s\<lparr>calls := calls s @ [(f, this, args)]\<rparr>)
      | _ \<Rightarrow> (Threw (Err (TypeError (to_string E f @ '' is not a function''))), s))"

subsection \<open>Consuming the registry when a proxy sends\<close>

text \<open>
  The loop over the arguments that both proxies run before sending:
  \<^verbatim>\<open>if (wiredTransferables.has(arg)) { transferables.push(wiredTransferables.get(arg));
  wiredTransferables.delete(arg); }\<close>. What is pushed is the whole recorded array, as
  one item. (\<^verbatim>\<open>has\<close> and \<^verbatim>\<open>get\<close> agree: no recorded list is \<^verbatim>\<open>undefined\<close>.)
\<close>

fun consume :: "registry \<Rightarrow> jsval list \<Rightarrow> jsval list list \<times> registry" where
  "consume reg [] = ([], reg)"
| "consume reg (a # as) =
     (if wm_has reg a
      then (case wm_get reg a of
              None \<Rightarrow> consume reg as
            | Some bs \<Rightarrow>
                (case consume (wm_delete reg a) as of (ts, reg') \<Rightarrow> (bs # ts, reg')))
      else consume reg as)"

subsection \<open>Resolving and running an execution request\<close>

text \<open>
  The same code stands in \<^verbatim>\<open>handleMessageFromParent\<close> (with the connected provider
  as \<open>root\<close>) and in \<^verbatim>\<open>handleWorkerMessage\<close> (with the host as \<open>root\<close>).

  One step of \<^verbatim>\<open>fnChain.reduce((accu, prop) => typeof accu[prop] !== 'undefined' ?
  accu[prop] : root[prop], {})\<close>; reading a property may throw.
\<close>

definition chain_step :: "platform \<Rightarrow> jsval \<Rightarrow> jsval \<Rightarrow> jsval \<Rightarrow> jserr + jsval" where
  "chain_step E root accu prop =
     (case get_prop E accu (prop_key E prop) of
        Inl e \<Rightarrow> Inl e
      | Inr v \<Rightarrow> if typeof v \<noteq> ''undefined'' then Inr v else get_prop E root (prop_key E prop))"

fun chain_reduce :: "platform \<Rightarrow> jsval \<Rightarrow> jsval \<Rightarrow> jsval list \<Rightarrow> jserr + jsval" where
  "chain_reduce E root accu [] = Inr accu"
| "chain_reduce E root accu (prop # props) =
     (case chain_step E root accu prop of
        Inl e \<Rightarrow> Inl e
      | Inr v \<Rightarrow> chain_reduce E root v props)"

text \<open>
  The two nested \<^verbatim>\<open>try\<close> blocks up to the call: the target function, or the
  error that the outer \<^verbatim>\<open>catch\<close> receives. The walk starts from the empty object
  \<^verbatim>\<open>{}\<close>; an error of the walk is rethrown as a plain \<^verbatim>\<open>Error\<close> with the same
  message. \<open>label\<close> is \<^verbatim>\<open>worker.\<close> or \<^verbatim>\<open>Host.\<close>
\<close>

definition resolve_target :: "platform \<Rightarrow> string \<Rightarrow> jsval \<Rightarrow> jsval \<Rightarrow> jserr + jsval" where
  "resolve_target E label root fnChain =
     (case (case fnChain of
              VArray i props \<Rightarrow> chain_reduce E root (VObject 0 []) props
            | VUndefined \<Rightarrow> Inl (TypeError ''Cannot read property reduce of undefined'')
            | VNull \<Rightarrow> Inl (TypeError ''Cannot read property reduce of null'')
            | _ \<Rightarrow> Inl (TypeError ''fnChain.reduce is not a function'')) of
        Inl e \<Rightarrow> Inl (Error (emessage e))
      | Inr maybeFn \<Rightarrow>
          if typeof maybeFn \<noteq> ''function''
          then Inl (TypeError (label @ to_string E maybeFn @ '' is not a function''))
          else Inr maybeFn)"

text \<open>
  The end of an execution request: the \<^verbatim>\<open>catch\<close> block when something was thrown,
  and the reply \<^verbatim>\<open>{err, ret}\<close>, posted with \<^verbatim>\<open>wiredTransferables.get(ret)\<close> as its
  transfer list. When the \<^verbatim>\<open>catch\<close> block throws, the handler ends there and nothing
  is posted.
\<close>

definition exec_done ::
  "platform \<Rightarrow> nat option \<Rightarrow> thrown + jsval \<Rightarrow> 'a peer_scheme \<Rightarrow> 'a peer_scheme" where
  "exec_done E port r s =
     (case r of
        Inr v \<Rightarrow>
          or_escape (reply_on port \<lparr>err = None, ret = v\<rparr> (wm_get (wiredTransferables s) v) s)
      | Inl t \<Rightarrow>
          (case envelope_of E t of
             Inl x \<Rightarrow> escape x s
           | Inr env \<Rightarrow>
               or_escape (reply_on port \<lparr>err = Some env, ret = VUndefined\<rparr>
                            (wm_get (wiredTransferables s) VUndefined) s)))"

definition exec_request ::
  "platform \<Rightarrow> string \<Rightarrow> jsval \<Rightarrow> jsval \<Rightarrow> jsval \<Rightarrow> nat option \<Rightarrow> 'a peer_scheme
     \<Rightarrow> 'a peer_scheme" where
  "exec_request E label root fnChain args port s =
     (case resolve_target E label root fnChain of
        Inl e \<Rightarrow> exec_done E port (Inl (Err e)) s
      | Inr maybeFn \<Rightarrow>
          (case arg_list E args of
             Inl e \<Rightarrow> exec_done E port (Inl (Err e)) s
           | Inr as \<Rightarrow>
               (case invoke E maybeFn root as s of
                  (Threw t, s') \<Rightarrow> exec_done E port (Inl t) s'
                | (Returned v, s') \<Rightarrow> exec_done E port (Inr v) s'
                | (Async p, s') \<Rightarrow> s'\<lparr>awaits := awaits s' @ [(p, KExec port)]\<rparr>)))"

text \<open>A field of the message data, read after \<^verbatim>\<open>type\<close> was (so the read cannot throw).\<close>

definition field :: "platform \<Rightarrow> jsval \<Rightarrow> string \<Rightarrow> jsval" where
  "field E data p = (case get_prop E data p of Inl e \<Rightarrow> VUndefined | Inr v \<Rightarrow> v)"

section \<open>The Provider: VThreadable\<close>

text \<open>
  The static fields of \<^verbatim>\<open>VThreadable\<close> and what the worker has done so far:
  \<^item> \<open>listeners\<close>: the callbacks the event manager holds for \<^verbatim>\<open>'will-terminate'\<close>;
  \<^item> \<open>parentProxy\<close>: \<open>None\<close> for \<^verbatim>\<open>null\<close>, else the number of the proxy;
    \<open>parentQueuedFnChain\<close> is the chain buffer of that proxy;
  \<^item> \<open>toParent\<close>: the calls of the global \<^verbatim>\<open>postMessage\<close> (data, transfer list);
  \<^item> \<open>closed\<close>: \<^verbatim>\<open>close()\<close> was called;
  \<^item> \<open>joins\<close>: the pending \<^verbatim>\<open>Promise.all\<close> of graceful terminations (reply port,
    promises not yet fulfilled);
  \<^item> \<open>pflight\<close>: the reply channels of the parent proxy's calls that are still open
    (promise, local frames).
\<close>

record vthreadable = peer +
  providerCallback :: jsval
  initOptions :: jsval
  initStatusResponsePort :: "nat option"
  connectedProvider :: jsval
  listeners :: "jsval list"
  parentProxy :: "nat option"
  parentQueuedFnChain :: "string list"
  toParent :: "(jsval \<times> titem list) list"
  closed :: bool
  joins :: "(nat option \<times> nat list) list"
  pflight :: "nat \<rightharpoonup> nat \<times> frame list"

text \<open>The worker just after its script has loaded and \<^verbatim>\<open>VThreadable.init()\<close> has run.\<close>

definition vthreadable_init :: vthreadable where
  "vthreadable_init =
     \<lparr>wiredTransferables = Map.empty, replies = [], awaits = [], calls = [], uncaught = [],
      promises = Map.empty, fresh = 0,
      providerCallback = VUndefined, initOptions = VUndefined,
      initStatusResponsePort = None, connectedProvider = VUndefined,
      listeners = [], parentProxy = None, parentQueuedFnChain = [],
      toParent = [], closed = False, joins = [], pflight = Map.empty\<rparr>"

text \<open>The library's own objects handed to the user's code (identities 0 to 2 are theirs).\<close>

definition VThreadHost :: jsval where
  "VThreadHost =
     VObject 0 [(''getMasterProxy'', VFunction 0), (''onWillTerminate'', VFunction 1)]"

definition VThreadableClass :: jsval where
  "VThreadableClass = VFunction 2"

subsection \<open>tryBootup\<close>

text \<open>
  The rest of \<^verbatim>\<open>tryBootup\<close> once the provider callback's result is known: the
  provider is stored on success, the error is enveloped on failure (by the same
  \<^verbatim>\<open>catch\<close> block as above), and the status goes to the port of the init request (as
  it is at that moment).
\<close>

definition boot_done :: "platform \<Rightarrow> thrown + jsval \<Rightarrow> vthreadable \<Rightarrow> vthreadable" where
  "boot_done E r s =
     (case r of
        Inr v \<Rightarrow>
          or_escape (reply_on (initStatusResponsePort s) \<lparr>err = None, ret = VUndefined\<rparr> None
                       (s\<lparr>connectedProvider := v\<rparr>))
      | Inl t \<Rightarrow>
          (case envelope_of E t of
             Inl x \<Rightarrow> escape x s
           | Inr env \<Rightarrow>
               or_escape (reply_on (initStatusResponsePort s)
                            \<lparr>err = Some env, ret = VUndefined\<rparr> None s)))"

definition tryBootup :: "platform \<Rightarrow> vthreadable \<Rightarrow> vthreadable" where
  "tryBootup E s =
     (if truthy (connectedProvider s)
      then escape (Error ''A Provider has already been registered in this worker'') s
      else if typeof (providerCallback s) = ''function'' \<and> initStatusResponsePort s \<noteq> None
      then (case invoke E (providerCallback s) VThreadableClass [initOptions s, VThreadHost] s of
              (Threw t, s') \<Rightarrow> boot_done E (Inl t) s'
            | (Returned v, s') \<Rightarrow> boot_done E (Inr v) s'
            | (Async p, s') \<Rightarrow> s'\<lparr>awaits := awaits s' @ [(p, KBoot)]\<rparr>)
      else s)"

subsection \<open>onStart\<close>

text \<open>\<^verbatim>\<open>VThreadable.onStart(callback)\<close>: the error thrown, if any, and the state after.\<close>

definition onStart :: "platform \<Rightarrow> jsval \<Rightarrow> vthreadable \<Rightarrow> jserr option \<times> vthreadable" where
  "onStart E callback s =
     (if window_defined E \<or> document_defined E \<or> \<not> importScripts_defined E
      then (Some (Error ''VThreadables run in worker context and spawned in main thread using VThread.start(scriptUrl: string)''), s)
      else if typeof (providerCallback s) = ''function''
      then (Some (TypeError ''Looks like a callback has already been registered before, on one callback per Worker thread is allowed''), s)
      else if typeof callback \<noteq> ''function''
      then (Some (TypeError ''callback must be a function that when called should return an object to be exposed to main/window context''), s)
      else (None, tryBootup E (s\<lparr>providerCallback := callback\<rparr>)))"

subsection \<open>Termination\<close>

text \<open>
  \<^verbatim>\<open>EventManager.dispatch\<close>: \<^verbatim>\<open>callbacks.forEach((cb) => cb(...args))\<close>. A callback
  that throws ends the loop; what the callbacks return is dropped.
\<close>

fun dispatch ::
  "platform \<Rightarrow> jsval list \<Rightarrow> jsval list \<Rightarrow> 'a peer_scheme \<Rightarrow> thrown option \<times> 'a peer_scheme" where
  "dispatch E [] args s = (None, s)"
| "dispatch E (cb # cbs) args s =
     (case invoke E cb VUndefined args s of
        (Threw e, s') \<Rightarrow> (Some e, s')
      | (Returned v, s') \<Rightarrow> dispatch E cbs args s'
      | (Async p, s') \<Rightarrow> dispatch E cbs args s')"

text \<open>
  \<^verbatim>\<open>EventManager.pDispatch\<close>, its first half: \<^verbatim>\<open>callbacks.map((cb) => cb(...args))\<close>.
  The result is what the callback that threw has thrown, or the promises returned (a
  value that is not a promise is nothing to wait for).
\<close>

fun pDispatch_map ::
  "platform \<Rightarrow> jsval list \<Rightarrow> jsval list \<Rightarrow> 'a peer_scheme
     \<Rightarrow> (thrown + nat list) \<times> 'a peer_scheme" where
  "pDispatch_map E [] args s = (Inr [], s)"
| "pDispatch_map E (cb # cbs) args s =
     (case invoke E cb VUndefined args s of
        (Threw e, s') \<Rightarrow> (Inl e, s')
      | (Returned v, s') \<Rightarrow> pDispatch_map E cbs args s'
      | (Async p, s') \<Rightarrow>
          (case pDispatch_map E cbs args s' of
             (Inl e, s'') \<Rightarrow> (Inl e, s'')
           | (Inr ps, s'') \<Rightarrow> (Inr (p # ps), s'')))"

text \<open>
  The second \<^verbatim>\<open>try\<close> block of the terminate branch:
  \<^verbatim>\<open>try { responsePort.postMessage({ err }); close(); } catch (error) { }\<close>.
\<close>

definition term_done :: "nat option \<Rightarrow> envelope option \<Rightarrow> vthreadable \<Rightarrow> vthreadable" where
  "term_done port env s =
     (case reply_on port \<lparr>err = env, ret = VUndefined\<rparr> None s of
        (None, s') \<Rightarrow> s'\<lparr>closed := True\<rparr>
      | (Some x, s') \<Rightarrow> s')"

text \<open>
  The \<^verbatim>\<open>catch\<close> block between the two, when something was thrown or a promise
  rejected: when the block throws itself, the handler ends there, before the second
  \<^verbatim>\<open>try\<close> block: nothing is posted and \<^verbatim>\<open>close()\<close> is not called.
\<close>

definition term_catch ::
  "platform \<Rightarrow> nat option \<Rightarrow> thrown \<Rightarrow> vthreadable \<Rightarrow> vthreadable" where
  "term_catch E port t s =
     (case envelope_of E t of
        Inl x \<Rightarrow> escape x s
      | Inr env \<Rightarrow> term_done port (Some env) s)"

text \<open>
  The first \<^verbatim>\<open>try\<close> block of the terminate branch. A graceful termination that has
  promises to wait for is suspended in \<open>joins\<close>.
\<close>

definition terminate_request ::
  "platform \<Rightarrow> jsval \<Rightarrow> nat option \<Rightarrow> vthreadable \<Rightarrow> vthreadable" where
  "terminate_request E options port s =
     (case get_prop E options ''graceful'' of
        Inl e \<Rightarrow> term_catch E port (Err e) s
      | Inr graceful \<Rightarrow>
          (case get_prop E options ''lastWords'' of
             Inl e \<Rightarrow> term_catch E port (Err e) s
           | Inr lastWords \<Rightarrow>
               if truthy graceful
               then (case pDispatch_map E (listeners s) [lastWords, graceful] s of
                       (Inl t, s') \<Rightarrow> term_catch E port t s'
                     | (Inr ps, s') \<Rightarrow>
                         if ps = [] then term_done port None s'
                         else s'\<lparr>joins := joins s' @ [(port, ps)]\<rparr>)
               else (case dispatch E (listeners s) [lastWords, graceful] s of
                       (e, s') \<Rightarrow>
                         (case e of
                            None \<Rightarrow> term_done port None s'
                          | Some t \<Rightarrow> term_catch E port t s'))))"

subsection \<open>The message handler\<close>

text \<open>
  The init branch. A new parent proxy comes with a chain buffer of its own; the model
  keeps the buffer of the current proxy.
\<close>

definition init_request :: "platform \<Rightarrow> jsval \<Rightarrow> nat option \<Rightarrow> vthreadable \<Rightarrow> vthreadable" where
  "init_request E data port s =
     (case (if truthy (connectedProvider s)
            then reply_on port \<lparr>err = None, ret = VBool True\<rparr> None s
            else (None, s)) of
        (Some e, s') \<Rightarrow> escape e s'
      | (None, s1) \<Rightarrow>
          (let s2 = s1\<lparr>initOptions := field E data ''options'',
                       initStatusResponsePort := port\<rparr>;
               s3 = (if truthy (field E data ''isParentAvailable'')
                     then s2\<lparr>parentProxy :=
                               Some (case parentProxy s2 of None \<Rightarrow> 0 | Some k \<Rightarrow> Suc k),
                             parentQueuedFnChain := []\<rparr>
                     else s2)
           in tryBootup E s3))"

text \<open>
  \<^verbatim>\<open>handleMessageFromParent\<close>. The four tests of \<^verbatim>\<open>type\<close> follow one another in
  the source; at most one holds, so they are written as a chain here.
\<close>

definition handleMessageFromParent ::
  "platform \<Rightarrow> jsval \<Rightarrow> nat list \<Rightarrow> vthreadable \<Rightarrow> vthreadable" where
  "handleMessageFromParent E data ports s =
     (case get_prop E data ''type'' of
        Inl e \<Rightarrow> escape e s
      | Inr ty \<Rightarrow>
          if typeof ty = ''string'' then
            (let responsePort = (case ports of [] \<Rightarrow> None | c # cs \<Rightarrow> Some c) in
             if ty = VStr tag_ping
             then or_escape (reply_on responsePort \<lparr>err = None, ret = VBool True\<rparr> None s)
             else if ty = VStr tag_init
             then init_request E data responsePort s
             else if ty = VStr tag_exec_child
             then exec_request E ''worker.'' (connectedProvider s)
                    (field E data ''fnChain'') (field E data ''args'') responsePort s
             else if ty = VStr tag_terminate
             then terminate_request E (field E data ''options'') responsePort s
             else s)
          else s)"

subsection \<open>The parent proxy\<close>

text \<open>The \<^verbatim>\<open>get\<close> trap: the property is pushed and the proxy itself returned.\<close>

definition parent_get :: "string \<Rightarrow> vthreadable \<Rightarrow> nat option \<times> vthreadable" where
  "parent_get p s =
     (parentProxy s, s\<lparr>parentQueuedFnChain := parentQueuedFnChain s @ [p]\<rparr>)"

text \<open>
  The \<^verbatim>\<open>apply\<close> trap: the promise returned and the state after. The executor is an
  ordinary function, so when \<^verbatim>\<open>postMessage\<close> throws the promise is rejected and the
  line after it (which empties the chain buffer) does not run.
\<close>

definition parent_apply :: "jsval list \<Rightarrow> frame list \<Rightarrow> vthreadable \<Rightarrow> nat \<times> vthreadable" where
  "parent_apply args localStack s =
     (let p = fresh s; c = Suc (fresh s) in
      case consume (wiredTransferables s) args of
        (transferables, reg') \<Rightarrow>
          (let s1 = s\<lparr>wiredTransferables := reg',
                      promises := (promises s)(p \<mapsto> Pending),
                      pflight := (pflight s)(c \<mapsto> (p, localStack)),
                      fresh := fresh s + 2\<rparr>;
               transfer = Port c # map Items transferables
           in if list_all transferable transfer
              then (p, s1\<lparr>toParent := toParent s1 @
                             [(exec_msg tag_exec_parent (parentQueuedFnChain s1) args, transfer)],
                           parentQueuedFnChain := []\<rparr>)
              else (p, reject p DataCloneError s1)))"

text \<open>
  The reply to a call of the parent proxy arrives on its channel: both ports are closed
  and the promise is resolved with what \<open>processMessage\<close> returns. When
  \<open>processMessage\<close> throws, it throws out of the \<^verbatim>\<open>onmessage\<close> handler.
\<close>

definition parent_reply :: "platform \<Rightarrow> nat \<Rightarrow> reply \<Rightarrow> vthreadable \<Rightarrow> vthreadable" where
  "parent_reply E c r s =
     (case pflight s c of
        None \<Rightarrow> s
      | Some (p, localStack) \<Rightarrow>
          (let s1 = s\<lparr>pflight := (pflight s)(c := None)\<rparr> in
           case processMessage E r localStack of
             Inl e \<Rightarrow> escape e s1
           | Inr v \<Rightarrow> resolve p v s1))"

subsection \<open>The worker as a machine\<close>

text \<open>A user's promise settles: the awaits suspended on it go on, in the order they began.\<close>

fun resume :: "platform \<Rightarrow> cont \<Rightarrow> thrown + jsval \<Rightarrow> vthreadable \<Rightarrow> vthreadable" where
  "resume E KBoot r s = boot_done E r s"
| "resume E (KExec port) r s = exec_done E port r s"

definition settle_awaits ::
  "platform \<Rightarrow> nat \<Rightarrow> thrown + jsval \<Rightarrow> vthreadable \<Rightarrow> vthreadable" where
  "settle_awaits E p r s =
     foldl (\<lambda>t k. resume E k r t)
       (s\<lparr>awaits := filter (\<lambda>(q, k). q \<noteq> p) (awaits s)\<rparr>)
       (map snd (filter (\<lambda>(q, k). q = p) (awaits s)))"

text \<open>
  \<^verbatim>\<open>Promise.all\<close> of a graceful termination: it rejects as soon as one of its
  promises rejects, and fulfils when the last of them has fulfilled. Then the terminate
  branch goes on with its reply.
\<close>

definition join_one ::
  "platform \<Rightarrow> nat \<Rightarrow> thrown + jsval \<Rightarrow> nat option \<times> nat list \<Rightarrow> vthreadable
     \<Rightarrow> vthreadable" where
  "join_one E p r j s =
     (case j of (port, ps) \<Rightarrow>
        if closed s then s
        else if p \<in> set ps then
          (case r of
             Inl t \<Rightarrow> term_catch E port t s
           | Inr v \<Rightarrow>
               if removeAll p ps = [] then term_done port None s
               else s\<lparr>joins := joins s @ [(port, removeAll p ps)]\<rparr>)
        else s\<lparr>joins := joins s @ [(port, ps)]\<rparr>)"

definition settle_joins ::
  "platform \<Rightarrow> nat \<Rightarrow> thrown + jsval \<Rightarrow> vthreadable \<Rightarrow> vthreadable" where
  "settle_joins E p r s = foldl (\<lambda>t j. join_one E p r j t) (s\<lparr>joins := []\<rparr>) (joins s)"

text \<open>
  \<^verbatim>\<open>dispose()\<close> of a listener's handle:
  \<^verbatim>\<open>const idx = existing.indexOf(cb); existing.splice(idx, 1);\<close> (with \<open>idx = -1\<close>
  the last element goes).
\<close>

definition dispose :: "jsval \<Rightarrow> jsval list \<Rightarrow> jsval list" where
  "dispose cb existing = (if cb \<in> set existing then remove1 cb existing else butlast existing)"

text \<open>
  What happens in the worker: the user's script calls the library, a message of the
  parent arrives, a reply arrives on the channel of a proxy call, a user's promise
  settles. Nothing runs in a worker that has closed.
\<close>

datatype pevent =
    OnStart jsval
  | OnWillTerminate jsval
  | Dispose jsval
  | MarkInWorker jsval "jsval list"
  | FromParent jsval "nat list"
  | ParentGet string
  | ParentApply "jsval list" "frame list"
  | ParentReply nat reply
  | Settle nat "thrown + jsval"

definition pstep :: "platform \<Rightarrow> vthreadable \<Rightarrow> pevent \<Rightarrow> vthreadable" where
  "pstep E s ev =
     (if closed s then s
      else case ev of
        OnStart cb \<Rightarrow> snd (onStart E cb s)
      | OnWillTerminate cb \<Rightarrow> s\<lparr>listeners := listeners s @ [cb]\<rparr>
      | Dispose cb \<Rightarrow> s\<lparr>listeners := dispose cb (listeners s)\<rparr>
      | MarkInWorker v bufs \<Rightarrow>
          s\<lparr>wiredTransferables := snd (markAsVTransferable v bufs (wiredTransferables s))\<rparr>
      | FromParent data ports \<Rightarrow> handleMessageFromParent E data ports s
      | ParentGet p \<Rightarrow> (if parentProxy s = None then s else snd (parent_get p s))
      | ParentApply args localStack \<Rightarrow>
          (if parentProxy s = None then s else snd (parent_apply args localStack s))
      | ParentReply c r \<Rightarrow> parent_reply E c r s
      | Settle p r \<Rightarrow> settle_joins E p r (settle_awaits E p r s))"

definition prun :: "platform \<Rightarrow> vthreadable \<Rightarrow> pevent list \<Rightarrow> vthreadable" where
  "prun E s evs = foldl (pstep E) s evs"

section \<open>The Initiator: VThread\<close>

datatype WorkerState = Loading | Listening | Ready | Killed

text \<open>The number the enum gives each state (the source compares states with \<open><\<close>).\<close>

fun rank :: "WorkerState \<Rightarrow> nat" where
  "rank Loading = 0"
| "rank Listening = 1"
| "rank Ready = 2"
| "rank Killed = 3"

text \<open>
  What waits for the reply on a channel opened by \<^verbatim>\<open>delegateMessage\<close>:
  \<^item> \<open>OpExec p st\<close>: the executor of the proxy's \<^verbatim>\<open>apply\<close> trap, which made promise
    \<open>p\<close> and captured the frames \<open>st\<close>;
  \<^item> \<open>OpInit p st\<close>: the executor of \<^verbatim>\<open>startWorker\<close>, which made promise \<open>p\<close>;
  \<^item> \<open>OpKill p st\<close>: the call of \<^verbatim>\<open>kill\<close> whose promise is \<open>p\<close>;
  \<^item> \<open>OpDone\<close>: the reply has come; the \<^verbatim>\<open>onmessage\<close> handler is still there.
\<close>

datatype op = OpExec nat "frame list" | OpInit nat "frame list" | OpKill nat "frame list" | OpDone

text \<open>
  What is suspended at \<^verbatim>\<open>await this.ensureWorkerReady()\<close>:
  \<^item> \<open>WCall c payload transferables\<close>: a proxy call, whose channel \<open>c\<close> is open
    already and whose message is not posted yet;
  \<^item> \<open>WKill p lastWords graceful st\<close>: a call of \<^verbatim>\<open>kill\<close> whose promise is \<open>p\<close>.
\<close>

datatype waiter = WCall nat jsval "jsval list list" | WKill nat jsval jsval "frame list"

text \<open>
  The fields of a \<^verbatim>\<open>VThread\<close>, and what it has done so far:
  \<^item> \<open>queuedWorkerFnChain\<close>: the chain buffer of the proxy (a variable of
    \<^verbatim>\<open>generateProxy\<close>);
  \<^item> \<open>posted\<close>: the calls of \<^verbatim>\<open>worker.postMessage\<close> (data, transfer list);
  \<^item> \<open>flight\<close>: the channels of \<^verbatim>\<open>delegateMessage\<close> and what waits on each;
  \<^item> \<open>waiting\<close>: what waits for \<^verbatim>\<open>workerInitPromise\<close>;
  \<^item> \<open>resuming\<close>: what awaits an \<^verbatim>\<open>ensureWorkerReady()\<close> that has returned: the
    code after the \<^verbatim>\<open>await\<close> does not run within the call, but in a later turn of
    the event loop;
  \<^item> \<open>pingAwaited\<close>: the executor of \<^verbatim>\<open>startWorker\<close> is suspended at
    \<^verbatim>\<open>await this.pingWorker()\<close>; \<open>pingChannels\<close>: the channels whose
    \<^verbatim>\<open>onmessage\<close> is the handler of \<^verbatim>\<open>pingWorker\<close>; \<open>timers\<close>: the channels whose
    100 ms timer has not fired yet;
  \<^item> \<open>terminated\<close>: \<^verbatim>\<open>worker.terminate()\<close> was called;
  \<^item> \<open>proxy\<close>: the identity of the proxy object that \<^verbatim>\<open>generateProxy\<close> has made
    and stored in \<^verbatim>\<open>this.proxy\<close>.
  The event emitter is left out: its two \<^verbatim>\<open>add\<close> methods are private and never
  called, so every \<^verbatim>\<open>dispatch\<close> finds no listener.
\<close>

record vthread = peer +
  workerState :: WorkerState
  workerInitOptions :: jsval
  host :: jsval
  workerInitPromise :: "nat option"
  pendingTransactionCount :: int
  queuedWorkerFnChain :: "string list"
  posted :: "(jsval \<times> titem list) list"
  flight :: "nat \<rightharpoonup> op"
  waiting :: "waiter list"
  resuming :: "waiter list"
  pingAwaited :: bool
  pingChannels :: "nat list"
  timers :: "nat list"
  terminated :: bool
  proxy :: nat

subsection \<open>Posting to the worker\<close>

text \<open>
  The last line of \<^verbatim>\<open>delegateMessage\<close>:
  \<^verbatim>\<open>this.worker.postMessage(data, [channel.port2, ...transferables])\<close>. It runs in an
  async promise executor: when it throws, the error is lost and the promise of
  \<^verbatim>\<open>delegateMessage\<close> never settles.
\<close>

definition post :: "jsval \<Rightarrow> nat \<Rightarrow> jsval list list \<Rightarrow> vthread \<Rightarrow> vthread" where
  "post data c transferables s =
     (let transfer = Port c # map Items transferables
      in if list_all transferable transfer
         then s\<lparr>posted := posted s @ [(data, transfer)]\<rparr>
         else escape DataCloneError s)"

text \<open>
  The first lines of \<^verbatim>\<open>delegateMessage\<close>: the counter goes up and a channel is
  opened whose \<^verbatim>\<open>onmessage\<close> will resolve the promise returned.
\<close>

definition open_channel :: "op \<Rightarrow> vthread \<Rightarrow> nat \<times> vthread" where
  "open_channel w s =
     (fresh s, s\<lparr>pendingTransactionCount := pendingTransactionCount s + 1,
                 flight := (flight s)(fresh s \<mapsto> w),
                 fresh := Suc (fresh s)\<rparr>)"

text \<open>\<^verbatim>\<open>delegateMessage(payload)\<close> with a payload that is not a promise.\<close>

definition delegateMessage :: "jsval \<Rightarrow> op \<Rightarrow> vthread \<Rightarrow> vthread" where
  "delegateMessage data w s = (case open_channel w s of (c, s') \<Rightarrow> post data c [] s')"

subsection \<open>Connecting\<close>

text \<open>
  \<^verbatim>\<open>pingWorker()\<close>: the promise it returns is rejected (the executor threw),
  resolved at once, or pending. After \<^verbatim>\<open>resolve(true)\<close> the executor goes on: the
  ping is posted and the timer set in every case but the first.
\<close>

datatype ping_result = PingThrew jserr | PingResolved | PingPending

definition pingWorker :: "vthread \<Rightarrow> ping_result \<times> vthread" where
  "pingWorker s =
     (if workerState s = Killed
      then (PingThrew (Error ''Can't ping dead worker. Use 'VThread.start' to start one from scratch.''), s)
      else (if workerState s = Listening \<or> workerState s = Ready then PingResolved else PingPending,
            s\<lparr>pingChannels := pingChannels s @ [fresh s],
              posted := posted s @ [(ping_msg, [Port (fresh s)])],
              timers := timers s @ [fresh s],
              fresh := Suc (fresh s)\<rparr>))"

text \<open>
  Those who wait for \<^verbatim>\<open>workerInitPromise\<close> go on when it settles. A proxy call posts
  its message when the promise fulfils; when it rejects, the error is thrown inside the
  async executor of \<^verbatim>\<open>delegateMsgEnsured\<close> and lost. A \<^verbatim>\<open>kill\<close> goes on with its
  second half, or rejects.
\<close>

definition kill_go :: "nat \<Rightarrow> jsval \<Rightarrow> jsval \<Rightarrow> frame list \<Rightarrow> vthread \<Rightarrow> vthread" where
  "kill_go p lastWords graceful st s =
     delegateMessage (terminate_msg graceful lastWords) (OpKill p st)
       (s\<lparr>workerState := Killed\<rparr>)"

fun release :: "jsval settle \<Rightarrow> waiter \<Rightarrow> vthread \<Rightarrow> vthread" where
  "release (Fulfilled v) (WCall c payload transferables) s = post payload c transferables s"
| "release (Rejected e) (WCall c payload transferables) s = escape e s"
| "release (Fulfilled v) (WKill p lastWords graceful st) s = kill_go p lastWords graceful st s"
| "release (Rejected e) (WKill p lastWords graceful st) s = reject p e s"
| "release Pending w s = s"

definition settle_init :: "nat \<Rightarrow> jsval settle \<Rightarrow> vthread \<Rightarrow> vthread" where
  "settle_init p r s =
     (if promises s p = Some Pending \<and> r \<noteq> Pending
      then foldl (\<lambda>t w. release r w t)
             (s\<lparr>promises := (promises s)(p \<mapsto> r), waiting := []\<rparr>) (waiting s)
      else s)"

text \<open>
  The executor of \<^verbatim>\<open>startWorker\<close> after \<^verbatim>\<open>await this.pingWorker()\<close>: up to
  \<^verbatim>\<open>await this.delegateMessage(...)\<close>.
\<close>

definition after_ping :: "platform \<Rightarrow> nat \<Rightarrow> vthread \<Rightarrow> vthread" where
  "after_ping E p s =
     (if workerState s = Ready
      then settle_init p (Fulfilled (VBool True)) s
      else delegateMessage (init_msg (typeof (host s) = ''object'') (workerInitOptions s))
             (OpInit p (startWorker_stack E)) s)"

text \<open>
  \<^verbatim>\<open>startWorker()\<close>: the promise returned. The executor runs only when no promise
  is stored yet. It is an async function: an error thrown inside it is lost.
\<close>

definition startWorker :: "platform \<Rightarrow> vthread \<Rightarrow> nat \<times> vthread" where
  "startWorker E s =
     (case workerInitPromise s of
        Some p \<Rightarrow> (p, s)
      | None \<Rightarrow>
          (let p = fresh s;
               s1 = s\<lparr>promises := (promises s)(p \<mapsto> Pending), fresh := Suc (fresh s),
                      workerInitPromise := Some p\<rparr>;
               s2 = (if workerState s1 = Killed
                     then settle_init p (Rejected (Error ''Workers once killed cannot be started again. Use 'VThread.start' to start one from scratch'')) s1
                     else s1)
           in (p, if rank (workerState s2) < rank Listening
                  then (case pingWorker s2 of
                          (PingThrew e, s3) \<Rightarrow> escape e s3
                        | (PingResolved, s3) \<Rightarrow> after_ping E p s3
                        | (PingPending, s3) \<Rightarrow> s3\<lparr>pingAwaited := True\<rparr>)
                  else after_ping E p s2)))"

text \<open>
  \<^verbatim>\<open>ensureWorkerReady()\<close> up to the point where its caller can go on: it throws,
  it returns, or it waits for \<^verbatim>\<open>workerInitPromise\<close>.
\<close>

datatype readiness = NotReady jserr | IsReady | MustWait

definition ensureWorkerReady :: "platform \<Rightarrow> vthread \<Rightarrow> readiness \<times> vthread" where
  "ensureWorkerReady E s =
     (if workerState s = Killed then (NotReady (Error ''This worker has been killed''), s)
      else if workerState s \<noteq> Ready
      then (case startWorker E s of
              (p, s') \<Rightarrow>
                (case promises s' p of
                   Some (Fulfilled v) \<Rightarrow> (IsReady, s')
                 | Some (Rejected e) \<Rightarrow> (NotReady e, s')
                 | _ \<Rightarrow> (MustWait, s')))
      else (IsReady, s))"

subsection \<open>The worker proxy\<close>

text \<open>
  The \<^verbatim>\<open>get\<close> trap: the property is pushed and \<^verbatim>\<open>this.proxy\<close> returned (the
  identity of the object that field holds).
\<close>

definition worker_get :: "string \<Rightarrow> vthread \<Rightarrow> nat \<times> vthread" where
  "worker_get p s = (proxy s, s\<lparr>queuedWorkerFnChain := queuedWorkerFnChain s @ [p]\<rparr>)"

text \<open>
  The \<^verbatim>\<open>apply\<close> trap, up to the first point where it has to wait: the promise
  returned, the payload built, and the state. The executor of the promise is an async
  function. Inside it \<^verbatim>\<open>delegateMsgEnsured\<close> first builds the promise of the payload
  (whose executor, async too, calls \<^verbatim>\<open>ensureWorkerReady\<close> and awaits it), then
  \<^verbatim>\<open>delegateMessage\<close> opens the channel and waits for the payload. So even when
  the worker is ready the message is not posted within the call: the call is suspended
  at the \<^verbatim>\<open>await\<close> and goes on later.
\<close>

definition worker_apply ::
  "platform \<Rightarrow> jsval list \<Rightarrow> frame list \<Rightarrow> vthread \<Rightarrow> (nat \<times> jsval) \<times> vthread" where
  "worker_apply E args localStack s =
     (let p = fresh s in
      case consume (wiredTransferables s) args of
        (transferables, reg') \<Rightarrow>
          (let msgPayload = exec_msg tag_exec_child (queuedWorkerFnChain s) args;
               s1 = s\<lparr>promises := (promises s)(p \<mapsto> Pending), fresh := Suc (fresh s),
                      wiredTransferables := reg', queuedWorkerFnChain := []\<rparr>
           in case ensureWorkerReady E s1 of
                (rd, s2) \<Rightarrow>
                  (case open_channel (OpExec p localStack) s2 of
                     (c, s3) \<Rightarrow>
                       ((p, msgPayload),
                        (case rd of
                           NotReady e \<Rightarrow> escape e s3
                         | IsReady \<Rightarrow>
                             s3\<lparr>resuming := resuming s3 @ [WCall c msgPayload transferables]\<rparr>
                         | MustWait \<Rightarrow>
                             s3\<lparr>waiting := waiting s3 @ [WCall c msgPayload transferables]\<rparr>)))))"

subsection \<open>kill\<close>

text \<open>
  \<^verbatim>\<open>kill(lastWords?, graceful = true)\<close>, up to its first \<^verbatim>\<open>await\<close>: the promise
  returned and the state. An argument that is \<^verbatim>\<open>undefined\<close> (or not given) takes the
  default of the parameter. \<^verbatim>\<open>kill\<close> is itself an async function, so the error
  thrown by \<^verbatim>\<open>ensureWorkerReady\<close> rejects its promise. Otherwise the call is suspended
  at \<^verbatim>\<open>await this.ensureWorkerReady()\<close>: the state becomes \<open>Killed\<close> and the message
  is posted only when it goes on (\<open>kill_go\<close>).
\<close>

definition kill :: "platform \<Rightarrow> jsval \<Rightarrow> jsval \<Rightarrow> frame list \<Rightarrow> vthread \<Rightarrow> nat \<times> vthread" where
  "kill E lastWords graceful0 st s =
     (let graceful = (if graceful0 = VUndefined then VBool True else graceful0);
          p = fresh s;
          s1 = s\<lparr>promises := (promises s)(p \<mapsto> Pending), fresh := Suc (fresh s)\<rparr>
      in case ensureWorkerReady E s1 of
           (NotReady e, s2) \<Rightarrow> (p, reject p e s2)
         | (IsReady, s2) \<Rightarrow> (p, s2\<lparr>resuming := resuming s2 @ [WKill p lastWords graceful st]\<rparr>)
         | (MustWait, s2) \<Rightarrow> (p, s2\<lparr>waiting := waiting s2 @ [WKill p lastWords graceful st]\<rparr>))"

text \<open>
  One of those suspended after an \<^verbatim>\<open>ensureWorkerReady()\<close> that has returned goes on.
  How many turns of the microtask queue an \<^verbatim>\<open>await\<close> takes depends on the build, so
  the model does not fix the order in which they go on: any of them may be next.
\<close>

definition resume_nth :: "nat \<Rightarrow> vthread \<Rightarrow> vthread" where
  "resume_nth k s =
     (if k < length (resuming s)
      then release (Fulfilled VUndefined) (resuming s ! k)
             (s\<lparr>resuming := take k (resuming s) @ drop (Suc k) (resuming s)\<rparr>)
      else s)"

subsection \<open>Replies and timers\<close>

text \<open>
  The reply has come on a channel of \<^verbatim>\<open>delegateMessage\<close>, and whoever awaited it
  goes on:
  \<^item> the \<^verbatim>\<open>apply\<close> trap with \<^verbatim>\<open>resolve(processMessage(t, localErrForStack))\<close>; when
    \<open>processMessage\<close> throws, it throws inside the async executor and the error is lost;
  \<^item> \<^verbatim>\<open>startWorker\<close> with its last \<^verbatim>\<open>if\<close>; the same holds of its
    \<open>processMessage\<close>;
  \<^item> \<^verbatim>\<open>kill\<close> with \<^verbatim>\<open>processMessage(res, localErrForStack); this.worker.terminate()\<close>.
\<close>

fun continue :: "platform \<Rightarrow> op \<Rightarrow> reply \<Rightarrow> vthread \<Rightarrow> vthread" where
  "continue E (OpExec p st) r s =
     (case processMessage E r st of
        Inl e \<Rightarrow> escape e s
      | Inr v \<Rightarrow> resolve p v s)"
| "continue E (OpInit p st) r s =
     (if workerState s = Killed
      then settle_init p (Rejected (Error ''This worker has been killed. Use 'VThread.start' to start one from scratch'')) s
      else (case processMessage E r st of
              Inl e \<Rightarrow> escape e (s\<lparr>workerState := Ready\<rparr>)
            | Inr v \<Rightarrow> settle_init p (Fulfilled v) (s\<lparr>workerState := Ready\<rparr>)))"
| "continue E (OpKill p st) r s =
     (case processMessage E r st of
        Inl e \<Rightarrow> reject p e s
      | Inr v \<Rightarrow> resolve p VUndefined (s\<lparr>terminated := True\<rparr>))"
| "continue E OpDone r s = s"

text \<open>
  A message arrives on port 1 of channel \<open>c\<close>. The handler of \<^verbatim>\<open>pingWorker\<close> moves
  a worker that is still loading to \<open>Listening\<close> and resolves the ping. The handler of
  \<^verbatim>\<open>delegateMessage\<close> resolves its promise and lowers the counter.
\<close>

definition port_message :: "platform \<Rightarrow> nat \<Rightarrow> reply \<Rightarrow> vthread \<Rightarrow> vthread" where
  "port_message E c r s =
     (if c \<in> set (pingChannels s) then
        (let s1 = (if workerState s \<noteq> Killed \<and> rank (workerState s) < rank Listening
                   then s\<lparr>workerState := Listening\<rparr> else s)
         in if pingAwaited s1
            then (case workerInitPromise s1 of
                    None \<Rightarrow> s1\<lparr>pingAwaited := False\<rparr>
                  | Some p \<Rightarrow> after_ping E p (s1\<lparr>pingAwaited := False\<rparr>))
            else s1)
      else (case flight s c of
              None \<Rightarrow> s
            | Some w \<Rightarrow>
                continue E w r
                  (s\<lparr>flight := (flight s)(c \<mapsto> OpDone),
                     pendingTransactionCount := pendingTransactionCount s - 1\<rparr>)))"

text \<open>
  The timer of a ping fires: while the worker is still loading, the old handler is
  removed and the ping promise is resolved with a new \<^verbatim>\<open>pingWorker()\<close>.
\<close>

definition timeout :: "platform \<Rightarrow> nat \<Rightarrow> vthread \<Rightarrow> vthread" where
  "timeout E c s =
     (if c \<in> set (timers s) then
        (let s1 = s\<lparr>timers := removeAll c (timers s)\<rparr> in
         if rank (workerState s1) < rank Listening
         then (case pingWorker (s1\<lparr>pingChannels := removeAll c (pingChannels s1)\<rparr>) of
                 (PingPending, s2) \<Rightarrow> s2
               | (PingThrew e, s2) \<Rightarrow>
                   (if pingAwaited s2 then escape e (s2\<lparr>pingAwaited := False\<rparr>) else s2)
               | (PingResolved, s2) \<Rightarrow>
                   (if pingAwaited s2
                    then (case workerInitPromise s2 of
                            None \<Rightarrow> s2\<lparr>pingAwaited := False\<rparr>
                          | Some p \<Rightarrow> after_ping E p (s2\<lparr>pingAwaited := False\<rparr>))
                    else s2))
         else s1)
      else s)"

subsection \<open>Messages of the worker\<close>

text \<open>\<^verbatim>\<open>handleWorkerMessage\<close>\<close>

definition handleWorkerMessage :: "platform \<Rightarrow> jsval \<Rightarrow> nat list \<Rightarrow> vthread \<Rightarrow> vthread" where
  "handleWorkerMessage E data ports s =
     (case get_prop E data ''type'' of
        Inl e \<Rightarrow> escape e s
      | Inr ty \<Rightarrow>
          if typeof ty = ''string'' then
            (if ty = VStr tag_exec_parent
             then exec_request E ''Host.'' (host s)
                    (field E data ''fnChain'') (field E data ''args'')
                    (case ports of [] \<Rightarrow> None | c # cs \<Rightarrow> Some c) s
             else s)
          else s)"

text \<open>A promise of the host's code settles: the execution requests awaiting it reply.\<close>

fun resume_host :: "platform \<Rightarrow> cont \<Rightarrow> thrown + jsval \<Rightarrow> vthread \<Rightarrow> vthread" where
  "resume_host E KBoot r s = s"
| "resume_host E (KExec port) r s = exec_done E port r s"

definition settle_host :: "platform \<Rightarrow> nat \<Rightarrow> thrown + jsval \<Rightarrow> vthread \<Rightarrow> vthread" where
  "settle_host E p r s =
     foldl (\<lambda>t k. resume_host E k r t)
       (s\<lparr>awaits := filter (\<lambda>(q, k). q \<noteq> p) (awaits s)\<rparr>)
       (map snd (filter (\<lambda>(q, k). q = p) (awaits s)))"

subsection \<open>The main thread as a machine\<close>

text \<open>
  The constructor: the fields are set, the proxy is made (it is object 0 of this
  \<^verbatim>\<open>VThread\<close>), the worker is spawned (by
  \<^verbatim>\<open>new Worker\<close> or by the hook given to \<^verbatim>\<open>VThread.use\<close>, which is not modelled) and
  \<^verbatim>\<open>startWorker()\<close> is called. \<open>reg\<close> is the registry of the main thread at that time.
\<close>

definition vthread_new :: "platform \<Rightarrow> jsval \<Rightarrow> jsval \<Rightarrow> registry \<Rightarrow> vthread" where
  "vthread_new E options h reg =
     snd (startWorker E
       \<lparr>wiredTransferables = reg, replies = [], awaits = [], calls = [], uncaught = [],
        promises = Map.empty, fresh = 0,
        workerState = Loading, workerInitOptions = options, host = h,
        workerInitPromise = None, pendingTransactionCount = 0,
        queuedWorkerFnChain = [], posted = [], flight = Map.empty, waiting = [],
        resuming = [], pingAwaited = False, pingChannels = [], timers = [],
        terminated = False, proxy = 0\<rparr>)"

text \<open>
  What happens in the main thread: the user's code reads a property of the proxy, calls
  it, calls \<^verbatim>\<open>kill\<close> or marks a value; a suspended call goes on; a message arrives on
  a reply channel; a ping timer fires; the worker posts a message; a promise of the
  host's code settles.
\<close>

datatype mevent =
    WorkerGet string
  | WorkerApply "jsval list" "frame list"
  | Kill jsval jsval "frame list"
  | Resume nat
  | MarkInMain jsval "jsval list"
  | PortMessage nat reply
  | Timeout nat
  | FromWorker jsval "nat list"
  | HostSettle nat "thrown + jsval"

definition mstep :: "platform \<Rightarrow> vthread \<Rightarrow> mevent \<Rightarrow> vthread" where
  "mstep E s ev =
     (case ev of
        WorkerGet p \<Rightarrow> snd (worker_get p s)
      | WorkerApply args st \<Rightarrow> snd (worker_apply E args st s)
      | Kill lastWords graceful st \<Rightarrow> snd (kill E lastWords graceful st s)
      | Resume k \<Rightarrow> resume_nth k s
      | MarkInMain v bufs \<Rightarrow>
          s\<lparr>wiredTransferables := snd (markAsVTransferable v bufs (wiredTransferables s))\<rparr>
      | PortMessage c r \<Rightarrow> port_message E c r s
      | Timeout c \<Rightarrow> timeout E c s
      | FromWorker data ports \<Rightarrow> handleWorkerMessage E data ports s
      | HostSettle p r \<Rightarrow> settle_host E p r s)"

definition mrun :: "platform \<Rightarrow> vthread \<Rightarrow> mevent list \<Rightarrow> vthread" where
  "mrun E s evs = foldl (mstep E) s evs"

section \<open>Notions the claims are stated with\<close>

text \<open>
  C6's words for the resolution of a call chain: walk the chain step by step from the
  current value; at a step where the current value's property is undefined, take that
  property of the root surface object instead.
\<close>

fun walk :: "platform \<Rightarrow> jsval \<Rightarrow> jsval \<Rightarrow> string list \<Rightarrow> jserr + jsval" where
  "walk E root cur [] = Inr cur"
| "walk E root cur (p # ps) =
     (case get_prop E cur p of
        Inl e \<Rightarrow> Inl e
      | Inr v \<Rightarrow>
          if v = VUndefined
          then (case get_prop E root p of Inl e \<Rightarrow> Inl e | Inr v' \<Rightarrow> walk E root v' ps)
          else walk E root v ps)"

text \<open>The transfer list a reply carries for its return value.\<close>

definition transfer_of :: "registry \<Rightarrow> jsval \<Rightarrow> titem list" where
  "transfer_of reg v = (case wm_get reg v of None \<Rightarrow> [] | Some bs \<Rightarrow> map Item bs)"

text \<open>
  C10's words: the data lacks a string-valued \<^verbatim>\<open>type\<close> field (reading it throws, or
  gives something that is not a string), or its type is none of the tags the peer
  recognises.
\<close>

definition unrecognised :: "platform \<Rightarrow> string list \<Rightarrow> jsval \<Rightarrow> bool" where
  "unrecognised E tags data =
     (case get_prop E data ''type'' of
        Inl e \<Rightarrow> True
      | Inr ty \<Rightarrow> typeof ty \<noteq> ''string'' \<or> ty \<notin> VStr ` set tags)"

text \<open>The tag of a message posted to the worker, and the messages of the handshake.\<close>

definition msg_tag :: "jsval \<Rightarrow> string option" where
  "msg_tag data =
     (case data of
        VObject i ps \<Rightarrow> (case map_of ps ''type'' of Some (VStr t) \<Rightarrow> Some t | _ \<Rightarrow> None)
      | _ \<Rightarrow> None)"

definition is_ping :: "jsval \<times> titem list \<Rightarrow> bool" where
  "is_ping m = (msg_tag (fst m) = Some tag_ping)"

definition is_init :: "jsval \<times> titem list \<Rightarrow> bool" where
  "is_init m = (msg_tag (fst m) = Some tag_init)"

definition is_exec :: "jsval \<times> titem list \<Rightarrow> bool" where
  "is_exec m = (msg_tag (fst m) = Some tag_exec_child)"

text \<open>
  What holds of a \<^verbatim>\<open>VThread\<close> at every moment of its life (the proof of C8 rests on
  it): the connect promise is promise 0; while the executor of \<^verbatim>\<open>startWorker\<close> still
  awaits the ping, the worker is \<open>Loading\<close> and only pings have been posted; afterwards
  the init message has been posted exactly once, and only pings before it; the connect
  promise is pending as long as the worker is \<open>Loading\<close> or \<open>Listening\<close>; nothing
  but the executor of \<^verbatim>\<open>startWorker\<close> holds promise 0; and a call is suspended after
  an \<^verbatim>\<open>ensureWorkerReady()\<close> that has returned only once the worker has been ready.
\<close>

fun op_ok :: "op \<Rightarrow> bool" where
  "op_ok (OpExec p st) = (p \<noteq> 0)"
| "op_ok (OpInit p st) = (p = 0)"
| "op_ok (OpKill p st) = (p \<noteq> 0)"
| "op_ok OpDone = True"

fun waiter_ok :: "waiter \<Rightarrow> bool" where
  "waiter_ok (WCall c payload transferables) = (msg_tag payload \<noteq> Some tag_init)"
| "waiter_ok (WKill p lastWords graceful st) = (p \<noteq> 0)"

definition connect_inv :: "vthread \<Rightarrow> bool" where
  "connect_inv s \<longleftrightarrow>
     workerInitPromise s = Some 0 \<and> 0 < fresh s
     \<and> posted s \<noteq> [] \<and> is_ping (hd (posted s))
     \<and> (if pingAwaited s
         then workerState s = Loading \<and> list_all is_ping (posted s)
              \<and> (\<forall>c p st. flight s c \<noteq> Some (OpInit p st))
         else workerState s \<noteq> Loading \<and> length (filter is_init (posted s)) = 1
              \<and> list_all is_ping (takeWhile (\<lambda>m. \<not> is_init m) (posted s)))
     \<and> (workerState s = Loading \<or> workerState s = Listening \<longrightarrow> promises s 0 = Some Pending)
     \<and> (\<forall>c w. flight s c = Some w \<longrightarrow> op_ok w)
     \<and> (\<forall>w\<in>set (waiting s). waiter_ok w)
     \<and> (\<forall>w\<in>set (resuming s). waiter_ok w)
     \<and> (resuming s \<noteq> [] \<longrightarrow> workerState s = Ready \<or> workerState s = Killed)"

text \<open>
  Words for what the termination listeners do (C7): \<open>called E n cbs args\<close> is what the
  listeners \<open>cbs\<close> give when they are called one after the other with \<open>args\<close>, the first
  of them being the \<open>n\<close>-th call the library makes, and the calling stops after the first
  that throws (a listener that is not a function throws a TypeError when called);
  \<open>first_throw\<close> is what the listener that threw has thrown, \<open>awaited\<close> the promises
  the listeners returned, \<open>logged\<close> the calls so made that reached a function.
\<close>

fun called :: "platform \<Rightarrow> nat \<Rightarrow> jsval list \<Rightarrow> jsval list \<Rightarrow> call_result list" where
  "called E n [] args = []"
| "called E n (VFunction k # cbs) args =
     (case call_fn E n k VUndefined args of
        Threw t \<Rightarrow> [Threw t]
      | Returned v \<Rightarrow> Returned v # called E (Suc n) cbs args
      | Async p \<Rightarrow> Async p # called E (Suc n) cbs args)"
| "called E n (cb # cbs) args =
     [Threw (Err (TypeError (to_string E cb @ '' is not a function'')))]"

fun first_throw :: "call_result list \<Rightarrow> thrown option" where
  "first_throw [] = None"
| "first_throw (Threw t # rs) = Some t"
| "first_throw (r # rs) = first_throw rs"

fun awaited :: "call_result list \<Rightarrow> nat list" where
  "awaited [] = []"
| "awaited (Async p # rs) = p # awaited rs"
| "awaited (r # rs) = awaited rs"

definition logged ::
  "call_result list \<Rightarrow> jsval list \<Rightarrow> jsval list \<Rightarrow> (jsval \<times> jsval \<times> jsval list) list" where
  "logged rs cbs args =
     map (\<lambda>cb. (cb, VUndefined, args))
       (filter (\<lambda>cb. typeof cb = ''function'') (take (length rs) cbs))"

subsection \<open>A concrete platform and surface, for the examples\<close>

text \<open>
  Function 10 is \<^verbatim>\<open>(a, b) => a + b\<close>, function 11 throws
  \<^verbatim>\<open>new RangeError("bad")\<close>, function 12 is a provider callback that returns the
  surface \<^verbatim>\<open>{math: {add: (a, b) => a + b}, fail: ..., frame: ...}\<close>, function 20
  returns the object 60 each time it is called, functions 30 and 31 are listeners that
  return the promises 100 and 101.
\<close>

definition example_error :: jserr where
  "example_error =
     \<lparr>ector = ''RangeError'', ename = ''RangeError'', emessage = ''bad'',
      eframes = [\<lparr>functionName = Some ''fail'', source = ''at fail (worker.js:3)''\<rparr>],
      eprops = [(''code'', VNum 7)]\<rparr>"

definition example_surface :: jsval where
  "example_surface =
     VObject 50 [(''math'', VObject 51 [(''add'', VFunction 10)]),
                 (''fail'', VFunction 11),
                 (''frame'', VFunction 20)]"

definition example_platform :: platform where
  "example_platform =
     \<lparr>inherited = (\<lambda>v p. VUndefined), to_string = (\<lambda>v. ''value''), array_like = (\<lambda>v. []),
      call_fn = (\<lambda>n f this args.
         if f = 10 then (case args of
                           [VNum a, VNum b] \<Rightarrow> Returned (VNum (a + b))
                         | _ \<Rightarrow> Returned VUndefined)
         else if f = 11 then Threw (Err example_error)
         else if f = 12 then Returned example_surface
         else if f = 20 then Returned (VObject 60 [])
         else if f = 30 then Async 100
         else if f = 31 then Async 101
         else Returned VUndefined),
      self_has = (\<lambda>n. n = ''RangeError''),
      startWorker_stack = [],
      parse_error = (\<lambda>v. Error ''Cannot parse given Error object''),
      window_defined = False, document_defined = False, importScripts_defined = True\<rparr>"

text \<open>
  A main thread whose worker has answered the ping (on channel 1) and the init message
  (on channel 2), and the frames of a caller.
\<close>

definition example_ready :: vthread where
  "example_ready =
     mrun example_platform (vthread_new example_platform VUndefined VUndefined Map.empty)
       [PortMessage 1 \<lparr>err = None, ret = VBool True\<rparr>,
        PortMessage 2 \<lparr>err = None, ret = VUndefined\<rparr>]"

definition example_stack :: "frame list" where
  "example_stack = [\<lparr>functionName = Some ''main'', source = ''at main (main.js:9)''\<rparr>]"

text \<open>
  The same main thread after \<^verbatim>\<open>kill()\<close>, which goes on after its \<^verbatim>\<open>await\<close>, and
  the worker's reply to it (on channel 4).
\<close>

definition example_killed :: vthread where
  "example_killed =
     mrun example_platform example_ready
       [Kill VUndefined (VBool True) example_stack,
        Resume 0,
        PortMessage 4 \<lparr>err = None, ret = VUndefined\<rparr>]"

text \<open>
  A call of \<^verbatim>\<open>proxy.fail()\<close> whose reply carries the envelope of the error thrown
  in the worker; and a call of \<^verbatim>\<open>proxy.math.add(2, 3)\<close> made after the kill.
\<close>

definition example_failed_call :: vthread where
  "example_failed_call =
     mrun example_platform example_ready
       [WorkerGet ''fail'',
        WorkerApply [] example_stack,
        Resume 0,
        PortMessage 4 \<lparr>err = Some (serializeError example_error), ret = VUndefined\<rparr>]"

definition example_call_after_kill :: vthread where
  "example_call_after_kill =
     mrun example_platform example_killed
       [WorkerGet ''math'', WorkerGet ''add'', WorkerApply [VNum 2, VNum 3] example_stack]"

text \<open>
  A main thread whose worker has not answered yet, after \<^verbatim>\<open>proxy.math.add(2, 3)\<close> and
  \<^verbatim>\<open>proxy.fail()\<close>.
\<close>

definition example_connecting :: vthread where
  "example_connecting =
     mrun example_platform (vthread_new example_platform VUndefined VUndefined Map.empty)
       [WorkerGet ''math'', WorkerGet ''add'', WorkerApply [VNum 2, VNum 3] example_stack,
        WorkerGet ''fail'', WorkerApply [] example_stack]"

definition example_worker :: vthreadable where
  "example_worker =
     vthreadable_init\<lparr>providerCallback := VFunction 12, connectedProvider := example_surface\<rparr>"

text \<open>
  A worker with two termination listeners (functions 30 and 31); the same worker after
  the message of a graceful \<^verbatim>\<open>kill("bye")\<close> has come with port 7; and after the promise
  of the first listener has rejected, the promise of the second being still pending.
\<close>

definition example_listening :: vthreadable where
  "example_listening =
     prun example_platform example_worker
       [OnWillTerminate (VFunction 30), OnWillTerminate (VFunction 31)]"

definition example_graceful :: vthreadable where
  "example_graceful =
     pstep example_platform example_listening
       (FromParent (terminate_msg (VBool True) (VStr ''bye'')) [7])"

definition example_rejected :: vthreadable where
  "example_rejected =
     pstep example_platform example_graceful (Settle 100 (Inl (Err example_error)))"

text \<open>
  A worker whose first listener throws (function 11), after the message of
  \<^verbatim>\<open>kill("bye", false)\<close>.
\<close>

definition example_throwing :: vthreadable where
  "example_throwing =
     prun example_platform example_worker
       [OnWillTerminate (VFunction 11), OnWillTerminate (VFunction 30),
        FromParent (terminate_msg (VBool False) (VStr ''bye'')) [7]]"



text \<open>
  An object marked with its buffer, \<^verbatim>\<open>markAsVTransferable(image, image.pixels)\<close>, and
  passed to \<^verbatim>\<open>proxy.draw(image)\<close> in a main thread whose worker is ready (the call
  goes on after its \<^verbatim>\<open>await\<close>).
\<close>

definition example_image :: jsval where
  "example_image = VObject 70 [(''pixels'', VArrayBuffer 71)]"

definition example_marked_call :: vthread where
  "example_marked_call =
     mrun example_platform example_ready
       [MarkInMain example_image [VArrayBuffer 71],
        WorkerGet ''draw'',
        WorkerApply [example_image] example_stack,
        Resume 0]"

text \<open>
  A worker that has registered its callback and received the init message of a main
  thread that has a host; the same object marked there and passed to the parent proxy,
  \<^verbatim>\<open>host.show(image)\<close>.
\<close>

definition example_booted :: vthreadable where
  "example_booted =
     prun example_platform vthreadable_init
       [OnStart (VFunction 12), FromParent (init_msg True VUndefined) [2]]"

definition example_parent_call :: vthreadable where
  "example_parent_call =
     prun example_platform example_booted
       [MarkInWorker example_image [VArrayBuffer 71],
        ParentGet ''show'',
        ParentApply [example_image] example_stack]"

section \<open>What the shared operations leave alone\<close>

lemma worker_fields:
  assumes "peer.more s = peer.more t"
  shows "providerCallback s = providerCallback t" "initOptions s = initOptions t"
    "initStatusResponsePort s = initStatusResponsePort t"
    "connectedProvider s = connectedProvider t" "listeners s = listeners t"
    "parentProxy s = parentProxy t" "parentQueuedFnChain s = parentQueuedFnChain t"
    "toParent s = toParent t" "closed s = closed t" "joins s = joins t"
    "pflight s = pflight t"
  using assms by (simp_all add: vthreadable.select_defs peer.select_defs)

lemma main_fields:
  assumes "peer.more s = peer.more t"
  shows "workerState s = workerState t" "workerInitOptions s = workerInitOptions t"
    "host s = host t" "workerInitPromise s = workerInitPromise t"
    "pendingTransactionCount s = pendingTransactionCount t"
    "queuedWorkerFnChain s = queuedWorkerFnChain t" "posted s = posted t"
    "flight s = flight t" "waiting s = waiting t" "pingAwaited s = pingAwaited t"
    "pingChannels s = pingChannels t" "timers s = timers t" "terminated s = terminated t"
    "resuming s = resuming t" "proxy s = proxy t"
  using assms by (simp_all add: vthread.select_defs peer.select_defs)

lemma escape_frame [simp]:
  "peer.more (escape e s) = peer.more s"
  "wiredTransferables (escape e s) = wiredTransferables s"
  "replies (escape e s) = replies s"
  "awaits (escape e s) = awaits s"
  "calls (escape e s) = calls s"
  "promises (escape e s) = promises s"
  "fresh (escape e s) = fresh s"
  "uncaught (escape e s) = uncaught s @ [e]"
  by (simp_all add: escape_def)

lemma resolve_frame [simp]:
  "peer.more (resolve p v s) = peer.more s"
  "wiredTransferables (resolve p v s) = wiredTransferables s"
  "replies (resolve p v s) = replies s"
  "awaits (resolve p v s) = awaits s"
  "calls (resolve p v s) = calls s"
  "fresh (resolve p v s) = fresh s"
  "uncaught (resolve p v s) = uncaught s"
  by (simp_all add: resolve_def)

lemma reject_frame [simp]:
  "peer.more (reject p e s) = peer.more s"
  "wiredTransferables (reject p e s) = wiredTransferables s"
  "replies (reject p e s) = replies s"
  "awaits (reject p e s) = awaits s"
  "calls (reject p e s) = calls s"
  "fresh (reject p e s) = fresh s"
  "uncaught (reject p e s) = uncaught s"
  by (simp_all add: reject_def)

lemma reply_on_frame [simp]:
  "peer.more (snd (reply_on port r tr s)) = peer.more s"
  "wiredTransferables (snd (reply_on port r tr s)) = wiredTransferables s"
  "awaits (snd (reply_on port r tr s)) = awaits s"
  "calls (snd (reply_on port r tr s)) = calls s"
  "promises (snd (reply_on port r tr s)) = promises s"
  "fresh (snd (reply_on port r tr s)) = fresh s"
  "uncaught (snd (reply_on port r tr s)) = uncaught s"
  by (simp_all add: reply_on_def Let_def split: option.splits)

lemma or_escape_frame [simp]:
  "peer.more (or_escape x) = peer.more (snd x)"
  "wiredTransferables (or_escape x) = wiredTransferables (snd x)"
  "awaits (or_escape x) = awaits (snd x)"
  "calls (or_escape x) = calls (snd x)"
  "promises (or_escape x) = promises (snd x)"
  "fresh (or_escape x) = fresh (snd x)"
  "replies (or_escape x) = replies (snd x)"
  by (cases x; simp add: or_escape_def split: option.splits)+

lemma invoke_frame [simp]:
  "peer.more (snd (invoke E f this args s)) = peer.more s"
  "wiredTransferables (snd (invoke E f this args s)) = wiredTransferables s"
  "awaits (snd (invoke E f this args s)) = awaits s"
  "replies (snd (invoke E f this args s)) = replies s"
  "promises (snd (invoke E f this args s)) = promises s"
  "fresh (snd (invoke E f this args s)) = fresh s"
  "uncaught (snd (invoke E f this args s)) = uncaught s"
  by (simp_all add: invoke_def split: jsval.splits)

lemma exec_done_frame [simp]:
  "peer.more (exec_done E port r s) = peer.more s"
  "wiredTransferables (exec_done E port r s) = wiredTransferables s"
  "awaits (exec_done E port r s) = awaits s"
  "calls (exec_done E port r s) = calls s"
  "promises (exec_done E port r s) = promises s"
  "fresh (exec_done E port r s) = fresh s"
  by (simp_all add: exec_done_def split: sum.splits)

lemma invoke_rule:
  "invoke E f this args s = (r, t) \<Longrightarrow>
     peer.more t = peer.more s \<and> wiredTransferables t = wiredTransferables s
     \<and> awaits t = awaits s \<and> replies t = replies s \<and> promises t = promises s
     \<and> fresh t = fresh s \<and> uncaught t = uncaught s"
  by (auto simp add: invoke_def split: jsval.splits)

lemma exec_request_frame [simp]:
  "peer.more (exec_request E label root fnChain args port s) = peer.more s"
  "wiredTransferables (exec_request E label root fnChain args port s) = wiredTransferables s"
  "promises (exec_request E label root fnChain args port s) = promises s"
  "fresh (exec_request E label root fnChain args port s) = fresh s"
  by (auto simp add: exec_request_def split: sum.splits call_result.splits prod.splits
        dest: invoke_rule)

lemma dispatch_rule:
  "dispatch E cbs args s = (x, t) \<Longrightarrow>
     peer.more t = peer.more s \<and> replies t = replies s
     \<and> wiredTransferables t = wiredTransferables s"
proof (induction cbs arbitrary: s)
  case Nil
  then show ?case by simp
next
  case (Cons cb cbs)
  obtain r u where i: "invoke E cb VUndefined args s = (r, u)"
    by (cases "invoke E cb VUndefined args s")
  note u = invoke_rule [OF i]
  show ?case
  proof (cases r)
    case (Threw e)
    with Cons.prems i u show ?thesis by simp
  next
    case (Returned v)
    with Cons.prems i have "dispatch E cbs args u = (x, t)" by simp
    from Cons.IH [OF this] u show ?thesis by simp
  next
    case (Async p)
    with Cons.prems i have "dispatch E cbs args u = (x, t)" by simp
    from Cons.IH [OF this] u show ?thesis by simp
  qed
qed

lemma pDispatch_map_rule:
  "pDispatch_map E cbs args s = (x, t) \<Longrightarrow>
     peer.more t = peer.more s \<and> replies t = replies s
     \<and> wiredTransferables t = wiredTransferables s"
proof (induction cbs arbitrary: s x)
  case Nil
  then show ?case by simp
next
  case (Cons cb cbs)
  obtain r u where i: "invoke E cb VUndefined args s = (r, u)"
    by (cases "invoke E cb VUndefined args s")
  note u = invoke_rule [OF i]
  show ?case
  proof (cases r)
    case (Threw e)
    with Cons.prems i u show ?thesis by simp
  next
    case (Returned v)
    with Cons.prems i have "pDispatch_map E cbs args u = (x, t)" by simp
    from Cons.IH [OF this] u show ?thesis by simp
  next
    case (Async p)
    obtain y w where m: "pDispatch_map E cbs args u = (y, w)"
      by (cases "pDispatch_map E cbs args u")
    with Cons.prems i Async have "w = t" by (simp split: sum.splits)
    with m have "pDispatch_map E cbs args u = (y, t)" by simp
    from Cons.IH [OF this] u show ?thesis by simp
  qed
qed

section \<open>The registered callback stays\<close>

lemma dispatch_frame [simp]:
  "peer.more (snd (dispatch E cbs args s)) = peer.more s"
  "replies (snd (dispatch E cbs args s)) = replies s"
  "wiredTransferables (snd (dispatch E cbs args s)) = wiredTransferables s"
  using dispatch_rule [of E cbs args s "fst (dispatch E cbs args s)" "snd (dispatch E cbs args s)"]
  by simp_all

lemma pDispatch_map_frame [simp]:
  "peer.more (snd (pDispatch_map E cbs args s)) = peer.more s"
  "replies (snd (pDispatch_map E cbs args s)) = replies s"
  "wiredTransferables (snd (pDispatch_map E cbs args s)) = wiredTransferables s"
  using pDispatch_map_rule [of E cbs args s "fst (pDispatch_map E cbs args s)"
          "snd (pDispatch_map E cbs args s)"]
  by simp_all

lemmas escape_worker [simp] = worker_fields [OF escape_frame(1)]
lemmas resolve_worker [simp] = worker_fields [OF resolve_frame(1)]
lemmas reject_worker [simp] = worker_fields [OF reject_frame(1)]
lemmas reply_on_worker [simp] = worker_fields [OF reply_on_frame(1)]
lemmas or_escape_worker [simp] = worker_fields [OF or_escape_frame(1)]
lemmas invoke_worker [simp] = worker_fields [OF invoke_frame(1)]
lemmas exec_done_worker [simp] = worker_fields [OF exec_done_frame(1)]
lemmas exec_request_worker [simp] = worker_fields [OF exec_request_frame(1)]
lemmas dispatch_worker [simp] = worker_fields [OF dispatch_frame(1)]
lemmas pDispatch_map_worker [simp] = worker_fields [OF pDispatch_map_frame(1)]

lemma cb_boot_done [simp]: "providerCallback (boot_done E r s) = providerCallback s"
  by (simp add: boot_done_def split: sum.splits)

lemma cb_tryBootup [simp]: "providerCallback (tryBootup E s) = providerCallback s"
  by (simp add: tryBootup_def case_prod_beta split: call_result.splits)

lemma cb_term_done [simp]: "providerCallback (term_done port e s) = providerCallback s"
  by (simp add: term_done_def case_prod_beta split: option.splits)

lemma cb_term_catch [simp]: "providerCallback (term_catch E port t s) = providerCallback s"
  by (simp add: term_catch_def split: sum.splits)

lemma cb_terminate_request [simp]:
  "providerCallback (terminate_request E options port s) = providerCallback s"
  by (simp add: terminate_request_def case_prod_beta split: sum.splits option.splits)

lemma cb_init_request [simp]:
  "providerCallback (init_request E data port s) = providerCallback s"
  by (simp add: init_request_def Let_def case_prod_beta split: option.splits)

lemma cb_handle [simp]:
  "providerCallback (handleMessageFromParent E data ports s) = providerCallback s"
  by (simp add: handleMessageFromParent_def Let_def split: sum.splits)

lemma cb_parent_apply [simp]:
  "providerCallback (snd (parent_apply args st s)) = providerCallback s"
  by (simp add: parent_apply_def Let_def case_prod_beta)

lemma cb_parent_reply [simp]:
  "providerCallback (parent_reply E c r s) = providerCallback s"
  by (simp add: parent_reply_def Let_def case_prod_beta split: option.splits sum.splits)

lemma cb_resume [simp]: "providerCallback (resume E k r s) = providerCallback s"
  by (cases k) simp_all

lemma cb_foldl_resume:
  "providerCallback (foldl (\<lambda>t k. resume E k r t) s ks) = providerCallback s"
  by (induction ks arbitrary: s) simp_all

lemma cb_settle_awaits [simp]:
  "providerCallback (settle_awaits E p r s) = providerCallback s"
  by (simp add: settle_awaits_def cb_foldl_resume)

lemma cb_join_one [simp]: "providerCallback (join_one E p r j s) = providerCallback s"
  by (simp add: join_one_def split: prod.splits sum.splits)

lemma cb_foldl_join:
  "providerCallback (foldl (\<lambda>t j. join_one E p r j t) s js) = providerCallback s"
  by (induction js arbitrary: s) simp_all

lemma cb_settle_joins [simp]:
  "providerCallback (settle_joins E p r s) = providerCallback s"
  by (simp add: settle_joins_def cb_foldl_join)

lemma onStart_registered:
  "typeof (providerCallback s) = ''function'' \<Longrightarrow> snd (onStart E cb s) = s"
  by (simp add: onStart_def)

lemma cb_pstep:
  "typeof (providerCallback s) = ''function'' \<Longrightarrow>
   providerCallback (pstep E s ev) = providerCallback s"
  by (cases ev) (simp_all add: pstep_def parent_get_def onStart_registered)

lemma cb_prun:
  "typeof (providerCallback s) = ''function'' \<Longrightarrow>
   providerCallback (prun E s evs) = providerCallback s"
  unfolding prun_def
  by (induction evs arbitrary: s) (simp_all add: cb_pstep)

section \<open>Registering the exported surface twice\<close>

text \<open>
  C9: once a call of \<open>onStart\<close> has registered a callback, then whatever happens in
  the worker afterwards, another call of \<open>onStart\<close> throws (a TypeError, at once: the
  call returns no promise), and leaves the whole state of the worker as it was: no
  message is posted on any port or to the parent, and the callback registered first is
  still the one registered.
\<close>

theorem C9_second_registration:
  assumes "fst (onStart E cb0 s0) = None"
  shows "let s = prun E (snd (onStart E cb0 s0)) evs in
           onStart E cb s =
             (Some (TypeError ''Looks like a callback has already been registered before, on one callback per Worker thread is allowed''), s)
           \<and> providerCallback s = cb0"
proof -
  from assms have ctx: "\<not> (window_defined E \<or> document_defined E \<or> \<not> importScripts_defined E)"
    and fn: "typeof cb0 = ''function''"
    and st: "snd (onStart E cb0 s0) = tryBootup E (s0\<lparr>providerCallback := cb0\<rparr>)"
    by (auto simp add: onStart_def split: if_splits)
  have "providerCallback (snd (onStart E cb0 s0)) = cb0"
    by (simp add: st)
  with fn have "providerCallback (prun E (snd (onStart E cb0 s0)) evs) = cb0"
    by (simp add: cb_prun)
  with ctx fn show ?thesis
    by (simp add: onStart_def Let_def)
qed

theorem C9_second_registration_witness:
  "fst (onStart example_platform (VFunction 12) vthreadable_init) = None
   \<and> (let s = prun example_platform (snd (onStart example_platform (VFunction 12) vthreadable_init))
                [FromParent ping_msg [1]]
      in fst (onStart example_platform (VFunction 13) s) \<noteq> None
         \<and> snd (onStart example_platform (VFunction 13) s) = s
         \<and> providerCallback s = VFunction 12
         \<and> replies s = [(1, \<lparr>err = None, ret = VBool True\<rparr>, [])])"
proof -
  have h: "fst (onStart example_platform (VFunction 12) vthreadable_init) = None"
    by (simp add: onStart_def example_platform_def vthreadable_init_def)
  have r: "replies (prun example_platform (snd (onStart example_platform (VFunction 12) vthreadable_init))
                [FromParent ping_msg [1]]) = [(1, \<lparr>err = None, ret = VBool True\<rparr>, [])]"
    by (simp add: prun_def pstep_def onStart_def example_platform_def vthreadable_init_def
          tryBootup_def handleMessageFromParent_def ping_msg_def get_prop_def reply_on_def
          or_escape_def)
  show ?thesis
    using h r C9_second_registration [OF h, of "[FromParent ping_msg [1]]" "VFunction 13"]
    by (simp add: Let_def)
qed

section \<open>Messages no handler recognises\<close>

text \<open>
  C10: when the data of a message lacks a string-valued \<^verbatim>\<open>type\<close>, or its type is
  none of the tags the peer recognises, the handler of the worker and the handler of the
  main thread post nothing and change nothing. One thing is recorded in the model: when
  the data is \<^verbatim>\<open>undefined\<close> or \<^verbatim>\<open>null\<close>, reading its \<^verbatim>\<open>type\<close> throws, and the
  error leaves the handler uncaught; otherwise the state after is the state before.
\<close>

theorem C10_unrecognised_message:
  "(unrecognised E [tag_ping, tag_init, tag_exec_child, tag_terminate] data \<longrightarrow>
      handleMessageFromParent E data ports s =
        (case get_prop E data ''type'' of Inl e \<Rightarrow> escape e s | Inr ty \<Rightarrow> s)
      \<and> replies (handleMessageFromParent E data ports s) = replies s
      \<and> toParent (handleMessageFromParent E data ports s) = toParent s
      \<and> handleMessageFromParent E data ports s =
            s\<lparr>uncaught := uncaught (handleMessageFromParent E data ports s)\<rparr>
      \<and> (data \<noteq> VUndefined \<and> data \<noteq> VNull \<longrightarrow> handleMessageFromParent E data ports s = s))
   \<and> (unrecognised E [tag_exec_parent] data \<longrightarrow>
      handleWorkerMessage E data ports m =
        (case get_prop E data ''type'' of Inl e \<Rightarrow> escape e m | Inr ty \<Rightarrow> m)
      \<and> replies (handleWorkerMessage E data ports m) = replies m
      \<and> posted (handleWorkerMessage E data ports m) = posted m
      \<and> handleWorkerMessage E data ports m =
            m\<lparr>uncaught := uncaught (handleWorkerMessage E data ports m)\<rparr>
      \<and> (data \<noteq> VUndefined \<and> data \<noteq> VNull \<longrightarrow> handleWorkerMessage E data ports m = m))"
proof (intro conjI impI)
  assume u: "unrecognised E [tag_ping, tag_init, tag_exec_child, tag_terminate] data"
  show w: "handleMessageFromParent E data ports s =
        (case get_prop E data ''type'' of Inl e \<Rightarrow> escape e s | Inr ty \<Rightarrow> s)"
    using u by (auto simp add: unrecognised_def handleMessageFromParent_def split: sum.splits)
  show "replies (handleMessageFromParent E data ports s) = replies s"
    by (simp add: w split: sum.splits)
  show "toParent (handleMessageFromParent E data ports s) = toParent s"
    by (simp add: w split: sum.splits)
  show "handleMessageFromParent E data ports s =
            s\<lparr>uncaught := uncaught (handleMessageFromParent E data ports s)\<rparr>"
    by (simp add: w escape_def split: sum.splits)
  show "handleMessageFromParent E data ports s = s" if "data \<noteq> VUndefined \<and> data \<noteq> VNull"
    using that by (simp add: w get_prop_def split: jsval.splits option.splits)
next
  assume u: "unrecognised E [tag_exec_parent] data"
  show w: "handleWorkerMessage E data ports m =
        (case get_prop E data ''type'' of Inl e \<Rightarrow> escape e m | Inr ty \<Rightarrow> m)"
    using u by (auto simp add: unrecognised_def handleWorkerMessage_def split: sum.splits)
  show "replies (handleWorkerMessage E data ports m) = replies m"
    by (simp add: w split: sum.splits)
  show "posted (handleWorkerMessage E data ports m) = posted m"
    by (simp add: w escape_def split: sum.splits)
  show "handleWorkerMessage E data ports m =
            m\<lparr>uncaught := uncaught (handleWorkerMessage E data ports m)\<rparr>"
    by (simp add: w escape_def split: sum.splits)
  show "handleWorkerMessage E data ports m = m" if "data \<noteq> VUndefined \<and> data \<noteq> VNull"
    using that by (simp add: w get_prop_def split: jsval.splits option.splits)
qed

theorem C10_unrecognised_message_witness:
  "unrecognised example_platform [tag_ping, tag_init, tag_exec_child, tag_terminate]
     (VObject 7 [(''type'', VStr ''hello'')])
   \<and> handleMessageFromParent example_platform (VObject 7 [(''type'', VStr ''hello'')]) [3]
        example_worker = example_worker
   \<and> unrecognised example_platform [tag_exec_parent] (VObject 7 [(''type'', VStr ''hello'')])
   \<and> handleWorkerMessage example_platform (VObject 7 [(''type'', VStr ''hello'')]) [3]
        (vthread_new example_platform VUndefined VUndefined Map.empty)
      = vthread_new example_platform VUndefined VUndefined Map.empty"
proof -
  have a: "unrecognised example_platform [tag_ping, tag_init, tag_exec_child, tag_terminate]
     (VObject 7 [(''type'', VStr ''hello'')])"
    by (simp add: unrecognised_def get_prop_def)
  have b: "unrecognised example_platform [tag_exec_parent] (VObject 7 [(''type'', VStr ''hello'')])"
    by (simp add: unrecognised_def get_prop_def)
  have c: "VObject 7 [(''type'', VStr ''hello'')] \<noteq> VUndefined
           \<and> VObject 7 [(''type'', VStr ''hello'')] \<noteq> VNull"
    by simp
  note t = C10_unrecognised_message [where E = example_platform
        and data = "VObject 7 [(''type'', VStr ''hello'')]" and ports = "[3]"
        and s = example_worker
        and m = "vthread_new example_platform VUndefined VUndefined Map.empty"]
  from t a c have 1: "handleMessageFromParent example_platform
        (VObject 7 [(''type'', VStr ''hello'')]) [3] example_worker = example_worker"
    by blast
  from t b c have 2: "handleWorkerMessage example_platform (VObject 7 [(''type'', VStr ''hello'')]) [3]
        (vthread_new example_platform VUndefined VUndefined Map.empty)
      = vthread_new example_platform VUndefined VUndefined Map.empty"
    by blast
  from a b 1 2 show ?thesis by blast
qed

section \<open>Resolving and running an execution request\<close>

lemma typeof_undefined: "(typeof v = ''undefined'') = (v = VUndefined)"
  by (cases v) simp_all

lemma chain_reduce_walk: "chain_reduce E root cur (map VStr chain) = walk E root cur chain"
  by (induction chain arbitrary: cur)
     (simp_all add: chain_step_def prop_key_def typeof_undefined split: sum.splits)

lemma exec_msg_fields [simp]:
  "get_prop E (exec_msg tag chain args) ''type'' = Inr (VStr tag)"
  "field E (exec_msg tag chain args) ''fnChain'' = VArray 0 (map VStr chain)"
  "field E (exec_msg tag chain args) ''args'' = VArray 0 args"
  by (simp_all add: exec_msg_def get_prop_def field_def)

lemma handle_exec:
  "handleMessageFromParent E (exec_msg tag_exec_child chain args) (c # cs) s =
     exec_request E ''worker.'' (connectedProvider s) (VArray 0 (map VStr chain))
       (VArray 0 args) (Some c) s"
  by (simp add: handleMessageFromParent_def)


lemma resolve_target_walk:
  "resolve_target E label root (VArray i (map VStr chain)) =
     (case walk E root (VObject 0 []) chain of
        Inl e \<Rightarrow> Inl (Error (emessage e))
      | Inr v \<Rightarrow> if typeof v \<noteq> ''function''
                 then Inl (TypeError (label @ to_string E v @ '' is not a function''))
                 else Inr v)"
  by (simp add: resolve_target_def chain_reduce_walk)


lemma exec_done_ret:
  "list_all transferable (transfer_of (wiredTransferables s) v) \<Longrightarrow>
   exec_done E (Some c) (Inr v) s =
     s\<lparr>replies := replies s @ [(c, \<lparr>err = None, ret = v\<rparr>, transfer_of (wiredTransferables s) v)]\<rparr>"
  by (simp add: exec_done_def reply_on_def or_escape_def transfer_of_def Let_def
        split: option.splits)


lemma exec_request_callable:
  assumes "walk E root (VObject 0 []) chain = Inr (VFunction f)"
  shows "exec_request E label root (VArray i (map VStr chain)) (VArray j args) (Some c) s =
     (let s' = s\<lparr>calls := calls s @ [(VFunction f, root, args)]\<rparr> in
      case call_fn E (length (calls s)) f root args of
        Threw e \<Rightarrow> exec_done E (Some c) (Inl e) s'
      | Returned v \<Rightarrow> exec_done E (Some c) (Inr v) s'
      | Async p \<Rightarrow> s'\<lparr>awaits := awaits s' @ [(p, KExec (Some c))]\<rparr>)"
  using assms
  by (simp add: exec_request_def resolve_target_walk arg_list_def invoke_def Let_def
           split: call_result.splits)



section \<open>The registry is consulted when a value is sent\<close>

lemma consume_only_removes:
  "wm_has (snd (consume reg as)) v \<Longrightarrow> wm_has reg v"
proof (induction as arbitrary: reg)
  case Nil
  then show ?case by simp
next
  case (Cons a as)
  show ?case
  proof (cases "wm_has reg a")
    case True
    then obtain bs where g: "wm_get reg a = Some bs"
      by (auto simp add: wm_has_def wm_get_def split: option.splits)
    with True Cons.prems have "wm_has (snd (consume (wm_delete reg a) as)) v"
      by (simp add: case_prod_beta)
    then have "wm_has (wm_delete reg a) v"
      by (rule Cons.IH)
    then show ?thesis
      by (auto simp add: wm_has_def wm_delete_def split: option.splits if_splits)
  next
    case False
    with Cons show ?thesis by simp
  qed
qed

lemma consume_removes:
  "a \<in> set as \<Longrightarrow> \<not> wm_has (snd (consume reg as)) a"
proof (induction as arbitrary: reg)
  case Nil
  then show ?case by simp
next
  case (Cons b as)
  show ?case
  proof (cases "wm_has reg b")
    case True
    then obtain bs where g: "wm_get reg b = Some bs"
      by (auto simp add: wm_has_def wm_get_def split: option.splits)
    have d: "\<not> wm_has (wm_delete reg b) b"
      by (auto simp add: wm_has_def wm_delete_def split: option.splits)
    show ?thesis
    proof (cases "a = b")
      case True
      with d consume_only_removes [of "wm_delete reg b" as b] \<open>wm_has reg b\<close> g
      show ?thesis by (auto simp add: case_prod_beta)
    next
      case False
      with Cons.prems have "a \<in> set as" by simp
      from Cons.IH [OF this, of "wm_delete reg b"] True g
      show ?thesis by (simp add: case_prod_beta)
    qed
  next
    case False
    show ?thesis
    proof (cases "a = b")
      case True
      with False consume_only_removes [of reg as b] show ?thesis by auto
    next
      case False
      with Cons.prems have "a \<in> set as" by simp
      from Cons.IH [OF this, of reg] \<open>\<not> wm_has reg b\<close> show ?thesis by simp
    qed
  qed
qed

lemma consume_nothing:
  "\<forall>a\<in>set as. \<not> wm_has reg a \<Longrightarrow> consume reg as = ([], reg)"
  by (induction as) simp_all

lemma consume_twice:
  "consume (snd (consume reg as)) as = ([], snd (consume reg as))"
  by (rule consume_nothing) (simp add: consume_removes)

lemma reply_keeps_registry:
  "wiredTransferables (handleMessageFromParent E (exec_msg tag_exec_child chain args) ports s)
     = wiredTransferables s"
  "wiredTransferables (handleWorkerMessage E (exec_msg tag_exec_parent chain args) ports m)
     = wiredTransferables m"
  by (simp_all add: handleMessageFromParent_def handleWorkerMessage_def)

text \<open>
  C3 fails on the return path. The worker marks the object 60 with the buffer 61 and
  returns it from two calls in a row: both replies hand the buffer to \<^verbatim>\<open>postMessage\<close>,
  and the registry still holds the marking afterwards. (The handlers read the registry
  with \<^verbatim>\<open>get\<close> and never \<^verbatim>\<open>delete\<close>; the loops of the two proxies over the
  arguments do delete, see \<open>consume_removes\<close> and \<open>consume_twice\<close>.)
\<close>

theorem C3_return_value_keeps_marking:
  "replies (prun example_platform example_worker
      [MarkInWorker (VObject 60 []) [VArrayBuffer 61],
       FromParent (exec_msg tag_exec_child [''frame''] []) [1],
       FromParent (exec_msg tag_exec_child [''frame''] []) [2]])
     = [(1, \<lparr>err = None, ret = VObject 60 []\<rparr>, [Item (VArrayBuffer 61)]),
        (2, \<lparr>err = None, ret = VObject 60 []\<rparr>, [Item (VArrayBuffer 61)])]
   \<and> wm_get (wiredTransferables (prun example_platform example_worker
      [MarkInWorker (VObject 60 []) [VArrayBuffer 61],
       FromParent (exec_msg tag_exec_child [''frame''] []) [1],
       FromParent (exec_msg tag_exec_child [''frame''] []) [2]])) (VObject 60 [])
     = Some [VArrayBuffer 61]"
proof -
  define s1 where "s1 = pstep example_platform example_worker
      (MarkInWorker (VObject 60 []) [VArrayBuffer 61])"
  have s1: "s1 = example_worker\<lparr>wiredTransferables := [60 \<mapsto> [VArrayBuffer 61]]\<rparr>"
    by (simp add: s1_def pstep_def example_worker_def vthreadable_init_def
          markAsVTransferable_def wm_set_def)
  have w: "walk example_platform example_surface (VObject 0 []) [''frame''] = Inr (VFunction 20)"
    by (simp add: example_surface_def example_platform_def get_prop_def)
  have k: "call_fn example_platform n 20 r [] = Returned (VObject 60 [])" for n r
    by (simp add: example_platform_def)
  have t: "transfer_of [60 \<mapsto> [VArrayBuffer 61]] (VObject 60 []) = [Item (VArrayBuffer 61)]"
    by (simp add: transfer_of_def wm_get_def)
  have ex: "exec_request example_platform ''worker.'' example_surface
              (VArray 0 [VStr ''frame'']) (VArray 0 []) (Some c) u =
            exec_done example_platform (Some c) (Inr (VObject 60 []))
              (u\<lparr>calls := calls u @ [(VFunction 20, example_surface, [])]\<rparr>)"
    for c and u :: vthreadable
    using exec_request_callable [OF w, of "''worker.''" 0 0 "[]" c u]
    by (simp add: k Let_def)
  define s2 where "s2 = pstep example_platform s1 (FromParent (exec_msg tag_exec_child [''frame''] []) [1])"
  have s2: "s2 = s1\<lparr>calls := [(VFunction 20, example_surface, [])],
       replies := [(1, \<lparr>err = None, ret = VObject 60 []\<rparr>, [Item (VArrayBuffer 61)])]\<rparr>"
    by (simp add: s2_def pstep_def s1 example_worker_def vthreadable_init_def handle_exec
          ex t exec_done_ret)
  define s3 where "s3 = pstep example_platform s2 (FromParent (exec_msg tag_exec_child [''frame''] []) [2])"
  have s3: "s3 = s2\<lparr>calls := [(VFunction 20, example_surface, []), (VFunction 20, example_surface, [])],
       replies := [(1, \<lparr>err = None, ret = VObject 60 []\<rparr>, [Item (VArrayBuffer 61)]),
                   (2, \<lparr>err = None, ret = VObject 60 []\<rparr>, [Item (VArrayBuffer 61)])]\<rparr>"
    by (simp add: s3_def pstep_def s2 s1 example_worker_def vthreadable_init_def handle_exec
          ex t exec_done_ret)
  have "prun example_platform example_worker
      [MarkInWorker (VObject 60 []) [VArrayBuffer 61],
       FromParent (exec_msg tag_exec_child [''frame''] []) [1],
       FromParent (exec_msg tag_exec_child [''frame''] []) [2]] = s3"
    by (simp add: prun_def s3_def s2_def s1_def)
  then show ?thesis
    by (simp add: s3 s2 s1 wm_get_def)
qed

section \<open>The main thread: what the shared operations leave alone\<close>

lemmas escape_main [simp] = main_fields [OF escape_frame(1)]
lemmas resolve_main [simp] = main_fields [OF resolve_frame(1)]
lemmas reject_main [simp] = main_fields [OF reject_frame(1)]
lemmas exec_done_main [simp] = main_fields [OF exec_done_frame(1)]
lemmas exec_request_main [simp] = main_fields [OF exec_request_frame(1)]

section \<open>The example states, computed\<close>

lemma example_platform_fields [simp]:
  "startWorker_stack example_platform = []"
  "self_has example_platform n = (n = ''RangeError'')"
  "inherited example_platform v p = VUndefined"
  "to_string example_platform v = ''value''"
  by (simp_all add: example_platform_def)

lemma vthread_new_value:
  "vthread_new E options h reg =
     \<lparr>wiredTransferables = reg, replies = [], awaits = [], calls = [], uncaught = [],
      promises = [0 \<mapsto> Pending], fresh = 2,
      workerState = Loading, workerInitOptions = options, host = h,
      workerInitPromise = Some 0, pendingTransactionCount = 0,
      queuedWorkerFnChain = [], posted = [(ping_msg, [Port 1])], flight = Map.empty,
      waiting = [], resuming = [], pingAwaited = True, pingChannels = [1], timers = [1],
      terminated = False, proxy = 0\<rparr>"
  by (simp add: vthread_new_def startWorker_def Let_def pingWorker_def)

lemma step1:
  "port_message example_platform 1 \<lparr>err = None, ret = VBool True\<rparr>
     (vthread_new example_platform VUndefined VUndefined Map.empty) =
     \<lparr>wiredTransferables = Map.empty, replies = [], awaits = [], calls = [], uncaught = [],
      promises = [0 \<mapsto> Pending], fresh = 3,
      workerState = Listening, workerInitOptions = VUndefined, host = VUndefined,
      workerInitPromise = Some 0, pendingTransactionCount = 1,
      queuedWorkerFnChain = [],
      posted = [(ping_msg, [Port 1]), (init_msg False VUndefined, [Port 2])],
      flight = [2 \<mapsto> OpInit 0 []],
      waiting = [], resuming = [], pingAwaited = False, pingChannels = [1], timers = [1],
      terminated = False, proxy = 0\<rparr>"
  by (simp add: vthread_new_value port_message_def after_ping_def delegateMessage_def
        open_channel_def post_def)


lemma example_ready_value:
  "example_ready =
     \<lparr>wiredTransferables = Map.empty, replies = [], awaits = [], calls = [], uncaught = [],
      promises = [0 \<mapsto> Fulfilled VUndefined], fresh = 3,
      workerState = Ready, workerInitOptions = VUndefined, host = VUndefined,
      workerInitPromise = Some 0, pendingTransactionCount = 0,
      queuedWorkerFnChain = [],
      posted = [(ping_msg, [Port 1]), (init_msg False VUndefined, [Port 2])],
      flight = [2 \<mapsto> OpDone],
      waiting = [], resuming = [], pingAwaited = False, pingChannels = [1], timers = [1],
      terminated = False, proxy = 0\<rparr>"
proof -
  have "example_ready =
      port_message example_platform 2 \<lparr>err = None, ret = VUndefined\<rparr>
        (port_message example_platform 1 \<lparr>err = None, ret = VBool True\<rparr>
           (vthread_new example_platform VUndefined VUndefined Map.empty))"
    by (simp add: example_ready_def mrun_def mstep_def)
  then show ?thesis
    by (simp only: step1) (simp add: port_message_def processMessage_def settle_init_def)
qed

lemma example_kill_called_value:
  "snd (kill example_platform VUndefined (VBool True) example_stack example_ready) =
     \<lparr>wiredTransferables = Map.empty, replies = [], awaits = [], calls = [], uncaught = [],
      promises = [0 \<mapsto> Fulfilled VUndefined, 3 \<mapsto> Pending], fresh = 4,
      workerState = Ready, workerInitOptions = VUndefined, host = VUndefined,
      workerInitPromise = Some 0, pendingTransactionCount = 0,
      queuedWorkerFnChain = [],
      posted = [(ping_msg, [Port 1]), (init_msg False VUndefined, [Port 2])],
      flight = [2 \<mapsto> OpDone],
      waiting = [], resuming = [WKill 3 VUndefined (VBool True) example_stack],
      pingAwaited = False, pingChannels = [1], timers = [1],
      terminated = False, proxy = 0\<rparr>"
  by (simp add: example_ready_value kill_def ensureWorkerReady_def Let_def)

lemma example_killing_value:
  "resume_nth 0 (snd (kill example_platform VUndefined (VBool True) example_stack example_ready)) =
     \<lparr>wiredTransferables = Map.empty, replies = [], awaits = [], calls = [], uncaught = [],
      promises = [0 \<mapsto> Fulfilled VUndefined, 3 \<mapsto> Pending], fresh = 5,
      workerState = Killed, workerInitOptions = VUndefined, host = VUndefined,
      workerInitPromise = Some 0, pendingTransactionCount = 1,
      queuedWorkerFnChain = [],
      posted = [(ping_msg, [Port 1]), (init_msg False VUndefined, [Port 2]),
                (terminate_msg (VBool True) VUndefined, [Port 4])],
      flight = [2 \<mapsto> OpDone, 4 \<mapsto> OpKill 3 example_stack],
      waiting = [], resuming = [], pingAwaited = False, pingChannels = [1], timers = [1],
      terminated = False, proxy = 0\<rparr>"
  by (simp only: example_kill_called_value)
     (simp add: resume_nth_def kill_go_def delegateMessage_def open_channel_def post_def Let_def)

lemma example_killed_value:
  "example_killed =
     \<lparr>wiredTransferables = Map.empty, replies = [], awaits = [], calls = [], uncaught = [],
      promises = [0 \<mapsto> Fulfilled VUndefined, 3 \<mapsto> Fulfilled VUndefined], fresh = 5,
      workerState = Killed, workerInitOptions = VUndefined, host = VUndefined,
      workerInitPromise = Some 0, pendingTransactionCount = 0,
      queuedWorkerFnChain = [],
      posted = [(ping_msg, [Port 1]), (init_msg False VUndefined, [Port 2]),
                (terminate_msg (VBool True) VUndefined, [Port 4])],
      flight = [2 \<mapsto> OpDone, 4 \<mapsto> OpDone],
      waiting = [], resuming = [], pingAwaited = False, pingChannels = [1], timers = [1],
      terminated = True, proxy = 0\<rparr>"
proof -
  have "example_killed =
      port_message example_platform 4 \<lparr>err = None, ret = VUndefined\<rparr>
        (resume_nth 0
           (snd (kill example_platform VUndefined (VBool True) example_stack example_ready)))"
    by (simp add: example_killed_def mrun_def mstep_def)
  then show ?thesis
    by (simp only: example_killing_value)
       (simp add: port_message_def processMessage_def resolve_def)
qed

lemma example_called_value:
  "snd (worker_apply example_platform [] example_stack
          (snd (worker_get ''fail'' example_ready))) =
     \<lparr>wiredTransferables = Map.empty, replies = [], awaits = [], calls = [], uncaught = [],
      promises = [0 \<mapsto> Fulfilled VUndefined, 3 \<mapsto> Pending], fresh = 5,
      workerState = Ready, workerInitOptions = VUndefined, host = VUndefined,
      workerInitPromise = Some 0, pendingTransactionCount = 1,
      queuedWorkerFnChain = [],
      posted = [(ping_msg, [Port 1]), (init_msg False VUndefined, [Port 2])],
      flight = [2 \<mapsto> OpDone, 4 \<mapsto> OpExec 3 example_stack],
      waiting = [], resuming = [WCall 4 (exec_msg tag_exec_child [''fail''] []) []],
      pingAwaited = False, pingChannels = [1], timers = [1],
      terminated = False, proxy = 0\<rparr>"
  by (simp add: example_ready_value worker_get_def worker_apply_def ensureWorkerReady_def
        open_channel_def Let_def)

lemma example_calling_value:
  "resume_nth 0 (snd (worker_apply example_platform [] example_stack
          (snd (worker_get ''fail'' example_ready)))) =
     \<lparr>wiredTransferables = Map.empty, replies = [], awaits = [], calls = [], uncaught = [],
      promises = [0 \<mapsto> Fulfilled VUndefined, 3 \<mapsto> Pending], fresh = 5,
      workerState = Ready, workerInitOptions = VUndefined, host = VUndefined,
      workerInitPromise = Some 0, pendingTransactionCount = 1,
      queuedWorkerFnChain = [],
      posted = [(ping_msg, [Port 1]), (init_msg False VUndefined, [Port 2]),
                (exec_msg tag_exec_child [''fail''] [], [Port 4])],
      flight = [2 \<mapsto> OpDone, 4 \<mapsto> OpExec 3 example_stack],
      waiting = [], resuming = [], pingAwaited = False, pingChannels = [1], timers = [1],
      terminated = False, proxy = 0\<rparr>"
  by (simp only: example_called_value) (simp add: resume_nth_def post_def Let_def)

lemma example_failed_call_value:
  "example_failed_call =
     \<lparr>wiredTransferables = Map.empty, replies = [], awaits = [], calls = [],
      uncaught =
        [\<lparr>ector = ''RangeError'', ename = ''RangeError'', emessage = ''bad'',
          eframes = [\<lparr>functionName = Some ''fail'', source = ''at fail (worker.js:3)''\<rparr>,
                     \<lparr>functionName = Some ''main'', source = ''at main (main.js:9)''\<rparr>],
          eprops = [(''code'', VNum 7)]\<rparr>],
      promises = [0 \<mapsto> Fulfilled VUndefined, 3 \<mapsto> Pending], fresh = 5,
      workerState = Ready, workerInitOptions = VUndefined, host = VUndefined,
      workerInitPromise = Some 0, pendingTransactionCount = 0,
      queuedWorkerFnChain = [],
      posted = [(ping_msg, [Port 1]), (init_msg False VUndefined, [Port 2]),
                (exec_msg tag_exec_child [''fail''] [], [Port 4])],
      flight = [2 \<mapsto> OpDone, 4 \<mapsto> OpDone],
      waiting = [], resuming = [], pingAwaited = False, pingChannels = [1], timers = [1],
      terminated = False, proxy = 0\<rparr>"
proof -
  have "example_failed_call =
      port_message example_platform 4
        \<lparr>err = Some (serializeError example_error), ret = VUndefined\<rparr>
        (resume_nth 0 (snd (worker_apply example_platform [] example_stack
               (snd (worker_get ''fail'' example_ready)))))"
    by (simp add: example_failed_call_def mrun_def mstep_def)
  then show ?thesis
    by (simp only: example_calling_value)
       (simp add: port_message_def processMessage_def serializeError_def example_error_def
          example_stack_def escape_def)
qed

lemma example_call_after_kill_value:
  "example_call_after_kill =
     \<lparr>wiredTransferables = Map.empty, replies = [], awaits = [], calls = [],
      uncaught = [Error ''This worker has been killed''],
      promises = [0 \<mapsto> Fulfilled VUndefined, 3 \<mapsto> Fulfilled VUndefined, 5 \<mapsto> Pending],
      fresh = 7,
      workerState = Killed, workerInitOptions = VUndefined, host = VUndefined,
      workerInitPromise = Some 0, pendingTransactionCount = 1,
      queuedWorkerFnChain = [],
      posted = [(ping_msg, [Port 1]), (init_msg False VUndefined, [Port 2]),
                (terminate_msg (VBool True) VUndefined, [Port 4])],
      flight = [2 \<mapsto> OpDone, 4 \<mapsto> OpDone, 6 \<mapsto> OpExec 5 example_stack],
      waiting = [], resuming = [], pingAwaited = False, pingChannels = [1], timers = [1],
      terminated = True, proxy = 0\<rparr>"
  by (simp add: example_call_after_kill_def mrun_def mstep_def example_killed_value
        worker_get_def worker_apply_def ensureWorkerReady_def wm_has_def
        open_channel_def Let_def escape_def)


section \<open>Execution requests in both peers\<close>








section \<open>The call chain and the arguments of a proxy call\<close>

lemma worker_reads:
  "foldl (\<lambda>t p. snd (worker_get p t)) s props =
     s\<lparr>queuedWorkerFnChain := queuedWorkerFnChain s @ props\<rparr>"
  by (induction props arbitrary: s) (simp_all add: worker_get_def)

lemma parent_reads:
  "foldl (\<lambda>t p. snd (parent_get p t)) s props =
     s\<lparr>parentQueuedFnChain := parentQueuedFnChain s @ props\<rparr>"
  by (induction props arbitrary: s) (simp_all add: parent_get_def)

lemma worker_apply_payload:
  "snd (fst (worker_apply E args st s)) = exec_msg tag_exec_child (queuedWorkerFnChain s) args"
  by (simp add: worker_apply_def Let_def case_prod_beta)

lemma open_channel_chain [simp]:
  "queuedWorkerFnChain (snd (open_channel w s)) = queuedWorkerFnChain s"
  "posted (snd (open_channel w s)) = posted s"
  "waiting (snd (open_channel w s)) = waiting s"
  "fst (open_channel w s) = fresh s"
  by (simp_all add: open_channel_def)

lemma post_chain [simp]: "queuedWorkerFnChain (post d c ts s) = queuedWorkerFnChain s"
  by (simp add: post_def Let_def)

lemma after_ping_chain [simp]:
  "queuedWorkerFnChain (after_ping E p s) = queuedWorkerFnChain s"
proof -
  have r: "queuedWorkerFnChain (release x w t) = queuedWorkerFnChain t" for x w t
    by (cases "(x, w, t)" rule: release.cases)
       (simp_all add: kill_go_def delegateMessage_def case_prod_beta)
  have f: "queuedWorkerFnChain (foldl (\<lambda>t w. release x w t) t ws) = queuedWorkerFnChain t"
    for x t ws
    by (induction ws arbitrary: t) (simp_all add: r)
  show ?thesis
    by (simp add: after_ping_def settle_init_def f delegateMessage_def case_prod_beta)
qed

lemma startWorker_chain [simp]:
  "queuedWorkerFnChain (snd (startWorker E s)) = queuedWorkerFnChain s"
proof -
  have r: "queuedWorkerFnChain (release x w t) = queuedWorkerFnChain t" for x w t
    by (cases "(x, w, t)" rule: release.cases)
       (simp_all add: kill_go_def delegateMessage_def case_prod_beta)
  have f: "queuedWorkerFnChain (foldl (\<lambda>t w. release x w t) t ws) = queuedWorkerFnChain t"
    for x t ws
    by (induction ws arbitrary: t) (simp_all add: r)
  have si: "queuedWorkerFnChain (settle_init p x t) = queuedWorkerFnChain t" for p x t
    by (simp add: settle_init_def f)
  have pw: "queuedWorkerFnChain (snd (pingWorker t)) = queuedWorkerFnChain t" for t
    by (simp add: pingWorker_def)
  show ?thesis
    by (simp add: startWorker_def Let_def si pw case_prod_beta
          split: option.splits ping_result.splits)
qed

lemma ensureWorkerReady_chain [simp]:
  "queuedWorkerFnChain (snd (ensureWorkerReady E s)) = queuedWorkerFnChain s"
  by (simp add: ensureWorkerReady_def case_prod_beta split: option.splits settle.splits)

lemma worker_apply_resets:
  "queuedWorkerFnChain (snd (worker_apply E args st s)) = []"
  by (simp add: worker_apply_def Let_def case_prod_beta split: readiness.splits)

lemma worker_apply_ready:
  assumes "workerState s = Ready"
  shows "snd (worker_apply E args st s) =
     s\<lparr>promises := (promises s)(fresh s \<mapsto> Pending), fresh := Suc (Suc (fresh s)),
       wiredTransferables := snd (consume (wiredTransferables s) args),
       queuedWorkerFnChain := [],
       pendingTransactionCount := pendingTransactionCount s + 1,
       flight := (flight s)(Suc (fresh s) \<mapsto> OpExec (fresh s) st),
       resuming := resuming s @
         [WCall (Suc (fresh s)) (exec_msg tag_exec_child (queuedWorkerFnChain s) args)
            (fst (consume (wiredTransferables s) args))]\<rparr>"
  using assms
  by (simp add: worker_apply_def Let_def ensureWorkerReady_def open_channel_def case_prod_beta)

text \<open>
  What \<^verbatim>\<open>postMessage(data, [channel.port2, ...transferables])\<close> does with the list the
  loop over the arguments has built: with no marked argument the message goes out; with
  one, the list holds an array, and \<^verbatim>\<open>postMessage\<close> throws.
\<close>

lemma post_unmarked: "post d c [] s = s\<lparr>posted := posted s @ [(d, [Port c])]\<rparr>"
  by (simp add: post_def)

lemma post_marked: "ts \<noteq> [] \<Longrightarrow> post d c ts s = escape DataCloneError s"
  by (cases ts) (simp_all add: post_def)

lemma consume_marked:
  "(fst (consume reg as) \<noteq> []) = (\<exists>a\<in>set as. wm_has reg a)"
proof (induction as arbitrary: reg)
  case Nil
  show ?case by simp
next
  case (Cons a as)
  show ?case
  proof (cases "wm_has reg a")
    case True
    then obtain bs where "wm_get reg a = Some bs"
      by (auto simp add: wm_has_def wm_get_def split: option.splits)
    with True show ?thesis by (simp add: case_prod_beta)
  next
    case False
    with Cons.IH [of reg] show ?thesis by simp
  qed
qed

lemma worker_apply_killed:
  assumes "workerState s = Killed"
  shows "snd (worker_apply E args st s) =
     s\<lparr>promises := (promises s)(fresh s \<mapsto> Pending), fresh := Suc (Suc (fresh s)),
       wiredTransferables := snd (consume (wiredTransferables s) args),
       queuedWorkerFnChain := [],
       pendingTransactionCount := pendingTransactionCount s + 1,
       flight := (flight s)(Suc (fresh s) \<mapsto> OpExec (fresh s) st),
       uncaught := uncaught s @ [Error ''This worker has been killed'']\<rparr>"
  using assms
  by (simp add: worker_apply_def Let_def ensureWorkerReady_def open_channel_def escape_def
        case_prod_beta)

lemma worker_apply_waits:
  assumes "workerState s = Loading \<or> workerState s = Listening"
    and "workerInitPromise s = Some q" "q < fresh s" "promises s q = Some Pending"
  shows "posted (snd (worker_apply E args st s)) = posted s
       \<and> waiting (snd (worker_apply E args st s)) =
           waiting s @ [WCall (Suc (fresh s))
                          (exec_msg tag_exec_child (queuedWorkerFnChain s) args)
                          (fst (consume (wiredTransferables s) args))]"
  using assms
  by (auto simp add: worker_apply_def Let_def ensureWorkerReady_def startWorker_def
        open_channel_def case_prod_beta)

lemma parent_apply_sends:
  assumes "\<forall>a\<in>set args. \<not> wm_has (wiredTransferables s) a"
  shows "snd (parent_apply args st s) =
     s\<lparr>promises := (promises s)(fresh s \<mapsto> Pending), fresh := fresh s + 2,
       pflight := (pflight s)(Suc (fresh s) \<mapsto> (fresh s, st)),
       toParent := toParent s @
         [(exec_msg tag_exec_parent (parentQueuedFnChain s) args, [Port (Suc (fresh s))])],
       parentQueuedFnChain := []\<rparr>"
  using assms by (simp add: parent_apply_def Let_def consume_nothing)


section \<open>An error reply to a proxy call\<close>

lemma processMessage_throws:
  "err r = Some e \<Longrightarrow> \<exists>h. processMessage E r st = Inl h"
  by (simp add: processMessage_def split: list.splits option.splits)

text \<open>
  What \<open>processMessage\<close> throws for an error reply: the error carries the name, the
  message and the properties of the envelope, it is made by the constructor of that name
  when there is one in scope (by \<^verbatim>\<open>Error\<close> otherwise), and its frames are the remote
  frames followed by the local ones (less the first local frame when that is the
  trampoline of the proxy).
\<close>

lemma processMessage_hydrated:
  assumes "err r = Some e" "stackFrames e = Some remote"
    and "st = [] \<or> functionName (hd st) = Some n"
  shows "processMessage E r st =
     Inl \<lparr>ector = (if self_has E (vname e) then vname e else ''Error''),
          ename = vname e, emessage = vmessage e,
          eframes = remote @ (if st \<noteq> [] \<and> contains ''Object.apply'' n then tl st else st),
          eprops = vprops e\<rparr>"
  using assms by (cases st) (auto simp add: processMessage_def)

lemma error_reply_is_lost:
  assumes "flight s c = Some (OpExec p st)" "c \<notin> set (pingChannels s)" "err r = Some e"
  shows "promises (port_message E c r s) = promises s"
    and "\<exists>h. uncaught (port_message E c r s) = uncaught s @ [h]"
proof -
  obtain h where h: "processMessage E r st = Inl h"
    using processMessage_throws [OF assms(3)] by blast
  show "promises (port_message E c r s) = promises s"
    using assms h by (simp add: port_message_def)
  show "\<exists>h. uncaught (port_message E c r s) = uncaught s @ [h]"
    using assms h by (simp add: port_message_def)
qed

text \<open>
  C1 fails. The worker is ready; \<^verbatim>\<open>proxy.fail()\<close> is called and returns promise 3;
  the reply on the call's channel carries the envelope of the \<^verbatim>\<open>RangeError\<close> thrown
  in the worker. The error is rebuilt as the claim says (its name, and its stack: the
  remote frame, then the local one), but it is thrown inside the async executor of the
  promise, so nothing rejects the promise: it stays pending, and the error is an
  unhandled rejection.
\<close>

theorem C1_error_reply_leaves_promise_pending:
  "fst (fst (worker_apply example_platform [] example_stack
               (snd (worker_get ''fail'' example_ready)))) = 3
   \<and> promises example_failed_call 3 = Some Pending
   \<and> map ename (uncaught example_failed_call) = [''RangeError'']
   \<and> map stack (uncaught example_failed_call) =
        [''at fail (worker.js:3)'' @ ''\<newline>'' @ ''at main (main.js:9)'']"
proof -
  have "fresh example_ready = 3"
    by (simp add: example_ready_value)
  then have "fst (fst (worker_apply example_platform [] example_stack
               (snd (worker_get ''fail'' example_ready)))) = 3"
    by (simp add: worker_apply_def worker_get_def Let_def case_prod_beta)
  then show ?thesis
    by (simp add: example_failed_call_value stack_def join_lines_def)
qed

section \<open>A proxy call after the kill\<close>

text \<open>
  C2 fails. After \<^verbatim>\<open>kill()\<close> has completed, \<^verbatim>\<open>proxy.math.add(2, 3)\<close> returns
  promise 5. As the claim says, nothing is posted to the worker and no other promise
  changes. But the error of \<^verbatim>\<open>ensureWorkerReady\<close> is thrown inside the async executor
  of \<^verbatim>\<open>delegateMsgEnsured\<close> and lost: the promise of the call stays pending instead
  of rejecting. (A second \<^verbatim>\<open>kill()\<close>, which awaits \<^verbatim>\<open>ensureWorkerReady\<close> in its
  own body, does reject with that error.)
\<close>

theorem C2_call_after_kill_stays_pending:
  "workerState example_killed = Killed
   \<and> fst (fst (worker_apply example_platform [VNum 2, VNum 3] example_stack
               (snd (worker_get ''add'' (snd (worker_get ''math'' example_killed)))))) = 5
   \<and> promises example_call_after_kill 5 = Some Pending
   \<and> posted example_call_after_kill = posted example_killed
   \<and> uncaught example_call_after_kill = [Error ''This worker has been killed'']
   \<and> promises (snd (kill example_platform VUndefined (VBool True) example_stack
                      example_killed)) 5
      = Some (Rejected (Error ''This worker has been killed''))"
proof -
  have f: "fresh example_killed = 5" and k: "workerState example_killed = Killed"
    and p: "promises example_killed 5 = None"
    by (simp_all add: example_killed_value)
  have 1: "fst (fst (worker_apply example_platform [VNum 2, VNum 3] example_stack
               (snd (worker_get ''add'' (snd (worker_get ''math'' example_killed)))))) = 5"
    using f by (simp add: worker_apply_def worker_get_def Let_def case_prod_beta)
  have 2: "promises (snd (kill example_platform VUndefined (VBool True) example_stack
                      example_killed)) 5
      = Some (Rejected (Error ''This worker has been killed''))"
    using f k by (simp add: kill_def Let_def ensureWorkerReady_def reject_def)
  show ?thesis
    using 1 2 k by (simp add: example_call_after_kill_value) (simp add: example_killed_value)
qed

section \<open>One connect operation\<close>

lemma tags [simp]:
  "is_ping (ping_msg, t)" "\<not> is_init (ping_msg, t)"
  "is_init (init_msg b v, t)" "\<not> is_ping (init_msg b v, t)"
  "msg_tag (exec_msg tag_exec_child chain args) = Some tag_exec_child"
  "msg_tag (terminate_msg g lw) = Some tag_terminate"
  by (simp_all add: is_ping_def is_init_def msg_tag_def ping_msg_def init_msg_def exec_msg_def
        terminate_msg_def)

lemma ping_not_init: "is_ping m \<Longrightarrow> \<not> is_init m"
  by (simp add: is_ping_def is_init_def)

lemma pings_then_init:
  assumes "list_all is_ping ps" "is_init m"
  shows "length (filter is_init (ps @ [m])) = 1"
    and "list_all is_ping (takeWhile (\<lambda>m. \<not> is_init m) (ps @ [m]))"
proof -
  have n: "\<forall>x\<in>set ps. \<not> is_init x"
    using assms(1) by (auto simp add: list_all_iff ping_not_init)
  then have "filter is_init ps = []"
    by (simp add: filter_empty_conv)
  with assms(2) show "length (filter is_init (ps @ [m])) = 1"
    by simp
  from n have "takeWhile (\<lambda>m. \<not> is_init m) (ps @ [m]) = ps @ takeWhile (\<lambda>m. \<not> is_init m) [m]"
    by (simp add: takeWhile_append2)
  with assms show "list_all is_ping (takeWhile (\<lambda>m. \<not> is_init m) (ps @ [m]))"
    by simp
qed

lemma after_init:
  assumes "length (filter is_init ps) = 1" "\<not> is_init m"
  shows "length (filter is_init (ps @ [m])) = 1"
    and "takeWhile (\<lambda>m. \<not> is_init m) (ps @ [m]) = takeWhile (\<lambda>m. \<not> is_init m) ps"
proof -
  show "length (filter is_init (ps @ [m])) = 1"
    using assms by simp
  have "filter is_init ps \<noteq> []"
    using assms(1) by auto
  then obtain x where "x \<in> set ps" "is_init x"
    by (auto simp add: filter_empty_conv)
  then show "takeWhile (\<lambda>m. \<not> is_init m) (ps @ [m]) = takeWhile (\<lambda>m. \<not> is_init m) ps"
    by (intro takeWhile_append1) auto
qed

lemma hd_append_ne: "ps \<noteq> [] \<Longrightarrow> hd (ps @ qs) = hd ps"
  by simp

lemma connect_inv_new: "connect_inv (vthread_new E options h reg)"
  by (simp add: vthread_new_value connect_inv_def)

lemma connect_inv_cong:
  assumes "peer.more t = peer.more s" "promises t = promises s" "fresh t = fresh s"
  shows "connect_inv t = connect_inv s"
  using assms main_fields [OF assms(1)] by (simp add: connect_inv_def)

lemma escape_inv [simp]: "connect_inv (escape e s) = connect_inv s"
  by (rule connect_inv_cong) simp_all

lemma post_inv:
  assumes "connect_inv s" "\<not> pingAwaited s" "msg_tag d \<noteq> Some tag_init"
  shows "connect_inv (post d c ts s)"
proof (cases "list_all transferable (Port c # map Items ts)")
  case False
  with assms(1) show ?thesis
    by (simp add: post_def)
next
  case True
  have n: "\<not> is_init (d, Port c # map Items ts)"
    using assms(3) by (simp add: is_init_def)
  from assms(1,2) have l: "length (filter is_init (posted s)) = 1"
    by (simp add: connect_inv_def)
  note a = after_init [OF l n]
  from True assms(1,2) a show ?thesis
    by (simp add: post_def connect_inv_def)
qed

lemma post_keeps [simp]:
  "pingAwaited (post d c ts s) = pingAwaited s"
  "workerState (post d c ts s) = workerState s"
  "waiting (post d c ts s) = waiting s"
  "promises (post d c ts s) = promises s"
  by (simp_all add: post_def Let_def)

lemma open_channel_inv:
  assumes "connect_inv s" "op_ok w" "\<forall>p st. w \<noteq> OpInit p st"
  shows "connect_inv (snd (open_channel w s))"
  using assms by (auto simp add: open_channel_def connect_inv_def)

lemma open_channel_keeps [simp]:
  "pingAwaited (snd (open_channel w s)) = pingAwaited s"
  "workerState (snd (open_channel w s)) = workerState s"
  "promises (snd (open_channel w s)) = promises s"
  by (simp_all add: open_channel_def)

lemma killed_inv:
  assumes "connect_inv s" "\<not> pingAwaited s"
  shows "connect_inv (s\<lparr>workerState := Killed\<rparr>)"
  using assms by (simp add: connect_inv_def)

lemma kill_go_inv:
  assumes "connect_inv s" "\<not> pingAwaited s" "p \<noteq> 0"
  shows "connect_inv (kill_go p lw g st s)"
proof -
  have 1: "connect_inv (snd (open_channel (OpKill p st) (s\<lparr>workerState := Killed\<rparr>)))"
    using assms by (intro open_channel_inv killed_inv) simp_all
  show ?thesis
    unfolding kill_go_def delegateMessage_def case_prod_beta
    using 1 assms(2) by (intro post_inv) simp_all
qed

lemma kill_go_keeps [simp]:
  "pingAwaited (kill_go p lw g st s) = pingAwaited s"
  "workerState (kill_go p lw g st s) = Killed"
  "waiting (kill_go p lw g st s) = waiting s"
  by (simp_all add: kill_go_def delegateMessage_def case_prod_beta)

lemma reject_inv:
  assumes "connect_inv s" "p \<noteq> 0"
  shows "connect_inv (reject p e s)"
  using assms by (simp add: reject_def connect_inv_def)

lemma resolve_inv:
  assumes "connect_inv s" "p \<noteq> 0"
  shows "connect_inv (resolve p v s)"
  using assms by (simp add: resolve_def connect_inv_def)

lemma release_inv:
  assumes "connect_inv s" "\<not> pingAwaited s" "waiter_ok w"
    "workerState s = Ready \<or> workerState s = Killed"
  shows "connect_inv (release r w s) \<and> \<not> pingAwaited (release r w s)
       \<and> (workerState (release r w s) = Ready \<or> workerState (release r w s) = Killed)
       \<and> waiting (release r w s) = waiting s"
  using assms
  by (cases "(r, w, s)" rule: release.cases)
     (simp_all add: post_inv kill_go_inv reject_inv)

lemma release_all_inv:
  assumes "connect_inv s" "\<not> pingAwaited s" "\<forall>w\<in>set ws. waiter_ok w"
    "workerState s = Ready \<or> workerState s = Killed"
  shows "connect_inv (foldl (\<lambda>t w. release r w t) s ws)
       \<and> \<not> pingAwaited (foldl (\<lambda>t w. release r w t) s ws)"
  using assms
proof (induction ws arbitrary: s)
  case Nil
  then show ?case by simp
next
  case (Cons w ws)
  from Cons.prems have "waiter_ok w" by simp
  note r = release_inv [OF Cons.prems(1,2) this Cons.prems(4), of r]
  from Cons.prems(3) have "\<forall>w\<in>set ws. waiter_ok w" by simp
  with r Cons.IH [of "release r w s"] show ?case by simp
qed

lemma settle_init_inv:
  assumes "connect_inv s" "\<not> pingAwaited s"
    "workerState s = Ready \<or> workerState s = Killed"
  shows "connect_inv (settle_init 0 r s)"
proof (cases "promises s 0 = Some Pending \<and> r \<noteq> Pending")
  case False
  with assms(1) show ?thesis by (auto simp add: settle_init_def)
next
  case True
  have 1: "connect_inv (s\<lparr>promises := (promises s)(0 \<mapsto> r), waiting := []\<rparr>)"
    using assms by (auto simp add: connect_inv_def)
  have 2: "\<forall>w\<in>set (waiting s). waiter_ok w"
    using assms(1) by (simp add: connect_inv_def)
  from True release_all_inv [OF 1 _ 2, of r] assms(2,3) show ?thesis
    by (simp add: settle_init_def)
qed


lemma ping_reply_inv:
  assumes "connect_inv s" "c \<in> set (pingChannels s)"
  shows "connect_inv (port_message E c r s)"
proof (cases "pingAwaited s")
  case False
  with assms have "workerState s \<noteq> Loading"
    by (simp add: connect_inv_def)
  then have "\<not> (workerState s \<noteq> Killed \<and> rank (workerState s) < rank Listening)"
    by (cases "workerState s") simp_all
  then have "port_message E c r s = s"
    unfolding port_message_def using assms(2) False by (simp only: if_True if_False Let_def)
  with assms(1) show ?thesis
    by simp
next
  case True
  with assms(1) have l: "workerState s = Loading" and p: "list_all is_ping (posted s)"
    and w: "workerInitPromise s = Some 0"
    by (simp_all add: connect_inv_def)
  note pi = pings_then_init [OF p, of "(init_msg (typeof (host s) = ''object'') (workerInitOptions s), [Port (fresh s)])"]
  have "port_message E c r s =
      s\<lparr>workerState := Listening, pingAwaited := False,
        pendingTransactionCount := pendingTransactionCount s + 1,
        flight := (flight s)(fresh s \<mapsto> OpInit 0 (startWorker_stack E)),
        fresh := Suc (fresh s),
        posted := posted s @ [(init_msg (typeof (host s) = ''object'') (workerInitOptions s),
                               [Port (fresh s)])]\<rparr>"
    using assms(2) True l w
    by (simp add: port_message_def after_ping_def delegateMessage_def open_channel_def post_def)
  moreover have "resuming s = []"
    using assms(1) l by (auto simp add: connect_inv_def)
  ultimately show ?thesis
    using assms(1) True pi by (simp add: connect_inv_def)
qed

lemma continue_inv:
  assumes "connect_inv s" "flight s c = Some w"
  shows "connect_inv (continue E w r
           (s\<lparr>flight := (flight s)(c \<mapsto> OpDone),
              pendingTransactionCount := pendingTransactionCount s - 1\<rparr>))"
proof -
  define t where "t = s\<lparr>flight := (flight s)(c \<mapsto> OpDone),
              pendingTransactionCount := pendingTransactionCount s - 1\<rparr>"
  have t: "connect_inv t"
    using assms(1) by (auto simp add: t_def connect_inv_def)
  have ok: "op_ok w"
    using assms by (simp add: connect_inv_def)
  have "connect_inv (continue E w r t)"
  proof (cases w)
    case (OpExec p st)
    with ok t show ?thesis
      by (simp add: resolve_inv split: sum.splits)
  next
    case (OpInit p st)
    with ok have p: "p = 0" by simp
    have na: "\<not> pingAwaited s"
      using assms OpInit by (auto simp add: connect_inv_def split: if_splits)
    then have nat: "\<not> pingAwaited t" by (simp add: t_def)
    have rdy: "connect_inv (t\<lparr>workerState := Ready\<rparr>)"
      using t nat by (simp add: connect_inv_def)
    show ?thesis
      using OpInit p t nat rdy
      by (simp add: settle_init_inv split: sum.splits)
  next
    case (OpKill p st)
    with ok have p: "p \<noteq> 0" by simp
    have "connect_inv (t\<lparr>terminated := True\<rparr>)"
      using t by (simp add: connect_inv_def)
    with OpKill p t show ?thesis
      by (simp add: resolve_inv reject_inv split: sum.splits)
  next
    case OpDone
    with t show ?thesis by simp
  qed
  then show ?thesis by (simp add: t_def)
qed

lemma port_message_inv:
  assumes "connect_inv s"
  shows "connect_inv (port_message E c r s)"
proof (cases "c \<in> set (pingChannels s)")
  case True
  with assms show ?thesis by (rule ping_reply_inv)
next
  case False
  show ?thesis
  proof (cases "flight s c")
    case None
    with False assms show ?thesis by (simp add: port_message_def)
  next
    case (Some w)
    with False continue_inv [OF assms Some, of E r] show ?thesis
      by (simp add: port_message_def)
  qed
qed

lemma timeout_inv:
  assumes "connect_inv s"
  shows "connect_inv (timeout E c s)"
proof (cases "c \<in> set (timers s) \<and> workerState s = Loading")
  case False
  then have "c \<notin> set (timers s) \<or> \<not> rank (workerState s) < rank Listening"
    by (cases "workerState s") auto
  with assms show ?thesis
    by (auto simp add: timeout_def Let_def connect_inv_def)
next
  case True
  with assms have a: "pingAwaited s"
    by (auto simp add: connect_inv_def split: if_splits)
  from True have "timeout E c s =
      s\<lparr>timers := removeAll c (timers s) @ [fresh s],
        pingChannels := removeAll c (pingChannels s) @ [fresh s],
        posted := posted s @ [(ping_msg, [Port (fresh s)])],
        fresh := Suc (fresh s)\<rparr>"
    by (simp add: timeout_def Let_def pingWorker_def)
  moreover have "resuming s = []"
    using assms True by (auto simp add: connect_inv_def)
  ultimately show ?thesis
    using assms a by (simp add: connect_inv_def)
qed

lemma ensureWorkerReady_inv:
  assumes "connect_inv s"
  shows "snd (ensureWorkerReady E s) = s"
    and "fst (ensureWorkerReady E s) = IsReady \<Longrightarrow> workerState s = Ready"
    and "fst (ensureWorkerReady E s) = MustWait \<Longrightarrow>
           workerState s = Loading \<or> workerState s = Listening"
proof -
  from assms have w: "workerInitPromise s = Some 0"
    and p: "workerState s = Loading \<or> workerState s = Listening \<longrightarrow> promises s 0 = Some Pending"
    by (simp_all add: connect_inv_def)
  show "snd (ensureWorkerReady E s) = s"
    using w by (simp add: ensureWorkerReady_def startWorker_def split: option.splits settle.splits)
  show "workerState s = Ready" if "fst (ensureWorkerReady E s) = IsReady"
    using that w p
    by (cases "workerState s") (simp_all add: ensureWorkerReady_def startWorker_def)
  show "workerState s = Loading \<or> workerState s = Listening"
    if "fst (ensureWorkerReady E s) = MustWait"
    using that w p
    by (cases "workerState s") (simp_all add: ensureWorkerReady_def startWorker_def)
qed

lemma worker_apply_unfold:
  "snd (worker_apply E args st s) =
     (let s1 = s\<lparr>promises := (promises s)(fresh s \<mapsto> Pending), fresh := Suc (fresh s),
                 wiredTransferables := snd (consume (wiredTransferables s) args),
                 queuedWorkerFnChain := []\<rparr>;
          s3 = snd (open_channel (OpExec (fresh s) st) (snd (ensureWorkerReady E s1)));
          c = fst (open_channel (OpExec (fresh s) st) (snd (ensureWorkerReady E s1)));
          payload = exec_msg tag_exec_child (queuedWorkerFnChain s) args;
          ts = fst (consume (wiredTransferables s) args)
      in case fst (ensureWorkerReady E s1) of
           NotReady x \<Rightarrow> escape x s3
         | IsReady \<Rightarrow> s3\<lparr>resuming := resuming s3 @ [WCall c payload ts]\<rparr>
         | MustWait \<Rightarrow> s3\<lparr>waiting := waiting s3 @ [WCall c payload ts]\<rparr>)"
  by (simp add: worker_apply_def Let_def case_prod_beta split: readiness.splits)

lemma worker_apply_inv:
  assumes "connect_inv s"
  shows "connect_inv (snd (worker_apply E args st s))"
proof -
  define s1 where "s1 = s\<lparr>promises := (promises s)(fresh s \<mapsto> Pending), fresh := Suc (fresh s),
                 wiredTransferables := snd (consume (wiredTransferables s) args),
                 queuedWorkerFnChain := []\<rparr>"
  have s1: "connect_inv s1"
    using assms by (auto simp add: s1_def connect_inv_def)
  note e = ensureWorkerReady_inv [OF s1, of E]
  define s3 where "s3 = snd (open_channel (OpExec (fresh s) st) s1)"
  have f: "fresh s \<noteq> 0"
    using assms by (simp add: connect_inv_def)
  have s3: "connect_inv s3"
    unfolding s3_def using s1 f by (intro open_channel_inv) simp_all
  have eq: "snd (worker_apply E args st s) =
      (case fst (ensureWorkerReady E s1) of
         NotReady x \<Rightarrow> escape x s3
       | IsReady \<Rightarrow> s3\<lparr>resuming := resuming s3 @
                       [WCall (fst (open_channel (OpExec (fresh s) st) s1))
                          (exec_msg tag_exec_child (queuedWorkerFnChain s) args)
                          (fst (consume (wiredTransferables s) args))]\<rparr>
       | MustWait \<Rightarrow> s3\<lparr>waiting := waiting s3 @
                       [WCall (fst (open_channel (OpExec (fresh s) st) s1))
                          (exec_msg tag_exec_child (queuedWorkerFnChain s) args)
                          (fst (consume (wiredTransferables s) args))]\<rparr>)"
    unfolding worker_apply_unfold Let_def s1_def[symmetric] e(1) s3_def[symmetric] ..
  show ?thesis
  proof (cases "fst (ensureWorkerReady E s1)")
    case (NotReady x)
    with s3 show ?thesis by (simp add: eq)
  next
    case IsReady
    then have "workerState s1 = Ready" by (rule e(2))
    then have "workerState s3 = Ready" by (simp add: s3_def)
    with s3 IsReady show ?thesis
      by (auto simp add: eq connect_inv_def split: if_splits)
  next
    case MustWait
    with s3 show ?thesis
      by (simp add: eq connect_inv_def)
  qed
qed

lemma kill_unfold:
  "snd (kill E lw g0 st s) =
     (let g = (if g0 = VUndefined then VBool True else g0);
          s1 = s\<lparr>promises := (promises s)(fresh s \<mapsto> Pending), fresh := Suc (fresh s)\<rparr>;
          s2 = snd (ensureWorkerReady E s1)
      in case fst (ensureWorkerReady E s1) of
           NotReady x \<Rightarrow> reject (fresh s) x s2
         | IsReady \<Rightarrow> s2\<lparr>resuming := resuming s2 @ [WKill (fresh s) lw g st]\<rparr>
         | MustWait \<Rightarrow> s2\<lparr>waiting := waiting s2 @ [WKill (fresh s) lw g st]\<rparr>)"
  by (cases "ensureWorkerReady E
        (s\<lparr>promises := (promises s)(fresh s \<mapsto> Pending), fresh := Suc (fresh s)\<rparr>)")
     (simp add: kill_def Let_def split: readiness.splits)

lemma kill_inv:
  assumes "connect_inv s"
  shows "connect_inv (snd (kill E lw g0 st s))"
proof -
  define g where "g = (if g0 = VUndefined then VBool True else g0)"
  define s1 where "s1 = s\<lparr>promises := (promises s)(fresh s \<mapsto> Pending), fresh := Suc (fresh s)\<rparr>"
  have s1: "connect_inv s1"
    using assms by (auto simp add: s1_def connect_inv_def)
  note e = ensureWorkerReady_inv [OF s1, of E]
  have f: "fresh s \<noteq> 0"
    using assms by (simp add: connect_inv_def)
  have eq: "snd (kill E lw g0 st s) =
      (case fst (ensureWorkerReady E s1) of
         NotReady x \<Rightarrow> reject (fresh s) x s1
       | IsReady \<Rightarrow> s1\<lparr>resuming := resuming s1 @ [WKill (fresh s) lw g st]\<rparr>
       | MustWait \<Rightarrow> s1\<lparr>waiting := waiting s1 @ [WKill (fresh s) lw g st]\<rparr>)"
    unfolding kill_unfold Let_def g_def[symmetric] s1_def[symmetric] e(1) ..
  show ?thesis
  proof (cases "fst (ensureWorkerReady E s1)")
    case (NotReady x)
    with s1 f show ?thesis by (simp add: eq reject_inv)
  next
    case IsReady
    then have "workerState s1 = Ready" by (rule e(2))
    with s1 f IsReady show ?thesis
      by (auto simp add: eq connect_inv_def split: if_splits)
  next
    case MustWait
    with s1 f show ?thesis
      by (simp add: eq connect_inv_def)
  qed
qed

lemma resume_nth_inv:
  assumes "connect_inv s"
  shows "connect_inv (resume_nth k s)"
proof (cases "k < length (resuming s)")
  case False
  with assms show ?thesis by (simp add: resume_nth_def)
next
  case True
  define t where "t = s\<lparr>resuming := take k (resuming s) @ drop (Suc k) (resuming s)\<rparr>"
  from True have ne: "resuming s \<noteq> []" by auto
  with assms have st: "workerState s = Ready \<or> workerState s = Killed"
    by (simp add: connect_inv_def)
  with assms have na: "\<not> pingAwaited s"
    by (auto simp add: connect_inv_def split: if_splits)
  from True have "resuming s ! k \<in> set (resuming s)" by simp
  with assms have ok: "waiter_ok (resuming s ! k)"
    by (simp add: connect_inv_def)
  have sub: "set (take k (resuming s) @ drop (Suc k) (resuming s)) \<subseteq> set (resuming s)"
    using set_take_subset [of k "resuming s"] set_drop_subset [of "Suc k" "resuming s"]
    by auto
  have t: "connect_inv t"
    using assms st sub by (auto simp add: t_def connect_inv_def)
  have "\<not> pingAwaited t" "workerState t = Ready \<or> workerState t = Killed"
    using na st by (simp_all add: t_def)
  from release_inv [OF t this(1) ok this(2), of "Fulfilled VUndefined"]
  show ?thesis
    using True by (simp add: resume_nth_def t_def)
qed

lemma handleWorkerMessage_inv:
  "connect_inv (handleWorkerMessage E data ports s) = connect_inv s"
  by (rule connect_inv_cong) (simp_all add: handleWorkerMessage_def split: sum.splits)

lemma resume_host_frame [simp]:
  "peer.more (resume_host E k r s) = peer.more s"
  "promises (resume_host E k r s) = promises s"
  "fresh (resume_host E k r s) = fresh s"
  by (cases k; simp)+

lemma settle_host_frame:
  "peer.more (foldl (\<lambda>t k. resume_host E k r t) s ks) = peer.more s
   \<and> promises (foldl (\<lambda>t k. resume_host E k r t) s ks) = promises s
   \<and> fresh (foldl (\<lambda>t k. resume_host E k r t) s ks) = fresh s"
  by (induction ks arbitrary: s) simp_all

lemma settle_host_inv:
  "connect_inv (settle_host E p r s) = connect_inv s"
  by (rule connect_inv_cong) (simp_all add: settle_host_def settle_host_frame)

lemma mstep_inv:
  assumes "connect_inv s"
  shows "connect_inv (mstep E s ev)"
proof (cases ev)
  case (WorkerGet p)
  with assms show ?thesis by (simp add: mstep_def worker_get_def connect_inv_def)
next
  case (WorkerApply args st)
  with assms show ?thesis by (simp add: mstep_def worker_apply_inv)
next
  case (Kill lw g st)
  with assms show ?thesis by (simp add: mstep_def kill_inv)
next
  case (Resume k)
  with assms show ?thesis by (simp add: mstep_def resume_nth_inv)
next
  case (MarkInMain v bufs)
  with assms show ?thesis by (simp add: mstep_def connect_inv_def)
next
  case (PortMessage c r)
  with assms show ?thesis by (simp add: mstep_def port_message_inv)
next
  case (Timeout c)
  with assms show ?thesis by (simp add: mstep_def timeout_inv)
next
  case (FromWorker data ports)
  with assms show ?thesis by (simp add: mstep_def handleWorkerMessage_inv)
next
  case (HostSettle p r)
  with assms show ?thesis by (simp add: mstep_def settle_host_inv)
qed

lemma mrun_inv:
  "connect_inv s \<Longrightarrow> connect_inv (mrun E s evs)"
  unfolding mrun_def by (induction evs arbitrary: s) (simp_all add: mstep_inv)

lemma example_connecting_value:
  "example_connecting =
     \<lparr>wiredTransferables = Map.empty, replies = [], awaits = [], calls = [], uncaught = [],
      promises = [0 \<mapsto> Pending, 2 \<mapsto> Pending, 4 \<mapsto> Pending], fresh = 6,
      workerState = Loading, workerInitOptions = VUndefined, host = VUndefined,
      workerInitPromise = Some 0, pendingTransactionCount = 2,
      queuedWorkerFnChain = [], posted = [(ping_msg, [Port 1])],
      flight = [3 \<mapsto> OpExec 2 example_stack, 5 \<mapsto> OpExec 4 example_stack],
      waiting = [WCall 3 (exec_msg tag_exec_child [''math'', ''add''] [VNum 2, VNum 3]) [],
                 WCall 5 (exec_msg tag_exec_child [''fail''] []) []],
      resuming = [], pingAwaited = True, pingChannels = [1], timers = [1],
      terminated = False, proxy = 0\<rparr>"
  by (simp add: example_connecting_def mrun_def mstep_def vthread_new_value worker_get_def
        worker_apply_def ensureWorkerReady_def startWorker_def open_channel_def Let_def
        wm_has_def)

text \<open>
  C8. In every state a \<^verbatim>\<open>VThread\<close> reaches from its construction, whatever happens to
  it: \<^verbatim>\<open>startWorker\<close> returns promise 0 and changes nothing, so all callers share the
  connect operation the constructor started; at most one init message has been posted;
  the first message posted is a ping and only pings come before the init message, so no
  call is posted before the handshake. While the worker is \<open>Loading\<close> or
  \<open>Listening\<close> that promise is pending and a proxy call waits for it: the call posts
  nothing and joins those who wait, with its payload.
\<close>

theorem C8_one_connect_operation:
  assumes "s = mrun E (vthread_new E options h reg) evs"
  shows "startWorker E s = (0, s)
    \<and> length (filter is_init (posted s)) \<le> 1
    \<and> posted s \<noteq> [] \<and> is_ping (hd (posted s))
    \<and> list_all is_ping (takeWhile (\<lambda>m. \<not> is_init m) (posted s))
    \<and> (workerState s = Loading \<or> workerState s = Listening \<longrightarrow>
         promises s 0 = Some Pending
         \<and> fst (ensureWorkerReady E s) = MustWait
         \<and> posted (snd (worker_apply E args st s)) = posted s
         \<and> waiting (snd (worker_apply E args st s)) =
             waiting s @ [WCall (Suc (fresh s))
                            (exec_msg tag_exec_child (queuedWorkerFnChain s) args)
                            (fst (consume (wiredTransferables s) args))])"
proof -
  have inv: "connect_inv s"
    unfolding assms by (intro mrun_inv connect_inv_new)
  then have w: "workerInitPromise s = Some 0" and f: "fresh s \<noteq> 0"
    by (simp_all add: connect_inv_def)
  have a: "startWorker E s = (0, s)"
    using w by (simp add: startWorker_def)
  have b: "length (filter is_init (posted s)) \<le> 1"
  proof (cases "pingAwaited s")
    case True
    with inv have "list_all is_ping (posted s)"
      by (simp add: connect_inv_def)
    then have "\<forall>x\<in>set (posted s). \<not> is_init x"
      by (auto simp add: list_all_iff ping_not_init)
    then have "filter is_init (posted s) = []"
      by (simp add: filter_empty_conv)
    then show ?thesis by simp
  next
    case False
    with inv show ?thesis by (simp add: connect_inv_def)
  qed
  have c: "posted s \<noteq> [] \<and> is_ping (hd (posted s))"
    using inv by (simp add: connect_inv_def)
  have d: "list_all is_ping (takeWhile (\<lambda>m. \<not> is_init m) (posted s))"
  proof (cases "pingAwaited s")
    case True
    with inv have p: "list_all is_ping (posted s)"
      by (simp add: connect_inv_def)
    then have "\<forall>x\<in>set (posted s). \<not> is_init x"
      by (auto simp add: list_all_iff ping_not_init)
    then have "takeWhile (\<lambda>m. \<not> is_init m) (posted s) = posted s"
      by (simp add: takeWhile_eq_all_conv)
    then show ?thesis using p by (simp only:)
  next
    case False
    with inv show ?thesis by (simp add: connect_inv_def)
  qed
  have e: "promises s 0 = Some Pending
         \<and> fst (ensureWorkerReady E s) = MustWait
         \<and> posted (snd (worker_apply E args st s)) = posted s
         \<and> waiting (snd (worker_apply E args st s)) =
             waiting s @ [WCall (Suc (fresh s))
                            (exec_msg tag_exec_child (queuedWorkerFnChain s) args)
                            (fst (consume (wiredTransferables s) args))]"
    if l: "workerState s = Loading \<or> workerState s = Listening"
  proof -
    from inv l have p: "promises s 0 = Some Pending"
      by (simp add: connect_inv_def)
    have m: "fst (ensureWorkerReady E s) = MustWait"
      using l p w by (auto simp add: ensureWorkerReady_def startWorker_def)
    define s1 where "s1 = s\<lparr>promises := (promises s)(fresh s \<mapsto> Pending), fresh := Suc (fresh s),
                 wiredTransferables := snd (consume (wiredTransferables s) args),
                 queuedWorkerFnChain := []\<rparr>"
    have m1: "ensureWorkerReady E s1 = (MustWait, s1)"
      using l p w f by (auto simp add: s1_def ensureWorkerReady_def startWorker_def)
    have "snd (worker_apply E args st s) =
        (snd (open_channel (OpExec (fresh s) st) s1))
          \<lparr>waiting := waiting (snd (open_channel (OpExec (fresh s) st) s1)) @
             [WCall (fst (open_channel (OpExec (fresh s) st) s1))
                (exec_msg tag_exec_child (queuedWorkerFnChain s) args)
                (fst (consume (wiredTransferables s) args))]\<rparr>"
      unfolding worker_apply_unfold Let_def s1_def[symmetric] m1 by simp
    then show ?thesis
      using p m by (simp add: s1_def)
  qed
  from a b c d e show ?thesis by blast
qed

theorem C8_one_connect_operation_witness:
  "workerState example_connecting = Loading
   \<and> startWorker example_platform example_connecting = (0, example_connecting)
   \<and> length (filter is_init (posted example_connecting)) \<le> 1
   \<and> posted example_connecting = [(ping_msg, [Port 1])]
   \<and> promises example_connecting 0 = Some Pending
   \<and> fst (ensureWorkerReady example_platform example_connecting) = MustWait
   \<and> posted (snd (worker_apply example_platform [VNum 1] example_stack example_connecting)) =
       [(ping_msg, [Port 1])]
   \<and> waiting (snd (worker_apply example_platform [VNum 1] example_stack example_connecting)) =
       [WCall 3 (exec_msg tag_exec_child [''math'', ''add''] [VNum 2, VNum 3]) [],
        WCall 5 (exec_msg tag_exec_child [''fail''] []) [],
        WCall 7 (exec_msg tag_exec_child [] [VNum 1]) []]"
proof -
  have l: "workerState example_connecting = Loading"
    and p: "posted example_connecting = [(ping_msg, [Port 1])]"
    and w: "waiting example_connecting =
       [WCall 3 (exec_msg tag_exec_child [''math'', ''add''] [VNum 2, VNum 3]) [],
        WCall 5 (exec_msg tag_exec_child [''fail''] []) []]"
    and f: "fresh example_connecting = 6"
    and q: "queuedWorkerFnChain example_connecting = []"
    and r: "wiredTransferables example_connecting = Map.empty"
    by (simp_all add: example_connecting_value)
  show ?thesis
    using C8_one_connect_operation [OF example_connecting_def, of "[VNum 1]" example_stack]
    by (simp add: l p w f q r wm_has_def)
qed

section \<open>A proxy call whose argument is marked\<close>

text \<open>The proxy that the \<^verbatim>\<open>get\<close> trap returns is the same object all along.\<close>

lemma proxy_release [simp]: "proxy (release r w s) = proxy s"
  by (cases "(r, w, s)" rule: release.cases)
     (simp_all add: post_def kill_go_def delegateMessage_def open_channel_def Let_def)

lemma proxy_releases [simp]: "proxy (foldl (\<lambda>t w. release r w t) s ws) = proxy s"
  by (induction ws arbitrary: s) simp_all

lemma proxy_settle_init [simp]: "proxy (settle_init p r s) = proxy s"
  by (simp add: settle_init_def)

lemma proxy_after_ping [simp]: "proxy (after_ping E p s) = proxy s"
  by (simp add: after_ping_def delegateMessage_def open_channel_def post_def Let_def)

lemma proxy_continue [simp]: "proxy (continue E w r s) = proxy s"
  by (cases w) (simp_all split: sum.splits)

lemma proxy_port_message [simp]: "proxy (port_message E c r s) = proxy s"
  by (simp add: port_message_def Let_def split: option.splits)

lemma proxy_timeout [simp]: "proxy (timeout E c s) = proxy s"
  by (simp add: timeout_def Let_def pingWorker_def split: option.splits)

lemma proxy_startWorker [simp]: "proxy (snd (startWorker E s)) = proxy s"
  by (simp add: startWorker_def Let_def pingWorker_def case_prod_beta
        split: option.splits ping_result.splits)

lemma proxy_ensureWorkerReady [simp]: "proxy (snd (ensureWorkerReady E s)) = proxy s"
  by (simp add: ensureWorkerReady_def case_prod_beta split: option.splits settle.splits)

lemma proxy_worker_apply [simp]: "proxy (snd (worker_apply E args st s)) = proxy s"
  by (simp add: worker_apply_unfold Let_def open_channel_def split: readiness.splits)

lemma proxy_kill [simp]: "proxy (snd (kill E lw g st s)) = proxy s"
  by (simp add: kill_unfold Let_def split: readiness.splits)

lemma proxy_resume_nth [simp]: "proxy (resume_nth k s) = proxy s"
  by (simp add: resume_nth_def)

lemma proxy_handleWorkerMessage [simp]: "proxy (handleWorkerMessage E data ports s) = proxy s"
  by (simp add: handleWorkerMessage_def split: sum.splits)

lemma proxy_settle_host [simp]: "proxy (settle_host E p r s) = proxy s"
  using main_fields(15) [of "settle_host E p r s" s]
  by (simp add: settle_host_def settle_host_frame)

lemma proxy_mstep: "proxy (mstep E s ev) = proxy s"
  by (cases ev) (simp_all add: mstep_def worker_get_def)

lemma proxy_mrun: "proxy (mrun E s evs) = proxy s"
  unfolding mrun_def by (induction evs arbitrary: s) (simp_all add: proxy_mstep)

lemma worker_get_same_proxy:
  "fst (worker_get p (mrun E (vthread_new E options h reg) evs)) = 0"
  by (simp add: worker_get_def proxy_mrun vthread_new_value)

text \<open>The runs of the two examples, step by step.\<close>

lemma example_image_marked:
  "mstep example_platform example_ready (MarkInMain example_image [VArrayBuffer 71]) =
     example_ready\<lparr>wiredTransferables := [70 \<mapsto> [VArrayBuffer 71]]\<rparr>"
  by (simp add: mstep_def markAsVTransferable_def example_image_def wm_set_def
        example_ready_value)

lemma example_image_consumed:
  "consume [70 \<mapsto> [VArrayBuffer 71]] [example_image] = ([[VArrayBuffer 71]], Map.empty)"
  by (simp add: example_image_def wm_has_def wm_get_def wm_delete_def)

lemma example_marked_called:
  "mrun example_platform example_ready
     [MarkInMain example_image [VArrayBuffer 71], WorkerGet ''draw'',
      WorkerApply [example_image] example_stack] =
   example_ready
     \<lparr>promises := [0 \<mapsto> Fulfilled VUndefined, 3 \<mapsto> Pending], fresh := 5,
      pendingTransactionCount := 1,
      flight := [2 \<mapsto> OpDone, 4 \<mapsto> OpExec 3 example_stack],
      resuming := [WCall 4 (exec_msg tag_exec_child [''draw''] [example_image])
                     [[VArrayBuffer 71]]]\<rparr>"
proof -
  define s2 where "s2 = example_ready\<lparr>wiredTransferables := [70 \<mapsto> [VArrayBuffer 71]],
                      queuedWorkerFnChain := [''draw'']\<rparr>"
  have r: "workerState s2 = Ready"
    by (simp add: s2_def example_ready_value)
  have "mrun example_platform example_ready
     [MarkInMain example_image [VArrayBuffer 71], WorkerGet ''draw'',
      WorkerApply [example_image] example_stack] =
     snd (worker_apply example_platform [example_image] example_stack s2)"
    by (simp add: mrun_def example_image_marked)
       (simp add: mstep_def worker_get_def s2_def example_ready_value)
  also have "\<dots> = example_ready
     \<lparr>promises := [0 \<mapsto> Fulfilled VUndefined, 3 \<mapsto> Pending], fresh := 5,
      pendingTransactionCount := 1,
      flight := [2 \<mapsto> OpDone, 4 \<mapsto> OpExec 3 example_stack],
      resuming := [WCall 4 (exec_msg tag_exec_child [''draw''] [example_image])
                     [[VArrayBuffer 71]]]\<rparr>"
    unfolding worker_apply_ready [OF r]
    by (simp add: s2_def example_image_consumed del: consume.simps)
       (simp add: example_ready_value)
  finally show ?thesis .
qed

lemma example_marked_call_value:
  "example_marked_call =
   example_ready
     \<lparr>promises := [0 \<mapsto> Fulfilled VUndefined, 3 \<mapsto> Pending], fresh := 5,
      pendingTransactionCount := 1,
      flight := [2 \<mapsto> OpDone, 4 \<mapsto> OpExec 3 example_stack],
      uncaught := [DataCloneError]\<rparr>"
proof -
  have "example_marked_call = resume_nth 0
     (mrun example_platform example_ready
       [MarkInMain example_image [VArrayBuffer 71], WorkerGet ''draw'',
        WorkerApply [example_image] example_stack])"
    by (simp add: example_marked_call_def mrun_def mstep_def)
  then show ?thesis
    by (simp only: example_marked_called)
       (simp add: resume_nth_def post_marked escape_def example_ready_value)
qed

lemma example_booted_value:
  "example_booted =
     vthreadable_init
       \<lparr>providerCallback := VFunction 12, initStatusResponsePort := Some 2,
        connectedProvider := example_surface, parentProxy := Some 0,
        calls := [(VFunction 12, VThreadableClass, [VUndefined, VThreadHost])],
        replies := [(2, \<lparr>err = None, ret = VUndefined\<rparr>, [])]\<rparr>"
  by (simp add: example_booted_def prun_def pstep_def onStart_def tryBootup_def
        vthreadable_init_def example_platform_def handleMessageFromParent_def init_msg_def
        get_prop_def init_request_def field_def Let_def invoke_def boot_done_def reply_on_def
        or_escape_def)

lemma example_parent_call_value:
  "example_parent_call =
     example_booted
       \<lparr>promises := [0 \<mapsto> Rejected DataCloneError], fresh := 2,
        pflight := [1 \<mapsto> (0, example_stack)],
        parentQueuedFnChain := [''show'']\<rparr>"
proof -
  define w where "w = example_booted\<lparr>wiredTransferables := [70 \<mapsto> [VArrayBuffer 71]],
                      parentQueuedFnChain := [''show'']\<rparr>"
  have "example_parent_call = snd (parent_apply [example_image] example_stack w)"
    by (simp add: example_parent_call_def prun_def pstep_def w_def example_booted_value
          vthreadable_init_def markAsVTransferable_def example_image_def wm_set_def
          parent_get_def)
  also have "\<dots> = example_booted
       \<lparr>promises := [0 \<mapsto> Rejected DataCloneError], fresh := 2,
        pflight := [1 \<mapsto> (0, example_stack)],
        parentQueuedFnChain := [''show'']\<rparr>"
    by (simp add: parent_apply_def w_def example_image_consumed Let_def reject_def
          del: consume.simps)
       (simp add: example_booted_value vthreadable_init_def)
  finally show ?thesis .
qed

text \<open>
  C5 fails where an argument carries a transfer marking. In the main thread, whose
  worker is ready, an object is marked with its buffer and passed to \<^verbatim>\<open>proxy.draw\<close>:
  the chain and the arguments are snapshotted as the claim says, but the loop over the
  arguments pushes the recorded array as one item of the transfer list, so
  \<^verbatim>\<open>postMessage\<close> throws: no execution message is posted, the error is lost in the
  async executor and promise 3 of the call stays pending. In the worker the same call
  on the parent proxy posts nothing either; its promise rejects, and the chain buffer
  is not reset. (The reply handlers hand the recorded array to \<^verbatim>\<open>postMessage\<close> as
  the transfer list itself, see C3.)
\<close>

theorem C5_marked_argument_is_not_sent:
  "workerState example_ready = Ready
   \<and> resuming (mrun example_platform example_ready
         [MarkInMain example_image [VArrayBuffer 71], WorkerGet ''draw'',
          WorkerApply [example_image] example_stack])
       = [WCall 4 (exec_msg tag_exec_child [''draw''] [example_image]) [[VArrayBuffer 71]]]
   \<and> posted example_marked_call = posted example_ready
   \<and> filter is_exec (posted example_marked_call) = []
   \<and> resuming example_marked_call = [] \<and> waiting example_marked_call = []
   \<and> promises example_marked_call 3 = Some Pending
   \<and> uncaught example_marked_call = [DataCloneError]
   \<and> parentProxy example_booted = Some 0
   \<and> toParent example_parent_call = []
   \<and> promises example_parent_call 0 = Some (Rejected DataCloneError)
   \<and> parentQueuedFnChain example_parent_call = [''show'']"
proof -
  have "filter is_exec (posted example_ready) = []"
    by (simp add: example_ready_value is_exec_def msg_tag_def ping_msg_def init_msg_def)
  then show ?thesis
    by (simp add: example_marked_called example_marked_call_value example_parent_call_value)
       (simp add: example_ready_value example_booted_value vthreadable_init_def)
qed

section \<open>Termination\<close>

lemma invoke_function:
  "invoke E (VFunction k) this args s =
     (call_fn E (length (calls s)) k this args, s\<lparr>calls := calls s @ [(VFunction k, this, args)]\<rparr>)"
  by (simp add: invoke_def)

lemma invoke_other:
  "typeof cb \<noteq> ''function'' \<Longrightarrow>
   invoke E cb this args s =
     (Threw (Err (TypeError (to_string E cb @ '' is not a function''))), s)"
  by (cases cb) (simp_all add: invoke_def)

lemma called_other:
  "typeof cb \<noteq> ''function'' \<Longrightarrow>
   called E n (cb # cbs) args =
     [Threw (Err (TypeError (to_string E cb @ '' is not a function'')))]"
  by (cases cb) simp_all

lemma pDispatch_map_called:
  "pDispatch_map E cbs args s =
     (case first_throw (called E (length (calls s)) cbs args) of
        Some e \<Rightarrow> Inl e
      | None \<Rightarrow> Inr (awaited (called E (length (calls s)) cbs args)),
      s\<lparr>calls := calls s @ logged (called E (length (calls s)) cbs args) cbs args\<rparr>)"
proof (induction cbs arbitrary: s)
  case Nil
  show ?case by (simp add: logged_def)
next
  case (Cons cb cbs)
  show ?case
  proof (cases "typeof cb = ''function''")
    case False
    then show ?thesis
      by (simp add: invoke_other called_other logged_def)
  next
    case True
    then obtain k where k: "cb = VFunction k"
      by (cases cb) simp_all
    show ?thesis
      by (cases "call_fn E (length (calls s)) k VUndefined args")
         (simp_all add: k invoke_function Cons.IH logged_def split: option.splits)
  qed
qed

lemma dispatch_called:
  "dispatch E cbs args s =
     (first_throw (called E (length (calls s)) cbs args),
      s\<lparr>calls := calls s @ logged (called E (length (calls s)) cbs args) cbs args\<rparr>)"
proof (induction cbs arbitrary: s)
  case Nil
  show ?case by (simp add: logged_def)
next
  case (Cons cb cbs)
  show ?case
  proof (cases "typeof cb = ''function''")
    case False
    then show ?thesis
      by (simp add: invoke_other called_other logged_def)
  next
    case True
    then obtain k where k: "cb = VFunction k"
      by (cases cb) simp_all
    show ?thesis
      by (cases "call_fn E (length (calls s)) k VUndefined args")
         (simp_all add: k invoke_function Cons.IH logged_def)
  qed
qed

lemma called_all:
  "first_throw (called E n cbs args) = None \<Longrightarrow> length (called E n cbs args) = length cbs"
proof (induction cbs arbitrary: n)
  case Nil
  show ?case by simp
next
  case (Cons cb cbs)
  show ?case
  proof (cases "typeof cb = ''function''")
    case False
    with Cons.prems show ?thesis by (simp add: called_other)
  next
    case True
    then obtain k where k: "cb = VFunction k"
      by (cases cb) simp_all
    from Cons.prems show ?thesis
      by (cases "call_fn E n k VUndefined args") (simp_all add: k Cons.IH)
  qed
qed

lemma term_done_port:
  "term_done (Some c) env s =
     s\<lparr>replies := replies s @ [(c, \<lparr>err = env, ret = VUndefined\<rparr>, [])], closed := True\<rparr>"
  by (simp add: term_done_def reply_on_def)

lemma term_catch_error:
  "term_catch E (Some c) (Err e) s =
     s\<lparr>replies := replies s @ [(c, \<lparr>err = Some (serializeError e), ret = VUndefined\<rparr>, [])],
       closed := True\<rparr>"
  by (simp add: term_catch_def envelope_of_def term_done_port)

text \<open>
  What is left out of the amended claim below: when what a listener throws (or what its
  promise rejects with) is not an error object, the \<^verbatim>\<open>catch\<close> block throws itself,
  no reply is posted and the worker does not close.
\<close>

lemma term_catch_other:
  "term_catch E port (NonErr v) s = s\<lparr>uncaught := uncaught s @ [parse_error E v]\<rparr>"
  by (simp add: term_catch_def envelope_of_def escape_def)

lemma handle_terminate:
  "handleMessageFromParent E (terminate_msg g lw) (c # cs) s =
     (if truthy g
      then (case pDispatch_map E (listeners s) [lw, g] s of
              (Inl t, s') \<Rightarrow> term_catch E (Some c) t s'
            | (Inr ps, s') \<Rightarrow>
                if ps = [] then term_done (Some c) None s'
                else s'\<lparr>joins := joins s' @ [(Some c, ps)]\<rparr>)
      else (case dispatch E (listeners s) [lw, g] s of
              (e, s') \<Rightarrow>
                (case e of
                   None \<Rightarrow> term_done (Some c) None s'
                 | Some t \<Rightarrow> term_catch E (Some c) t s')))"
  by (simp add: handleMessageFromParent_def terminate_msg_def terminate_request_def field_def
        get_prop_def Let_def)

lemma terminate_throws:
  assumes "first_throw (called E (length (calls s)) (listeners s) [lw, g]) = Some (Err e)"
  shows "handleMessageFromParent E (terminate_msg g lw) (c # cs) s =
     s\<lparr>calls := calls s @ logged (called E (length (calls s)) (listeners s) [lw, g])
                            (listeners s) [lw, g],
       replies := replies s @ [(c, \<lparr>err = Some (serializeError e), ret = VUndefined\<rparr>, [])],
       closed := True\<rparr>"
  using assms
  by (simp add: handle_terminate pDispatch_map_called dispatch_called term_catch_error)

lemma terminate_at_once:
  assumes "first_throw (called E (length (calls s)) (listeners s) [lw, g]) = None"
    and "\<not> truthy g \<or> awaited (called E (length (calls s)) (listeners s) [lw, g]) = []"
  shows "handleMessageFromParent E (terminate_msg g lw) (c # cs) s =
     s\<lparr>calls := calls s @ logged (called E (length (calls s)) (listeners s) [lw, g])
                            (listeners s) [lw, g],
       replies := replies s @ [(c, \<lparr>err = None, ret = VUndefined\<rparr>, [])],
       closed := True\<rparr>"
  using assms by (auto simp add: handle_terminate pDispatch_map_called dispatch_called term_done_port)

lemma terminate_waits:
  assumes "first_throw (called E (length (calls s)) (listeners s) [lw, g]) = None"
    and "truthy g" "awaited (called E (length (calls s)) (listeners s) [lw, g]) \<noteq> []"
  shows "handleMessageFromParent E (terminate_msg g lw) (c # cs) s =
     s\<lparr>calls := calls s @ logged (called E (length (calls s)) (listeners s) [lw, g])
                            (listeners s) [lw, g],
       joins := joins s @ [(Some c, awaited (called E (length (calls s)) (listeners s) [lw, g]))]\<rparr>"
  using assms by (simp add: handle_terminate pDispatch_map_called)

lemma term_catch_calls [simp]: "calls (term_catch E port t s) = calls s"
  by (simp add: term_catch_def term_done_def reply_on_def split: sum.splits option.splits)

lemma terminate_calls:
  "calls (handleMessageFromParent E (terminate_msg g lw) (c # cs) s) =
     calls s @ logged (called E (length (calls s)) (listeners s) [lw, g]) (listeners s) [lw, g]"
  by (simp add: handle_terminate pDispatch_map_called dispatch_called term_done_port
        split: option.splits)

lemma not_awaited:
  "p \<notin> fst ` set xs \<Longrightarrow>
     filter (\<lambda>(q, k). q \<noteq> p) xs = xs \<and> filter (\<lambda>(q, k). q = p) xs = []"
  by (induction xs) auto

lemma settle_awaits_none:
  "p \<notin> fst ` set (awaits s) \<Longrightarrow> settle_awaits E p r s = s"
  by (simp add: settle_awaits_def not_awaited)

lemma settle_one_join:
  assumes "\<not> closed u" "joins u = [(port, ps)]" "p \<in> set ps"
  shows "settle_joins E p (Inl t) u = term_catch E port t (u\<lparr>joins := []\<rparr>)"
    and "removeAll p ps = [] \<Longrightarrow>
         settle_joins E p (Inr v) u = term_done port None (u\<lparr>joins := []\<rparr>)"
    and "removeAll p ps \<noteq> [] \<Longrightarrow>
         settle_joins E p (Inr v) u = u\<lparr>joins := [(port, removeAll p ps)]\<rparr>"
  using assms by (simp_all add: settle_joins_def join_one_def)

lemma kill_ready:
  assumes "workerState m = Ready"
  shows "snd (kill E lw g st m) =
     m\<lparr>promises := (promises m)(fresh m \<mapsto> Pending), fresh := Suc (fresh m),
       resuming := resuming m @
         [WKill (fresh m) lw (if g = VUndefined then VBool True else g) st]\<rparr>"
  using assms by (simp add: kill_def ensureWorkerReady_def Let_def)

lemma kill_go_value:
  "kill_go p lw g st m =
     m\<lparr>workerState := Killed, pendingTransactionCount := pendingTransactionCount m + 1,
       flight := (flight m)(fresh m \<mapsto> OpKill p st), fresh := Suc (fresh m),
       posted := posted m @ [(terminate_msg g lw, [Port (fresh m)])]\<rparr>"
  by (simp add: kill_go_def delegateMessage_def open_channel_def post_def)

lemma kill_resumed:
  assumes "workerState m = Ready"
  shows "mstep E (snd (kill E lw g st m)) (Resume (length (resuming m))) =
     m\<lparr>promises := (promises m)(fresh m \<mapsto> Pending), fresh := Suc (Suc (fresh m)),
       workerState := Killed, pendingTransactionCount := pendingTransactionCount m + 1,
       flight := (flight m)(Suc (fresh m) \<mapsto> OpKill (fresh m) st),
       posted := posted m @
         [(terminate_msg (if g = VUndefined then VBool True else g) lw,
           [Port (Suc (fresh m))])]\<rparr>"
  by (simp add: mstep_def kill_ready [OF assms] resume_nth_def kill_go_value)

lemma kill_reply:
  "terminated (continue E (OpKill q st) r m) = (terminated m \<or> err r = None)"
  "promises m q = Some Pending \<Longrightarrow> err r = None \<Longrightarrow>
     promises (continue E (OpKill q st) r m) q = Some (Fulfilled VUndefined)"
  "promises m q = Some Pending \<Longrightarrow> err r \<noteq> None \<Longrightarrow>
     \<exists>h. processMessage E r st = Inl h
        \<and> promises (continue E (OpKill q st) r m) q = Some (Rejected h)"
proof -
  show "terminated (continue E (OpKill q st) r m) = (terminated m \<or> err r = None)"
  proof (cases "err r")
    case None
    then show ?thesis by (simp add: processMessage_def resolve_def)
  next
    case (Some env)
    from processMessage_throws [OF this] obtain h where "processMessage E r st = Inl h" ..
    with Some show ?thesis by (simp add: reject_def)
  qed
  show "promises (continue E (OpKill q st) r m) q = Some (Fulfilled VUndefined)"
    if "promises m q = Some Pending" "err r = None"
    using that by (simp add: processMessage_def resolve_def)
  show "\<exists>h. processMessage E r st = Inl h
        \<and> promises (continue E (OpKill q st) r m) q = Some (Rejected h)"
    if "promises m q = Some Pending" "err r \<noteq> None"
  proof -
    from that(2) obtain env where "err r = Some env" by auto
    from processMessage_throws [OF this] obtain h where "processMessage E r st = Inl h" ..
    with that(1) show ?thesis by (simp add: reject_def)
  qed
qed

lemma example_listening_value:
  "example_listening = example_worker\<lparr>listeners := [VFunction 30, VFunction 31]\<rparr>"
  by (simp add: example_listening_def prun_def pstep_def example_worker_def vthreadable_init_def)

lemma example_listening_fields:
  "\<not> closed example_listening" "calls example_listening = []"
  "listeners example_listening = [VFunction 30, VFunction 31]"
  "replies example_listening = []" "joins example_listening = []"
  "awaits example_listening = []"
  by (simp_all add: example_listening_value example_worker_def vthreadable_init_def)

lemma example_called:
  "called example_platform 0 [VFunction 30, VFunction 31] args = [Async 100, Async 101]"
  by (simp add: example_platform_def)

lemma example_graceful_value:
  "example_graceful =
     example_listening
       \<lparr>calls := [(VFunction 30, VUndefined, [VStr ''bye'', VBool True]),
                  (VFunction 31, VUndefined, [VStr ''bye'', VBool True])],
        joins := [(Some 7, [100, 101])]\<rparr>"
proof -
  have "handleMessageFromParent example_platform (terminate_msg (VBool True) (VStr ''bye'')) [7]
          example_listening =
        example_listening
       \<lparr>calls := [(VFunction 30, VUndefined, [VStr ''bye'', VBool True]),
                  (VFunction 31, VUndefined, [VStr ''bye'', VBool True])],
        joins := [(Some 7, [100, 101])]\<rparr>"
    by (subst terminate_waits)
       (simp_all add: example_listening_fields example_called logged_def del: called.simps)
  then show ?thesis
    by (simp add: example_graceful_def pstep_def example_listening_fields)
qed

lemma example_rejected_value:
  "example_rejected =
     example_graceful
       \<lparr>joins := [],
        replies := [(7, \<lparr>err = Some (serializeError example_error), ret = VUndefined\<rparr>, [])],
        closed := True\<rparr>"
proof -
  have a: "awaits example_graceful = []" and c: "\<not> closed example_graceful"
    and j: "joins example_graceful = [(Some 7, [100, 101])]"
    and r: "replies example_graceful = []"
    by (simp_all add: example_graceful_value example_listening_fields)
  have "settle_awaits example_platform 100 (Inl (Err example_error)) example_graceful
        = example_graceful"
    by (rule settle_awaits_none) (simp add: a)
  then have "example_rejected =
      settle_joins example_platform 100 (Inl (Err example_error)) example_graceful"
    using c by (simp add: example_rejected_def pstep_def)
  also have "\<dots> = term_catch example_platform (Some 7) (Err example_error)
                        (example_graceful\<lparr>joins := []\<rparr>)"
    using c j by (rule settle_one_join(1)) simp
  finally show ?thesis
    by (simp add: term_catch_error r)
qed

lemma example_throwing_value:
  "example_throwing =
     example_worker
       \<lparr>listeners := [VFunction 11, VFunction 30],
        calls := [(VFunction 11, VUndefined, [VStr ''bye'', VBool False])],
        replies := [(7, \<lparr>err = Some (serializeError example_error), ret = VUndefined\<rparr>, [])],
        closed := True\<rparr>"
proof -
  define w where "w = example_worker\<lparr>listeners := [VFunction 11, VFunction 30]\<rparr>"
  have f: "\<not> closed w" "calls w = []" "listeners w = [VFunction 11, VFunction 30]"
    "replies w = []"
    by (simp_all add: w_def example_worker_def vthreadable_init_def)
  have c: "called example_platform 0 [VFunction 11, VFunction 30] args
             = [Threw (Err example_error)]"
    for args
    by (simp add: example_platform_def)
  have "handleMessageFromParent example_platform (terminate_msg (VBool False) (VStr ''bye'')) [7] w
      = w\<lparr>calls := [(VFunction 11, VUndefined, [VStr ''bye'', VBool False])],
          replies := [(7, \<lparr>err = Some (serializeError example_error), ret = VUndefined\<rparr>, [])],
          closed := True\<rparr>"
    by (subst terminate_throws [where e = example_error])
       (simp_all add: f c logged_def del: called.simps)
  moreover have "example_throwing =
      pstep example_platform w (FromParent (terminate_msg (VBool False) (VStr ''bye'')) [7])"
    by (simp add: example_throwing_def prun_def pstep_def example_worker_def
          vthreadable_init_def w_def)
  ultimately show ?thesis
    using f(1) by (simp add: pstep_def w_def)
qed

text \<open>
  C7, as the claim states it, fails. A worker has two termination listeners, which
  return the promises 100 and 101. After the message of a graceful \<^verbatim>\<open>kill\<close> both
  have been called and the termination waits for both promises. Then promise 100
  rejects: the reply is posted and the worker closes, and promise 101 has not settled
  (\<^verbatim>\<open>Promise.all\<close> rejects with the first rejection). And in a worker whose first
  listener throws, the second listener is not called at all (the \<^verbatim>\<open>forEach\<close> of
  \<^verbatim>\<open>dispatch\<close> ends with the throw).
\<close>

theorem C7_first_rejection_counterexample:
  "listeners example_graceful = [VFunction 30, VFunction 31]
   \<and> calls example_graceful =
       [(VFunction 30, VUndefined, [VStr ''bye'', VBool True]),
        (VFunction 31, VUndefined, [VStr ''bye'', VBool True])]
   \<and> joins example_graceful = [(Some 7, [100, 101])]
   \<and> replies example_graceful = [] \<and> \<not> closed example_graceful
   \<and> example_rejected =
       pstep example_platform example_graceful (Settle 100 (Inl (Err example_error)))
   \<and> replies example_rejected =
       [(7, \<lparr>err = Some (serializeError example_error), ret = VUndefined\<rparr>, [])]
   \<and> closed example_rejected
   \<and> listeners example_throwing = [VFunction 11, VFunction 30]
   \<and> calls example_throwing = [(VFunction 11, VUndefined, [VStr ''bye'', VBool False])]
   \<and> closed example_throwing"
proof -
  have "listeners example_graceful = [VFunction 30, VFunction 31]"
    and "calls example_graceful =
       [(VFunction 30, VUndefined, [VStr ''bye'', VBool True]),
        (VFunction 31, VUndefined, [VStr ''bye'', VBool True])]"
    and "joins example_graceful = [(Some 7, [100, 101])]"
    and "replies example_graceful = []" and "\<not> closed example_graceful"
    by (simp_all add: example_graceful_value example_listening_fields)
  moreover have "replies example_rejected =
       [(7, \<lparr>err = Some (serializeError example_error), ret = VUndefined\<rparr>, [])]"
    and "closed example_rejected"
    by (simp_all add: example_rejected_value)
  moreover have "listeners example_throwing = [VFunction 11, VFunction 30]"
    and "calls example_throwing = [(VFunction 11, VUndefined, [VStr ''bye'', VBool False])]"
    and "closed example_throwing"
    by (simp_all add: example_throwing_value)
  ultimately show ?thesis
    using example_rejected_def by blast
qed

text \<open>
  C7, amended. \<^verbatim>\<open>kill(lastWords, graceful)\<close> on a worker that is ready posts
  nothing within the call; when it goes on after its \<^verbatim>\<open>await\<close>, the worker is
  \<open>Killed\<close> and the terminate message is posted with a reply port, \<open>graceful\<close> being
  \<^verbatim>\<open>true\<close> when it was not given. When the reply comes, \<^verbatim>\<open>worker.terminate()\<close> is
  called only if the reply has no error; with an error the promise of \<^verbatim>\<open>kill\<close>
  rejects. In a worker that has not closed, on the terminate message
  \<open>{lastWords, graceful}\<close>: the listeners are called in the order they were registered,
  each with \<open>(lastWords, graceful)\<close>, up to and including the first that throws (all
  of them when none throws). When one throws an error object, the reply carries the
  envelope of that error and the worker closes at once, graceful or not. When none
  throws and either \<open>graceful\<close> is falsy or no listener returned a promise, the reply
  carries no error and the worker closes at once: the promises the listeners return are
  not awaited. When none throws, \<open>graceful\<close> is truthy and promises were returned,
  nothing is replied and the worker stays open, waiting for them. While it waits so (for
  that one termination, the promise being awaited by nothing else): when one of the
  promises rejects with an error object, the reply carries the envelope of that error
  and the worker closes at once, without waiting for the others; when one fulfils and it
  was the last, the reply carries no error and the worker closes; when one fulfils and
  others remain, the worker goes on waiting for the others.
\<close>

theorem C7_termination:
  fixes m :: vthread and s u :: vthreadable
  shows
  "(workerState m = Ready \<longrightarrow>
      (let given = (if graceful = VUndefined then VBool True else graceful);
           m1 = snd (kill E lastWords graceful st m);
           m2 = mstep E m1 (Resume (length (resuming m)))
       in posted m1 = posted m \<and> workerState m1 = Ready
          \<and> resuming m1 = resuming m @ [WKill (fresh m) lastWords given st]
          \<and> workerState m2 = Killed \<and> resuming m2 = resuming m
          \<and> posted m2 = posted m @ [(terminate_msg given lastWords, [Port (Suc (fresh m))])]
          \<and> flight m2 (Suc (fresh m)) = Some (OpKill (fresh m) st)))
   \<and> terminated (continue E (OpKill q st) r m) = (terminated m \<or> err r = None)
   \<and> (promises m q = Some Pending \<and> err r \<noteq> None \<longrightarrow>
        (\<exists>h. promises (continue E (OpKill q st) r m) q = Some (Rejected h)))
   \<and> (\<not> closed s \<longrightarrow>
        (let rs = called E (length (calls s)) (listeners s) [lw, g];
             t = pstep E s (FromParent (terminate_msg g lw) (c # cs))
         in calls t = calls s @ logged rs (listeners s) [lw, g]
            \<and> (first_throw rs = None \<longrightarrow> length rs = length (listeners s))
            \<and> (\<forall>e. first_throw rs = Some (Err e) \<longrightarrow>
                  replies t = replies s @
                    [(c, \<lparr>err = Some (serializeError e), ret = VUndefined\<rparr>, [])]
                  \<and> closed t)
            \<and> (first_throw rs = None \<and> (\<not> truthy g \<or> awaited rs = []) \<longrightarrow>
                  replies t = replies s @ [(c, \<lparr>err = None, ret = VUndefined\<rparr>, [])]
                  \<and> closed t)
            \<and> (first_throw rs = None \<and> truthy g \<and> awaited rs \<noteq> [] \<longrightarrow>
                  replies t = replies s \<and> \<not> closed t
                  \<and> joins t = joins s @ [(Some c, awaited rs)])))
   \<and> (\<not> closed u \<and> joins u = [(Some c, ps)] \<and> p \<in> set ps \<and> p \<notin> fst ` set (awaits u) \<longrightarrow>
        replies (pstep E u (Settle p (Inl (Err e)))) =
          replies u @ [(c, \<lparr>err = Some (serializeError e), ret = VUndefined\<rparr>, [])]
        \<and> closed (pstep E u (Settle p (Inl (Err e))))
        \<and> (removeAll p ps = [] \<longrightarrow>
             replies (pstep E u (Settle p (Inr v))) =
               replies u @ [(c, \<lparr>err = None, ret = VUndefined\<rparr>, [])]
             \<and> closed (pstep E u (Settle p (Inr v))))
        \<and> (removeAll p ps \<noteq> [] \<longrightarrow>
             pstep E u (Settle p (Inr v)) = u\<lparr>joins := [(Some c, removeAll p ps)]\<rparr>))"
proof -
  define given where "given = (if graceful = VUndefined then VBool True else graceful)"
  define m1 where "m1 = snd (kill E lastWords graceful st m)"
  define m2 where "m2 = mstep E m1 (Resume (length (resuming m)))"
  have A: "posted m1 = posted m \<and> workerState m1 = Ready
          \<and> resuming m1 = resuming m @ [WKill (fresh m) lastWords given st]
          \<and> workerState m2 = Killed \<and> resuming m2 = resuming m
          \<and> posted m2 = posted m @ [(terminate_msg given lastWords, [Port (Suc (fresh m))])]
          \<and> flight m2 (Suc (fresh m)) = Some (OpKill (fresh m) st)"
    if rd: "workerState m = Ready"
  proof -
    have 1: "m1 = m\<lparr>promises := (promises m)(fresh m \<mapsto> Pending), fresh := Suc (fresh m),
       resuming := resuming m @ [WKill (fresh m) lastWords given st]\<rparr>"
      unfolding m1_def given_def by (rule kill_ready [OF rd])
    have 2: "m2 = m\<lparr>promises := (promises m)(fresh m \<mapsto> Pending), fresh := Suc (Suc (fresh m)),
       workerState := Killed, pendingTransactionCount := pendingTransactionCount m + 1,
       flight := (flight m)(Suc (fresh m) \<mapsto> OpKill (fresh m) st),
       posted := posted m @ [(terminate_msg given lastWords, [Port (Suc (fresh m))])]\<rparr>"
      unfolding m2_def m1_def given_def by (rule kill_resumed [OF rd])
    show ?thesis
      using rd by (simp add: 1 2)
  qed
  have B: "terminated (continue E (OpKill q st) r m) = (terminated m \<or> err r = None)"
    by (rule kill_reply(1))
  have C: "\<exists>h. promises (continue E (OpKill q st) r m) q = Some (Rejected h)"
    if "promises m q = Some Pending \<and> err r \<noteq> None"
    using kill_reply(3) [of m q r E st] that by blast
  define rs where "rs = called E (length (calls s)) (listeners s) [lw, g]"
  define t where "t = pstep E s (FromParent (terminate_msg g lw) (c # cs))"
  have D: "calls t = calls s @ logged rs (listeners s) [lw, g]
            \<and> (first_throw rs = None \<longrightarrow> length rs = length (listeners s))
            \<and> (\<forall>e. first_throw rs = Some (Err e) \<longrightarrow>
                  replies t = replies s @
                    [(c, \<lparr>err = Some (serializeError e), ret = VUndefined\<rparr>, [])]
                  \<and> closed t)
            \<and> (first_throw rs = None \<and> (\<not> truthy g \<or> awaited rs = []) \<longrightarrow>
                  replies t = replies s @ [(c, \<lparr>err = None, ret = VUndefined\<rparr>, [])]
                  \<and> closed t)
            \<and> (first_throw rs = None \<and> truthy g \<and> awaited rs \<noteq> [] \<longrightarrow>
                  replies t = replies s \<and> \<not> closed t
                  \<and> joins t = joins s @ [(Some c, awaited rs)])"
    if nc: "\<not> closed s"
  proof -
    have t: "t = handleMessageFromParent E (terminate_msg g lw) (c # cs) s"
      using nc by (simp add: t_def pstep_def)
    have 1: "calls t = calls s @ logged rs (listeners s) [lw, g]"
      unfolding t rs_def by (rule terminate_calls)
    have 2: "length rs = length (listeners s)" if "first_throw rs = None"
      using that unfolding rs_def by (rule called_all)
    have 3: "replies t = replies s @
                    [(c, \<lparr>err = Some (serializeError e), ret = VUndefined\<rparr>, [])]
                  \<and> closed t" if "first_throw rs = Some (Err e)" for e
      unfolding t using that by (simp add: terminate_throws rs_def)
    have 4: "replies t = replies s @ [(c, \<lparr>err = None, ret = VUndefined\<rparr>, [])]
                  \<and> closed t" if "first_throw rs = None \<and> (\<not> truthy g \<or> awaited rs = [])"
      unfolding t using that by (simp add: terminate_at_once rs_def)
    have 5: "replies t = replies s \<and> \<not> closed t
                  \<and> joins t = joins s @ [(Some c, awaited rs)]"
      if "first_throw rs = None \<and> truthy g \<and> awaited rs \<noteq> []"
      unfolding t using that nc by (simp add: terminate_waits rs_def)
    from 1 2 3 4 5 show ?thesis by blast
  qed
  have F: "replies (pstep E u (Settle p (Inl (Err e)))) =
          replies u @ [(c, \<lparr>err = Some (serializeError e), ret = VUndefined\<rparr>, [])]
        \<and> closed (pstep E u (Settle p (Inl (Err e))))
        \<and> (removeAll p ps = [] \<longrightarrow>
             replies (pstep E u (Settle p (Inr v))) =
               replies u @ [(c, \<lparr>err = None, ret = VUndefined\<rparr>, [])]
             \<and> closed (pstep E u (Settle p (Inr v))))
        \<and> (removeAll p ps \<noteq> [] \<longrightarrow>
             pstep E u (Settle p (Inr v)) = u\<lparr>joins := [(Some c, removeAll p ps)]\<rparr>)"
    if h: "\<not> closed u \<and> joins u = [(Some c, ps)] \<and> p \<in> set ps \<and> p \<notin> fst ` set (awaits u)"
  proof -
    from h have nc: "\<not> closed u" and j: "joins u = [(Some c, ps)]" and p: "p \<in> set ps"
      and a: "p \<notin> fst ` set (awaits u)"
      by simp_all
    have st: "pstep E u (Settle p x) = settle_joins E p x u" for x
      using nc by (simp add: pstep_def settle_awaits_none [OF a])
    note sj = settle_one_join [OF nc j p]
    have 1: "replies (pstep E u (Settle p (Inl (Err e)))) =
          replies u @ [(c, \<lparr>err = Some (serializeError e), ret = VUndefined\<rparr>, [])]
        \<and> closed (pstep E u (Settle p (Inl (Err e))))"
      by (simp add: st sj(1) term_catch_error)
    have 2: "replies (pstep E u (Settle p (Inr v))) =
               replies u @ [(c, \<lparr>err = None, ret = VUndefined\<rparr>, [])]
             \<and> closed (pstep E u (Settle p (Inr v)))" if "removeAll p ps = []"
      by (simp add: st sj(2) [OF that] term_done_port)
    have 3: "pstep E u (Settle p (Inr v)) = u\<lparr>joins := [(Some c, removeAll p ps)]\<rparr>"
      if "removeAll p ps \<noteq> []"
      by (simp add: st sj(3) [OF that])
    from 1 2 3 show ?thesis by blast
  qed
  show ?thesis
    unfolding Let_def given_def[symmetric] m1_def[symmetric] m2_def[symmetric]
      rs_def[symmetric] t_def[symmetric]
    using A B C D F by blast
qed

text \<open>
  The amended C7 on the examples: \<^verbatim>\<open>kill("bye")\<close> on a ready main thread; the worker
  with the two listeners, on that message; and the first promise settling.
\<close>

theorem C7_termination_witness:
  "workerState example_ready = Ready
   \<and> posted (snd (kill example_platform (VStr ''bye'') VUndefined example_stack example_ready))
       = posted example_ready
   \<and> posted (mstep example_platform
        (snd (kill example_platform (VStr ''bye'') VUndefined example_stack example_ready))
        (Resume 0))
       = posted example_ready @ [(terminate_msg (VBool True) (VStr ''bye''), [Port 4])]
   \<and> \<not> closed example_listening
   \<and> called example_platform 0 (listeners example_listening) [VStr ''bye'', VBool True]
       = [Async 100, Async 101]
   \<and> calls example_graceful =
       [(VFunction 30, VUndefined, [VStr ''bye'', VBool True]),
        (VFunction 31, VUndefined, [VStr ''bye'', VBool True])]
   \<and> replies example_graceful = [] \<and> \<not> closed example_graceful
   \<and> joins example_graceful = [(Some 7, [100, 101])]
   \<and> replies (pstep example_platform example_graceful (Settle 100 (Inl (Err example_error)))) =
       [(7, \<lparr>err = Some (serializeError example_error), ret = VUndefined\<rparr>, [])]
   \<and> closed (pstep example_platform example_graceful (Settle 100 (Inl (Err example_error))))
   \<and> pstep example_platform example_graceful (Settle 100 (Inr VUndefined)) =
       example_graceful\<lparr>joins := [(Some 7, [101])]\<rparr>"
proof -
  have r: "workerState example_ready = Ready" "fresh example_ready = 3"
    "resuming example_ready = []"
    by (simp_all add: example_ready_value)
  have a: "awaits example_graceful = []"
    by (simp add: example_graceful_value example_listening_fields)
  show ?thesis
    using C7_termination [where m = example_ready and E = example_platform
        and lastWords = "VStr ''bye''" and graceful = VUndefined and st = example_stack
        and lw = "VStr ''bye''" and g = "VBool True"
        and s = example_listening and c = 7 and cs = "[]"
        and u = example_graceful and ps = "[100, 101]" and p = 100
        and e = example_error and v = VUndefined]
    by (simp add: r a example_listening_fields example_called logged_def
          example_graceful_def [symmetric] Let_def del: called.simps)
qed

section \<open>Marking a value as transferable\<close>

lemma is_object_identity: "is_object v \<Longrightarrow> \<exists>k. identity v = Some k"
  by (cases v) (simp_all add: is_object_def)

text \<open>
  C4, as the claim states it, fails: a value that is not an object (here the number 5,
  marked with no buffers) is not a buffer, and yet \<open>markAsVTransferable\<close> throws
  nothing and records nothing, because of its guard \<^verbatim>\<open>typeof value === 'object'\<close>.
\<close>

theorem C4_mark_primitive_counterexample:
  "is_buffer (VNum 5) = False
   \<and> markAsVTransferable (VNum 5) [] Map.empty = (Inr (VNum 5), Map.empty)"
  by (simp add: markAsVTransferable_def)

text \<open>
  C4, amended: for a value that is an object (and not \<^verbatim>\<open>null\<close>), the list recorded is
  the value alone when no buffers are given and the given buffers otherwise; when an
  item of that list is not an ArrayBuffer or an ImageBitmap the call throws a TypeError
  and the registry is unchanged; otherwise the call returns the value and the registry
  maps the value to that list. For a value whose \<^verbatim>\<open>typeof\<close> is not \<^verbatim>\<open>'object'\<close>
  the call returns the value, throws nothing and leaves the registry unchanged.
\<close>

theorem C4_mark:
  "(is_object v \<longrightarrow>
      (let ts = (if bufs = [] then [v] else bufs) in
         if list_all is_buffer ts
         then fst (markAsVTransferable v bufs reg) = Inr v
              \<and> wm_get (snd (markAsVTransferable v bufs reg)) v = Some ts
         else throws ''TypeError'' (fst (markAsVTransferable v bufs reg))
              \<and> snd (markAsVTransferable v bufs reg) = reg))
   \<and> (typeof v \<noteq> ''object'' \<longrightarrow> markAsVTransferable v bufs reg = (Inr v, reg))"
proof (intro conjI impI)
  assume obj: "is_object v"
  then obtain k where k: "identity v = Some k"
    using is_object_identity by blast
  from obj have ty: "typeof v = ''object''"
    by (simp add: is_object_def)
  show "let ts = (if bufs = [] then [v] else bufs) in
         if list_all is_buffer ts
         then fst (markAsVTransferable v bufs reg) = Inr v
              \<and> wm_get (snd (markAsVTransferable v bufs reg)) v = Some ts
         else throws ''TypeError'' (fst (markAsVTransferable v bufs reg))
              \<and> snd (markAsVTransferable v bufs reg) = reg"
    using k ty by (simp add: markAsVTransferable_def wm_set_def wm_get_def Let_def throws_def mk_error_def)
next
  assume "typeof v \<noteq> ''object''"
  then show "markAsVTransferable v bufs reg = (Inr v, reg)"
    by (simp add: markAsVTransferable_def)
qed

theorem C4_mark_witness:
  "is_object (VArrayBuffer 7)
   \<and> fst (markAsVTransferable (VArrayBuffer 7) [] Map.empty) = Inr (VArrayBuffer 7)
   \<and> wm_get (snd (markAsVTransferable (VArrayBuffer 7) [] Map.empty)) (VArrayBuffer 7)
       = Some [VArrayBuffer 7]
   \<and> is_object (VObject 1 [])
   \<and> throws ''TypeError'' (fst (markAsVTransferable (VObject 1 []) [] Map.empty))
   \<and> typeof (VStr ''s'') \<noteq> ''object''
   \<and> markAsVTransferable (VStr ''s'') [VArrayBuffer 2] Map.empty = (Inr (VStr ''s''), Map.empty)"
  using C4_mark [of "VArrayBuffer 7" "[]" Map.empty]
        C4_mark [of "VObject 1 []" "[]" Map.empty]
        C4_mark [of "VStr ''s''" "[VArrayBuffer 2]" Map.empty]
  by (simp add: is_object_def)

end
